(* ===== verification/Prelude.thy ===== *)
theory Prelude
  imports Main "HOL-Library.Word" "HOL-Library.Char_ord" "HOL-Library.List_Lexorder"
begin

text \<open>
  What every component of the model shares: the exceptions of the C++ code, the type of
  an operation on a mutable state, the few operations of \<^verbatim>\<open>std::string\<close>, of the C string
  functions and of stream output the sources call, and the collections of lemmas the
  component proofs hand to the simplifier.

  An exception is a value. \<open>Err m\<close> is the project's exception class \<^verbatim>\<open>Err\<close> with the
  message \<open>m\<close>, the only one a \<^verbatim>\<open>catch\<close> clause of the sources handles. \<open>UB\<close> stands for
  an execution the C++ standard gives no meaning to (a call through a null pointer, a
  shift by the width of the type), \<open>Hang\<close> for a call that does not return; no clause
  catches either. An operation keeps what it did to the state before it threw, so its
  result pairs the exception or the value with the new state.
\<close>

section \<open>Exceptions and operations\<close>

datatype exn = Err (err_str: string) | UB | Hang

type_synonym 'a result = "exn + 'a"
type_synonym ('s, 'a) act = "'s \<Rightarrow> (exn + 'a) \<times> 's"

text \<open>A connection number is a \<^verbatim>\<open>uint64_t\<close>.\<close>

type_synonym conn = "64 word"

definition ok :: "'a \<Rightarrow> ('s, 'a) act" where
  "ok x = (\<lambda>s. (Inr x, s))"

definition throw :: "string \<Rightarrow> ('s, 'a) act" where
  "throw m = (\<lambda>s. (Inl (Err m), s))"

definition bind_act :: "('s, 'a) act \<Rightarrow> ('a \<Rightarrow> ('s, 'b) act) \<Rightarrow> ('s, 'b) act" where
  "bind_act f g = (\<lambda>s. case f s of (Inl e, s') \<Rightarrow> (Inl e, s') | (Inr x, s') \<Rightarrow> g x s')"

definition bind_res :: "'a result \<Rightarrow> ('a \<Rightarrow> 'b result) \<Rightarrow> 'b result" where
  "bind_res r g = (case r of Inl e \<Rightarrow> Inl e | Inr x \<Rightarrow> g x)"

named_theorems act_defs "unfolding the combinators of operations"
named_theorems inv_pres "operations that keep the invariant of their component"

definition lift_res :: "'a result \<Rightarrow> ('s, 'a) act" where
  "lift_res r = (\<lambda>s. (r, s))"

text \<open>
  A system call answers a value or sets \<^verbatim>\<open>errno\<close> (\<open>Inl\<close>) and moves the outside world on.
\<close>

type_synonym ('w, 'a) sys = "'w \<Rightarrow> (nat + 'a) \<times> 'w"

text \<open>A loop that may run for ever has no value then; its caller does not return.\<close>

definition or_hang :: "('s \<Rightarrow> ((exn + 'a) \<times> 's) option) \<Rightarrow> ('s, 'a) act" where
  "or_hang f = (\<lambda>s. case f s of None \<Rightarrow> (Inl Hang, s) | Some x \<Rightarrow> x)"

lemma or_hang_Some [simp]: "f s = Some x \<Longrightarrow> or_hang f s = x"
  by (simp add: or_hang_def)

lemma bind_act_simps [simp]:
  "f s = (Inl e, s') \<Longrightarrow> bind_act f g s = (Inl e, s')"
  "f s = (Inr x, s') \<Longrightarrow> bind_act f g s = g x s'"
  by (simp_all add: bind_act_def)

lemma ok_apply [simp]: "ok x s = (Inr x, s)"
  by (simp add: ok_def)

lemma throw_apply [simp]: "throw m s = (Inl (Err m), s)"
  by (simp add: throw_def)

lemma lift_res_apply [simp]: "lift_res r s = (r, s)"
  by (simp add: lift_res_def)

lemma bind_res_simps [simp]:
  "bind_res (Inl e) g = Inl e" "bind_res (Inr x) g = g x"
  by (simp_all add: bind_res_def)

lemma bind_res_Inr_iff:
  "bind_res r g = Inr y \<longleftrightarrow> (\<exists>x. r = Inr x \<and> g x = Inr y)"
  by (cases r) auto

lemma snd_bind_act_cases:
  assumes "\<And>s. P s \<Longrightarrow> P (snd (f s))" and "\<And>x s. P s \<Longrightarrow> P (snd (g x s))" and "P s"
  shows "P (snd (bind_act f g s))"
proof (cases "f s")
  case (Pair r s')
  with assms(1,3) have "P s'" by fastforce
  with Pair assms(2) show ?thesis by (cases r) (auto simp: bind_act_def)
qed

section \<open>Strings\<close>

text \<open>
  A \<^verbatim>\<open>std::string\<close> is a list of bytes. \<^verbatim>\<open>find\<close> answers the position, or
  \<^verbatim>\<open>npos\<close>, which is the largest \<^verbatim>\<open>size_t\<close> and compares above every position.
\<close>

definition npos :: nat where
  "npos = 2 ^ 64 - 1"

definition str_find :: "char \<Rightarrow> string \<Rightarrow> nat \<Rightarrow> nat" where
  "str_find c s p =
     (let i = p + length (takeWhile (\<lambda>x. x \<noteq> c) (drop p s))
      in if i < length s then i else npos)"

definition substr :: "string \<Rightarrow> nat \<Rightarrow> nat \<Rightarrow> string" where
  "substr s p n = take n (drop p s)"

definition nl :: string where
  "nl = [CHR 0x0A]"

text \<open>The characters a C function sees through \<^verbatim>\<open>c_str()\<close> stop at the first NUL.\<close>

definition c_str :: "string \<Rightarrow> string" where
  "c_str s = takeWhile (\<lambda>c. c \<noteq> CHR 0x00) s"

definition tolower :: "char \<Rightarrow> char" where
  "tolower c = (if CHR ''A'' \<le> c \<and> c \<le> CHR ''Z'' then char_of (of_char c + 32 :: nat) else c)"

text \<open>\<^verbatim>\<open>strcasecmp(a, b) == 0\<close>\<close>

definition strcaseeq :: "string \<Rightarrow> string \<Rightarrow> bool" where
  "strcaseeq a b \<longleftrightarrow> map tolower (c_str a) = map tolower (c_str b)"

lemma strcaseeq_refl [simp]: "strcaseeq a a"
  by (simp add: strcaseeq_def)

lemma takeWhile_neq_length:
  "length (takeWhile (\<lambda>x. x \<noteq> c) s) < length s \<longleftrightarrow> c \<in> set s"
  by (metis (mono_tags, lifting) length_takeWhile_le nat_less_le set_takeWhileD
      takeWhile_eq_all_conv takeWhile_eq_take take_all_iff order_refl)

lemma str_find_0:
  "str_find c s 0 = (if c \<in> set s then length (takeWhile (\<lambda>x. x \<noteq> c) s) else npos)"
  by (simp add: str_find_def Let_def takeWhile_neq_length)

lemma takeWhile_sep:
  "c \<notin> set a \<Longrightarrow> takeWhile (\<lambda>x. x \<noteq> c) (a @ c # b) = a"
  by (induction a) auto

lemma takeWhile_nosep:
  "c \<notin> set a \<Longrightarrow> takeWhile (\<lambda>x. x \<noteq> c) a = a"
  by (induction a) auto

section \<open>Decimal output\<close>

text \<open>What \<^verbatim>\<open>ostream << n\<close> writes for an unsigned number.\<close>

definition digit :: "nat \<Rightarrow> char" where
  "digit n = char_of (48 + n)"

fun dec :: "nat \<Rightarrow> string" where
  "dec n = (if n < 10 then [digit n] else dec (n div 10) @ [digit (n mod 10)])"

declare dec.simps [simp del]

text \<open>The same for a signed number.\<close>

definition dec_int :: "int \<Rightarrow> string" where
  "dec_int i = (if i < 0 then ''-'' @ dec (nat (- i)) else dec (nat i))"

definition undec :: "string \<Rightarrow> nat" where
  "undec s = foldl (\<lambda>v c. 10 * v + (of_char c - 48)) 0 s"

lemma digit_value: "n < 10 \<Longrightarrow> of_char (digit n) = 48 + n"
  by (simp add: digit_def)

lemma undec_snoc [simp]: "undec (s @ [c]) = 10 * undec s + (of_char c - 48)"
  by (simp add: undec_def)

lemma undec_dec [simp]: "undec (dec n) = n"
proof (induction n rule: dec.induct)
  case (1 n)
  show ?case
  proof (cases "n < 10")
    case True
    then show ?thesis
      by (simp add: dec.simps [of n] undec_def digit_value)
  next
    case False
    with 1 have "undec (dec (n div 10)) = n div 10" by simp
    with False show ?thesis
      by (simp add: dec.simps [of n] digit_value)
  qed
qed

lemma dec_inject [simp]: "dec m = dec n \<longleftrightarrow> m = n"
  by (metis undec_dec)

lemma dec_nonempty [simp]: "dec n \<noteq> []"
  by (subst dec.simps) simp

lemma dec_small: "n < 10 \<Longrightarrow> dec n = [digit n]"
  by (simp add: dec.simps)

end
