(* ===== verification/Std_Map.thy ===== *)
theory Std_Map
  imports Prelude
begin

text \<open>
  \<^verbatim>\<open>std::map\<close>: a container of key/value pairs in which each key occurs once and a loop
  visits the keys in increasing order. The model is the sequence the loop visits, an
  association list with strictly increasing keys (\<open>smap_ok\<close>). The locale \<open>table\<close> is
  what the clients rely on; it is interpreted on these operations below.
\<close>

type_synonym ('k, 'v) smap = "('k \<times> 'v) list"

definition smap_ok :: "('k::linorder, 'v) smap \<Rightarrow> bool" where
  "smap_ok m \<longleftrightarrow> sorted_wrt (<) (map fst m)"

text \<open>\<^verbatim>\<open>m[k] = v\<close>\<close>

fun sm_put :: "'k::linorder \<Rightarrow> 'v \<Rightarrow> ('k, 'v) smap \<Rightarrow> ('k, 'v) smap" where
  "sm_put k v [] = [(k, v)]"
| "sm_put k v ((a, b) # m) =
     (if k < a then (k, v) # (a, b) # m
      else if k = a then (k, v) # m
      else (a, b) # sm_put k v m)"

text \<open>\<^verbatim>\<open>m.erase(k)\<close>\<close>

definition sm_erase :: "'k \<Rightarrow> ('k, 'v) smap \<Rightarrow> ('k, 'v) smap" where
  "sm_erase k m = filter (\<lambda>e. fst e \<noteq> k) m"

text \<open>\<^verbatim>\<open>m.find(k)\<close>, \<^verbatim>\<open>m.count(k) > 0\<close>\<close>

definition sm_find :: "('k, 'v) smap \<Rightarrow> 'k \<Rightarrow> 'v option" where
  "sm_find m k = map_of m k"

definition sm_has :: "('k, 'v) smap \<Rightarrow> 'k \<Rightarrow> bool" where
  "sm_has m k \<longleftrightarrow> k \<in> fst ` set m"

text \<open>\<^verbatim>\<open>for (auto & e : m) e.second = f(e.second)\<close>\<close>

definition sm_each :: "('v \<Rightarrow> 'w) \<Rightarrow> ('k, 'v) smap \<Rightarrow> ('k, 'w) smap" where
  "sm_each f m = map (\<lambda>(k, v). (k, f v)) m"

section \<open>The interface\<close>

locale table =
  fixes none :: "'m"
    and put :: "'k \<Rightarrow> 'v \<Rightarrow> 'm \<Rightarrow> 'm"
    and erase :: "'k \<Rightarrow> 'm \<Rightarrow> 'm"
    and look :: "'m \<Rightarrow> 'k \<Rightarrow> 'v option"
    and good :: "'m \<Rightarrow> bool"
  assumes good_none: "good none"
    and look_none: "look none k = None"
    and good_put: "good m \<Longrightarrow> good (put k v m)"
    and look_put: "good m \<Longrightarrow> look (put k v m) j = (if j = k then Some v else look m j)"
    and good_erase: "good m \<Longrightarrow> good (erase k m)"
    and look_erase: "good m \<Longrightarrow> look (erase k m) j = (if j = k then None else look m j)"
begin

lemma look_put_same: "good m \<Longrightarrow> look (put k v m) k = Some v"
  by (simp add: look_put)

lemma look_put_other: "good m \<Longrightarrow> j \<noteq> k \<Longrightarrow> look (put k v m) j = look m j"
  by (simp add: look_put)

lemma look_put_put:
  "good m \<Longrightarrow> look (put k v (put k u m)) j = look (put k v m) j"
  by (simp add: look_put good_put)

lemma look_put_erase:
  "good m \<Longrightarrow> look (put k v (erase k m)) j = look (put k v m) j"
  by (simp add: look_put look_erase good_erase)

lemma look_erase_put:
  "good m \<Longrightarrow> look (erase k (put k v m)) j = look (erase k m) j"
  by (simp add: look_put look_erase good_put)

lemma look_put_swap:
  "good m \<Longrightarrow> j \<noteq> k \<Longrightarrow> look (put j u (put k v m)) i = look (put k v (put j u m)) i"
  by (simp add: look_put good_put)

end

section \<open>The model implements it\<close>

lemma sm_put_keys: "fst ` set (sm_put k v m) = insert k (fst ` set m)"
  by (induction k v m rule: sm_put.induct) auto

lemma smap_ok_Nil [simp]: "smap_ok []"
  by (simp add: smap_ok_def)

lemma smap_ok_Cons: "smap_ok (e # m) \<longleftrightarrow> (\<forall>x \<in> fst ` set m. fst e < x) \<and> smap_ok m"
  by (auto simp: smap_ok_def)

lemma smap_ok_put [simp]: "smap_ok m \<Longrightarrow> smap_ok (sm_put k v m)"
  by (induction k v m rule: sm_put.induct)
    (auto simp: smap_ok_Cons sm_put_keys dest: less_trans simp del: ball_simps)

lemma smap_ok_erase [simp]: "smap_ok m \<Longrightarrow> smap_ok (sm_erase k m)"
  by (induction m) (auto simp: smap_ok_Cons sm_erase_def)

lemma smap_ok_notin: "smap_ok (e # m) \<Longrightarrow> map_of m (fst e) = None"
  by (fastforce simp: smap_ok_Cons map_of_eq_None_iff)

lemma sm_find_put:
  "smap_ok m \<Longrightarrow> sm_find (sm_put k v m) j = (if j = k then Some v else sm_find m j)"
  by (induction k v m rule: sm_put.induct) (auto simp: sm_find_def smap_ok_Cons)

lemma sm_find_erase:
  "sm_find (sm_erase k m) j = (if j = k then None else sm_find m j)"
  by (induction m) (auto simp: sm_find_def sm_erase_def)

lemma sm_find_put_other: "j \<noteq> k \<Longrightarrow> sm_find (sm_put k v m) j = sm_find m j"
  by (induction k v m rule: sm_put.induct) (auto simp: sm_find_def)

interpretation smap: table "[]" sm_put sm_erase sm_find smap_ok
proof
  fix j :: 'a
  show "sm_find [] j = (None :: 'b option)" by (simp add: sm_find_def)
qed (auto simp: sm_find_put sm_find_erase)

section \<open>Facts about the sequence of pairs\<close>

lemma sm_find_Nil [simp]: "sm_find [] k = None"
  by (simp add: sm_find_def)

lemma sm_has_find: "sm_has m k \<longleftrightarrow> sm_find m k \<noteq> None"
  by (induction m) (auto simp: sm_has_def sm_find_def)

lemma smap_ok_distinct: "smap_ok m \<Longrightarrow> distinct (map fst m)"
  by (simp add: smap_ok_def strict_sorted_iff)

lemma sm_find_iff: "smap_ok m \<Longrightarrow> sm_find m k = Some v \<longleftrightarrow> (k, v) \<in> set m"
  by (simp add: sm_find_def smap_ok_distinct)

lemma smap_map_keys: "smap_ok m \<Longrightarrow> map (\<lambda>k. (k, the (sm_find m k))) (map fst m) = m"
  unfolding list.map_comp by (rule map_idI) (auto simp: sm_find_iff [THEN iffD2])

text \<open>Two maps with the same entries are equal.\<close>

lemma smap_eqI:
  assumes "smap_ok m" and "smap_ok m'" and "\<And>k. sm_find m k = sm_find m' k"
  shows "m = m'"
proof -
  have "set (map fst m) = set (map fst m')"
    using assms(3) by (metis (no_types, lifting) list.set_map sm_has_def sm_has_find subsetI subset_antisym)
  then have "map fst m = map fst m'"
    using assms(1,2) unfolding smap_ok_def by (intro strict_sorted_equal) simp_all
  with assms(3) smap_map_keys [OF assms(1)] smap_map_keys [OF assms(2)] show ?thesis by simp
qed

lemma sm_each_ok [simp]: "smap_ok (sm_each f m) = smap_ok m"
  by (simp add: smap_ok_def sm_each_def comp_def case_prod_beta)

lemma sm_each_find [simp]: "sm_find (sm_each f m) k = map_option f (sm_find m k)"
  by (induction m) (auto simp: sm_find_def sm_each_def)

lemma sm_each_id: "(\<And>k v. (k, v) \<in> set m \<Longrightarrow> f v = v) \<Longrightarrow> sm_each f m = m"
  by (induction m) (auto simp: sm_each_def)

lemma sm_each_Nil_iff [simp]: "sm_each f m = [] \<longleftrightarrow> m = []"
  by (simp add: sm_each_def)

lemma set_sm_put:
  "smap_ok m \<Longrightarrow> set (sm_put k v m) = insert (k, v) {e \<in> set m. fst e \<noteq> k}"
proof (induction k v m rule: sm_put.induct)
  case (2 k v a b m)
  show ?case
  proof (cases "k < a")
    case True
    with 2 have "\<forall>x \<in> fst ` set ((a, b) # m). k < x"
      by (auto simp: smap_ok_Cons dest: less_trans)
    then have "\<forall>e \<in> set ((a, b) # m). fst e \<noteq> k" by fastforce
    with True show ?thesis by auto
  next
    case False
    with 2 show ?thesis by (auto simp: smap_ok_Cons)
  qed
qed simp

lemma set_sm_erase: "set (sm_erase k m) = {e \<in> set m. fst e \<noteq> k}"
  by (auto simp: sm_erase_def)

lemma set_sm_each: "set (sm_each f m) = (\<lambda>(k, v). (k, f v)) ` set m"
  by (simp add: sm_each_def)

end
