(* ===== verification/Opts.thy ===== *)
theory Opts
  imports Std_Map
begin

text \<open>
  Driver options. \<^verbatim>\<open>Opt\<close> is the option container of the \<^verbatim>\<open>mapsoft2-libs\<close> submodule, a
  \<^verbatim>\<open>std::map<std::string, std::string>\<close> with a few access functions; the operations below
  follow \<^verbatim>\<open>opt/opt.h\<close> and \<^verbatim>\<open>opt/opt.cpp\<close> of the snapshot of that submodule which the
  repository ships (\<^verbatim>\<open>src/modules.tar\<close>). Its conversions between text and numbers rest on
  stream input and on floating point; they are not defined here but are the parameter
  \<open>conv\<close> of every definition that needs them.
\<close>

type_synonym opt = "(string, string) smap"

record 'f conv =
  p_bool :: "string \<Rightarrow> bool result"     \<comment> \<open>\<^verbatim>\<open>str_to_type<bool>\<close>\<close>
  p_int :: "string \<Rightarrow> int result"       \<comment> \<open>\<^verbatim>\<open>str_to_type<int>\<close>\<close>
  p_uint :: "string \<Rightarrow> 32 word result"  \<comment> \<open>\<^verbatim>\<open>str_to_type<unsigned int>\<close>\<close>
  p_double :: "string \<Rightarrow> 'f result"     \<comment> \<open>\<^verbatim>\<open>str_to_type<double>\<close>\<close>
  f_lit :: "string \<Rightarrow> 'f"               \<comment> \<open>a \<^verbatim>\<open>double\<close> literal of the source\<close>
  f_less :: "'f \<Rightarrow> 'f \<Rightarrow> bool"
  f_mul :: "'f \<Rightarrow> 'f \<Rightarrow> 'f"
  f_sub :: "'f \<Rightarrow> 'f \<Rightarrow> 'f"
  f_pow :: "'f \<Rightarrow> 'f \<Rightarrow> 'f"          \<comment> \<open>\<^verbatim>\<open>pow\<close>\<close>
  f_trunc :: "'f \<Rightarrow> int"                \<comment> \<open>conversion to an integer type\<close>
  f_of_int :: "int \<Rightarrow> 'f"
  f_str :: "'f \<Rightarrow> string"               \<comment> \<open>\<^verbatim>\<open>type_to_str<double>\<close>\<close>

definition opt_exists :: "opt \<Rightarrow> string \<Rightarrow> bool" where
  "opt_exists m k = sm_has m k"

definition opt_put :: "string \<Rightarrow> string \<Rightarrow> opt \<Rightarrow> opt" where
  "opt_put k v m = sm_put k v m"

definition opt_put_missing :: "string \<Rightarrow> string \<Rightarrow> opt \<Rightarrow> opt" where
  "opt_put_missing k v m = (if opt_exists m k then m else opt_put k v m)"

text \<open>\<^verbatim>\<open>put_missing(const Opt &)\<close>\<close>

definition put_missing_all :: "opt \<Rightarrow> opt \<Rightarrow> opt" where
  "put_missing_all m m' = foldl (\<lambda>m (k, v). opt_put_missing k v m) m m'"

definition opt_get :: "opt \<Rightarrow> string \<Rightarrow> string \<Rightarrow> string" where
  "opt_get m k d = (case sm_find m k of None \<Rightarrow> d | Some v \<Rightarrow> v)"

definition opt_get_as :: "(string \<Rightarrow> 'a result) \<Rightarrow> opt \<Rightarrow> string \<Rightarrow> 'a \<Rightarrow> 'a result" where
  "opt_get_as p m k d = (case sm_find m k of None \<Rightarrow> Inr d | Some v \<Rightarrow> p v)"

definition join_comma :: "string list \<Rightarrow> string" where
  "join_comma ks =
     (case ks of [] \<Rightarrow> [] | k # r \<Rightarrow> '' '' @ k @ concat (map (\<lambda>x. '', '' @ x) r))"

definition opt_check_unknown :: "string list \<Rightarrow> opt \<Rightarrow> unit result" where
  "opt_check_unknown known m =
     (let u = filter (\<lambda>k. k \<notin> set known) (map fst m) in
      if u = [] then Inr ()
      else Inl (Err (''unknown '' @
             (if length u = 1 then ''option:'' else ''options:'') @ join_comma u)))"

section \<open>Lemmas\<close>

lemma opt_ok_put [simp]: "smap_ok m \<Longrightarrow> smap_ok (opt_put k v m)"
  by (simp add: opt_put_def)

lemma opt_ok_put_missing [simp]: "smap_ok m \<Longrightarrow> smap_ok (opt_put_missing k v m)"
  by (simp add: opt_put_missing_def)

lemma opt_find_put [simp]:
  "smap_ok m \<Longrightarrow> sm_find (opt_put k v m) j = (if j = k then Some v else sm_find m j)"
  by (simp add: opt_put_def smap.look_put)

lemma opt_find_put_missing [simp]:
  "smap_ok m \<Longrightarrow> sm_find (opt_put_missing k v m) j =
     (if j = k \<and> sm_find m k = None then Some v else sm_find m j)"
  by (auto simp: opt_put_missing_def opt_exists_def sm_has_find)

lemma opt_exists_find: "opt_exists m k \<longleftrightarrow> sm_find m k \<noteq> None"
  by (simp add: opt_exists_def sm_has_find)

lemma opt_check_unknown_ok:
  "opt_check_unknown known m = Inr () \<longleftrightarrow> fst ` set m \<subseteq> set known"
  by (auto simp: opt_check_unknown_def Let_def filter_empty_conv)

lemma opt_check_unknown_find:
  "opt_check_unknown known m = Inr () \<longleftrightarrow>
     (\<forall>k. sm_find m k \<noteq> None \<longrightarrow> k \<in> set known)"
  unfolding opt_check_unknown_ok
  by (metis (no_types, lifting) sm_has_def sm_has_find subset_iff)

lemma opt_check_unknown_cases:
  "opt_check_unknown known m = Inr () \<or> (\<exists>e. opt_check_unknown known m = Inl (Err e))"
  by (simp add: opt_check_unknown_def Let_def)

text \<open>Conversions that always succeed, for the witnesses.\<close>

definition test_conv :: "unit conv" where
  "test_conv = \<lparr>p_bool = (\<lambda>t. Inr True), p_int = (\<lambda>t. Inr (int (undec t))),
     p_uint = (\<lambda>t. Inr 0), p_double = (\<lambda>t. Inr ()), f_lit = (\<lambda>t. ()), f_less = (\<lambda>a b. False), f_mul = (\<lambda>a b. ()), f_sub = (\<lambda>a b. ()), f_pow = (\<lambda>a b. ()),
     f_trunc = (\<lambda>a. 0), f_of_int = (\<lambda>i. ()), f_str = (\<lambda>a. [])\<rparr>"

end
