(* ===== verification/Drv_Utils.thy ===== *)
theory Drv_Utils
  imports Prelude
begin

text \<open>
  \<^verbatim>\<open>server/drv_utils.h\<close> and \<^verbatim>\<open>server/drv_utils.cpp\<close>: trimming a terminator off a received
  message, and the condition that says whether a message expects an answer.
\<close>

section \<open>Trimming\<close>

text \<open>The C++ function edits its argument: the result is the flag and the new string.\<close>

definition trim_str :: "string \<Rightarrow> string \<Rightarrow> bool \<times> string" where
  "trim_str str trim =
     (if 0 < length trim \<and> length trim \<le> length str \<and>
         drop (length str - length trim) str = trim
      then (True, take (length str - length trim) str)
      else (False, str))"

lemma trim_str_True_iff:
  "fst (trim_str s t) \<longleftrightarrow> t \<noteq> [] \<and> (\<exists>p. s = p @ t)"
proof -
  have "(\<exists>p. s = p @ t) \<longleftrightarrow> length t \<le> length s \<and> drop (length s - length t) s = t"
    by (metis append_take_drop_id diff_diff_cancel length_append length_drop
        append_eq_conv_conj add_diff_cancel_right' le_add2)
  then show ?thesis by (auto simp: trim_str_def)
qed

lemma trim_str_append [simp]: "t \<noteq> [] \<Longrightarrow> trim_str (p @ t) t = (True, p)"
  by (simp add: trim_str_def)

lemma trim_str_nil [simp]: "trim_str s [] = (False, s)"
  by (simp add: trim_str_def)

lemma trim_str_False: "\<not> fst (trim_str s t) \<Longrightarrow> trim_str s t = (False, s)"
  by (auto simp: trim_str_def split: if_splits)

lemma trim_str_split:
  "trim_str s t = (b, r) \<Longrightarrow> s = (if b then r @ t else r)"
  by (metis append_take_drop_id prod.inject trim_str_def)

section \<open>The read condition\<close>

datatype read_cond_t = READCOND_ALWAYS | READCOND_NEVER | READCOND_QMARK | READCOND_QMARK1W

text \<open>The value of an enumerator, as C++ counts them.\<close>

fun cond_int :: "read_cond_t \<Rightarrow> int" where
  "cond_int READCOND_ALWAYS = 0"
| "cond_int READCOND_NEVER = 1"
| "cond_int READCOND_QMARK = 2"
| "cond_int READCOND_QMARK1W = 3"

definition str_to_read_cond :: "string \<Rightarrow> read_cond_t result" where
  "str_to_read_cond str =
     (if str = ''always'' then Inr READCOND_ALWAYS
      else if str = ''never'' then Inr READCOND_NEVER
      else if str = ''qmark'' then Inr READCOND_QMARK
      else if str = ''qmark1w'' then Inr READCOND_QMARK1W
      else Inl (Err (''unknown -read_cond value: '' @ str)))"

definition check_read_cond :: "string \<Rightarrow> int \<Rightarrow> bool result" where
  "check_read_cond msg cond =
     (if cond = 0 then Inr True
      else if cond = 1 then Inr False
      else if cond = 2 then Inr (str_find CHR ''?'' msg 0 \<noteq> npos)
      else if cond = 3 then Inr (str_find CHR ''?'' msg 0 < str_find CHR '' '' msg 0)
      else Inl (Err (''bad read_cond: '' @ dec_int cond)))"

text \<open>What the condition means, in terms of the words of the message.\<close>

definition expects_answer :: "read_cond_t \<Rightarrow> string \<Rightarrow> bool" where
  "expects_answer c msg =
     (case c of READCOND_ALWAYS \<Rightarrow> True
      | READCOND_NEVER \<Rightarrow> False
      | READCOND_QMARK \<Rightarrow> CHR ''?'' \<in> set msg
      | READCOND_QMARK1W \<Rightarrow> CHR ''?'' \<in> set (takeWhile (\<lambda>x. x \<noteq> CHR '' '') msg))"

lemma takeWhile_first:
  assumes "a \<noteq> b"
  shows "length (takeWhile (\<lambda>x. x \<noteq> a) s) < length (takeWhile (\<lambda>x. x \<noteq> b) s) \<longleftrightarrow>
     a \<in> set (takeWhile (\<lambda>x. x \<noteq> b) s)"
  using assms by (induction s) auto

lemma takeWhile_no_b:
  "b \<notin> set s \<Longrightarrow> takeWhile (\<lambda>x. x \<noteq> b) s = s"
  by (induction s) auto

lemma find_before:
  assumes "length s < npos" and "a \<noteq> b"
  shows "str_find a s 0 < str_find b s 0 \<longleftrightarrow> a \<in> set (takeWhile (\<lambda>x. x \<noteq> b) s)"
proof (cases "a \<in> set s")
  case False
  then have "a \<notin> set (takeWhile (\<lambda>x. x \<noteq> b) s)" by (meson set_takeWhileD)
  moreover have "length (takeWhile (\<lambda>x. x \<noteq> b) s) \<le> npos"
    using assms(1) length_takeWhile_le [of "\<lambda>x. x \<noteq> b" s] by linarith
  ultimately show ?thesis using False by (simp add: str_find_0)
next
  case a: True
  have *: "length (takeWhile (\<lambda>x. x \<noteq> a) s) < npos"
    using assms(1) length_takeWhile_le [of "\<lambda>x. x \<noteq> a" s] by linarith
  show ?thesis
  proof (cases "b \<in> set s")
    case True
    with a takeWhile_first [OF assms(2)] show ?thesis by (simp add: str_find_0)
  next
    case False
    with a * show ?thesis by (simp add: str_find_0 takeWhile_no_b)
  qed
qed

lemma check_read_cond_spec:
  assumes "length msg < npos"
  shows "check_read_cond msg (cond_int c) = Inr (expects_answer c msg)"
proof (cases c)
  case READCOND_QMARK
  have "length (takeWhile (\<lambda>x. x \<noteq> CHR ''?'') msg) < npos"
    using assms length_takeWhile_le [of "\<lambda>x. x \<noteq> CHR ''?''" msg] by linarith
  with READCOND_QMARK show ?thesis
    by (simp add: check_read_cond_def expects_answer_def str_find_0)
next
  case READCOND_QMARK1W
  with find_before [OF assms] show ?thesis
    by (simp add: check_read_cond_def expects_answer_def)
qed (simp_all add: check_read_cond_def expects_answer_def)

lemma check_read_cond_total:
  "\<exists>b. check_read_cond msg (cond_int c) = Inr b"
  by (cases c) (auto simp: check_read_cond_def)

end
