(* ===== verification/Driver_Iface.thy ===== *)
theory Driver_Iface
  imports Opts Drv_Utils
begin

text \<open>
  The driver interface (\<^verbatim>\<open>server/drv.h\<close>) and the dummy driver (\<^verbatim>\<open>server/drv_test.h\<close>).

  \<^verbatim>\<open>Driver\<close> is an abstract class: a device calls \<^verbatim>\<open>Driver::create\<close>, then \<^verbatim>\<open>ask\<close> through
  the virtual table, and drops the object when it closes. \<open>vtable\<close> is that interface: \<open>'d\<close>
  is the type of the driver objects and \<open>'w\<close> the outside world the drivers talk to. The
  components above the drivers take a \<open>vtable\<close> as an argument.

  Most drivers share one contract for \<^verbatim>\<open>ask\<close>, the locale \<open>message_driver\<close>: answer an
  identification request from the configuration when there is one, otherwise send the
  message, and read an answer only if the message expects one.
\<close>

record ('d, 'w) vtable =
  vt_create :: "string \<Rightarrow> opt \<Rightarrow> ('w, 'd) act"
  vt_ask :: "string \<Rightarrow> ('d \<times> 'w, string) act"
  vt_destroy :: "'d \<Rightarrow> 'w \<Rightarrow> 'w"

section \<open>The contract of the message drivers\<close>

locale message_driver =
  fixes wr :: "string \<Rightarrow> ('s, unit) act"
    and rd :: "('s, string) act"
    and ak :: "string \<Rightarrow> ('s, string) act"
    and idn :: string
    and cond :: read_cond_t
  assumes ak_idn: "idn \<noteq> [] \<Longrightarrow> strcaseeq m ''*idn?'' \<Longrightarrow> ak m s = (Inr idn, s)"
    and ak_send: "idn = [] \<or> \<not> strcaseeq m ''*idn?'' \<Longrightarrow>
       ak m s = bind_act (wr m) (\<lambda>_. bind_act (lift_res (check_read_cond m (cond_int cond)))
                  (\<lambda>b. if b then rd else ok [])) s"
begin

lemma ask_command:
  assumes "idn = [] \<or> \<not> strcaseeq m ''*idn?''" and "length m < npos"
    and "\<not> expects_answer cond m"
  shows "ak m s = bind_act (wr m) (\<lambda>_. ok []) s"
  using assms
  by (cases "wr m s"; cases "fst (wr m s)")
    (auto simp: ak_send check_read_cond_spec bind_act_def)

lemma ask_query:
  assumes "idn = [] \<or> \<not> strcaseeq m ''*idn?''" and "length m < npos"
    and "expects_answer cond m"
  shows "ak m s = bind_act (wr m) (\<lambda>_. rd) s"
  using assms
  by (cases "wr m s"; cases "fst (wr m s)")
    (auto simp: ak_send check_read_cond_spec bind_act_def)

lemma ask_write_error:
  assumes "idn = [] \<or> \<not> strcaseeq m ''*idn?''" and "wr m s = (Inl e, s')"
  shows "ak m s = (Inl e, s')"
  using assms by (simp add: ak_send)

lemma ask_cases:
  "ak m s = (Inr idn, s) \<or> ak m s = bind_act (wr m) (\<lambda>_. rd) s
    \<or> ak m s = bind_act (wr m) (\<lambda>_. ok []) s"
proof (cases "idn \<noteq> [] \<and> strcaseeq m ''*idn?''")
  case True
  then show ?thesis by (simp add: ak_idn)
next
  case False
  obtain b where "check_read_cond m (cond_int cond) = Inr b"
    using check_read_cond_total by blast
  with False show ?thesis
    by (cases "wr m s"; cases "fst (wr m s)"; cases b) (auto simp: ak_send bind_act_def)
qed

end

section \<open>The dummy driver\<close>

text \<open>Its only field is the last message written, \<^verbatim>\<open>m\<close>.\<close>

definition test_read :: "(string, string) act" where
  "test_read = (\<lambda>m. (Inr m, m))"

definition test_write :: "string \<Rightarrow> (string, unit) act" where
  "test_write msg = (\<lambda>m. (Inr (), msg))"

definition test_ask :: "string \<Rightarrow> (string, string) act" where
  "test_ask msg = bind_act (test_write msg) (\<lambda>_. test_read)"

interpretation test_drv: message_driver test_write test_read test_ask "[]" READCOND_ALWAYS
  by unfold_locales
    (simp_all add: test_ask_def test_write_def test_read_def check_read_cond_def bind_act_def)

lemma test_ask_echo [simp]: "test_ask msg m = (Inr msg, msg)"
  by (simp add: test_ask_def test_write_def test_read_def bind_act_def)

text \<open>
  A virtual table in which every driver is the dummy driver; the witnesses of the components
  above the drivers run on it. Its world counts the objects alive.
\<close>

definition test_vtable :: "(string, nat) vtable" where
  "test_vtable =
     \<lparr>vt_create = (\<lambda>n a w. if n = ''test'' then (Inr [], Suc w)
                      else (Inl (Err (''unknown driver: '' @ n)), w)),
      vt_ask = (\<lambda>msg (m, w). case test_ask msg m of (r, m') \<Rightarrow> (r, (m', w))),
      vt_destroy = (\<lambda>m w. w - 1)\<rparr>"

end
