(* ===== verification/Device.thy ===== *)
theory Device
  imports Driver_Iface
begin

text \<open>
  \<^verbatim>\<open>server/device.h\<close> and \<^verbatim>\<open>server/device.cpp\<close>: a device of the configuration, the
  connections that use it, its lock and its log buffers.

  Each operation is modelled as it runs when nothing interrupts it; \<open>Device_Threads\<close> looks
  at what the mutexes do and do not exclude. An operation acts on the device object and the
  outside world, \<open>'d device \<times> 'w\<close>, and calls the driver through a \<open>vtable\<close>. What is
  written to the server log is left to \<open>Server_Log\<close>.
\<close>

record 'd device =
  drv :: "'d option"          \<comment> \<open>non-null if the device is open\<close>
  users :: "conn set"
  locked :: bool
  dev_name :: string
  drv_name :: string
  drv_args :: opt
  log_bufs :: "(conn, string list) smap"
  max_log_size :: nat

type_synonym ('d, 'w) dst = "'d device \<times> 'w"

definition new_device :: "string \<Rightarrow> string \<Rightarrow> opt \<Rightarrow> 'd device" where
  "new_device dn drn args =
     \<lparr>drv = None, users = {}, locked = False, dev_name = dn, drv_name = drn,
      drv_args = args, log_bufs = [], max_log_size = 1024\<rparr>"

text \<open>The copy constructor copies every field but the log buffers.\<close>

definition copy_device :: "'d device \<Rightarrow> 'd device" where
  "copy_device d =
     \<lparr>drv = drv d, users = users d, locked = locked d, dev_name = dev_name d,
      drv_name = drv_name d, drv_args = drv_args d, log_bufs = [],
      max_log_size = max_log_size d\<rparr>"

section \<open>Sessions\<close>

definition dev_use :: "('d, 'w) vtable \<Rightarrow> conn \<Rightarrow> (('d, 'w) dst, unit) act" where
  "dev_use V c = (\<lambda>(d, w).
     if c \<in> users d then (Inr (), (d, w))
     else if locked d then (Inl (Err ''device is locked''), (d, w))
     else case drv d of
       Some x \<Rightarrow> (Inr (), (d\<lparr>users := insert c (users d)\<rparr>, w))
     | None \<Rightarrow>
         (case vt_create V (drv_name d) (drv_args d) w of
            (Inl e, w') \<Rightarrow> (Inl e, (d, w'))
          | (Inr x, w') \<Rightarrow> (Inr (), (d\<lparr>drv := Some x, users := insert c (users d)\<rparr>, w'))))"

definition dev_release :: "conn \<Rightarrow> 'd device \<Rightarrow> 'd device" where
  "dev_release c d =
     (let d1 = (if sm_has (log_bufs d) c then d\<lparr>log_bufs := sm_erase c (log_bufs d)\<rparr> else d)
      in if c \<notin> users d1 then d1
         else d1\<lparr>locked := False, users := users d1 - {c}\<rparr>)"

definition dev_close :: "('d, 'w) vtable \<Rightarrow> ('d, 'w) dst \<Rightarrow> ('d, 'w) dst" where
  "dev_close V = (\<lambda>(d, w).
     (d\<lparr>log_bufs := [], users := {}, locked := False, drv := None\<rparr>,
      case drv d of None \<Rightarrow> w | Some x \<Rightarrow> vt_destroy V x w))"

definition dev_lock :: "('d, 'w) vtable \<Rightarrow> conn \<Rightarrow> (('d, 'w) dst, unit) act" where
  "dev_lock V c = bind_act
     (\<lambda>s. if c \<in> users (fst s) then (Inr (), s) else dev_use V c s)
     (\<lambda>_ (d, w). if card (users d) \<noteq> 1
        then (Inl (Err ''Can't lock the device: it is in use''), (d, w))
        else (Inr (), (d\<lparr>locked := True\<rparr>, w)))"

definition dev_unlock :: "conn \<Rightarrow> ('d device, unit) act" where
  "dev_unlock c = (\<lambda>d.
     if \<not> locked d then (Inr (), d)
     else if c \<notin> users d then (Inl (Err ''device is locked by another connection''), d)
     else (Inr (), d\<lparr>locked := False\<rparr>))"

section \<open>Log buffers\<close>

definition dev_log_start :: "conn \<Rightarrow> 'd device \<Rightarrow> 'd device" where
  "dev_log_start c d = d\<lparr>log_bufs := sm_put c [] (log_bufs d)\<rparr>"

definition dev_log_finish :: "conn \<Rightarrow> 'd device \<Rightarrow> 'd device" where
  "dev_log_finish c d = d\<lparr>log_bufs := sm_erase c (log_bufs d)\<rparr>"

text \<open>\<^verbatim>\<open>while (size() > 0) { ret += *front(); pop(); }\<close>\<close>

fun drain :: "string list \<Rightarrow> string \<Rightarrow> string \<times> string list" where
  "drain [] ret = (ret, [])"
| "drain (x # q) ret = drain q (ret @ x)"

definition dev_log_get :: "conn \<Rightarrow> ('d device, string) act" where
  "dev_log_get c = (\<lambda>d.
     case sm_find (log_bufs d) c of
       None \<Rightarrow> (Inl (Err ''Logging is off''), d)
     | Some q \<Rightarrow>
         (case drain q [] of (ret, q') \<Rightarrow>
            (Inr ret, d\<lparr>log_bufs := sm_put c q' (log_bufs d)\<rparr>)))"

text \<open>\<^verbatim>\<open>while (size() > max_log_size) pop();\<close>\<close>

fun trim_front :: "nat \<Rightarrow> 'a list \<Rightarrow> 'a list" where
  "trim_front n q = (if n < length q then trim_front n (tl q) else q)"

declare trim_front.simps [simp del]

definition log_message :: "string \<Rightarrow> string \<Rightarrow> 'd device \<Rightarrow> 'd device" where
  "log_message pref msg d =
     (if log_bufs d = [] then d
      else let s = pref @ msg @ nl
           in d\<lparr>log_bufs := sm_each (\<lambda>b. trim_front (max_log_size d) (b @ [s])) (log_bufs d)\<rparr>)"

section \<open>Talking to the device\<close>

text \<open>\<^verbatim>\<open>drv->ask(msg)\<close>: a call through a null pointer has no meaning.\<close>

definition drv_call :: "('d, 'w) vtable \<Rightarrow> string \<Rightarrow> (('d, 'w) dst, string) act" where
  "drv_call V msg = (\<lambda>(d, w).
     case drv d of
       None \<Rightarrow> (Inl UB, (d, w))
     | Some x \<Rightarrow>
         (case vt_ask V msg (x, w) of (r, (x', w')) \<Rightarrow> (r, (d\<lparr>drv := Some x'\<rparr>, w'))))"

definition ask_logged :: "('d, 'w) vtable \<Rightarrow> string \<Rightarrow> (('d, 'w) dst, string) act" where
  "ask_logged V msg = (\<lambda>(d, w).
     if log_bufs d = [] then drv_call V msg (d, w)
     else case drv_call V msg (log_message ''>> '' msg d, w) of
       (Inr ret, (d', w')) \<Rightarrow> (Inr ret, (log_message ''<< '' ret d', w'))
     | (Inl (Err e), (d', w')) \<Rightarrow> (Inl (Err e), (log_message ''EE '' e d', w'))
     | (Inl UB, s') \<Rightarrow> (Inl UB, s')
     | (Inl Hang, s') \<Rightarrow> (Inl Hang, s'))"

definition dev_ask :: "('d, 'w) vtable \<Rightarrow> conn \<Rightarrow> string \<Rightarrow> (('d, 'w) dst, string) act" where
  "dev_ask V c msg = bind_act
     (\<lambda>s. if c \<in> users (fst s) then (Inr (), s) else dev_use V c s)
     (\<lambda>_. ask_logged V msg)"

definition dev_print :: "conn \<Rightarrow> 'd device \<Rightarrow> string" where
  "dev_print c d =
     ''Device: '' @ dev_name d @ nl @
     ''Driver: '' @ drv_name d @ nl @
     (if drv_args d \<noteq> [] then ''Driver arguments:'' @ nl else []) @
     concat (map (\<lambda>(k, v). ''  -'' @ k @ '': '' @ v @ nl) (drv_args d)) @
     ''Device is '' @ (if 0 < card (users d) then ''open'' else ''closed'') @ nl @
     ''Number of users: '' @ dec (card (users d)) @ nl @
     (if c \<noteq> 0 \<and> c \<in> users d then ''You are currently using the device'' @ nl else []) @
     (if locked d then ''Device is locked'' @ nl else [])"


section \<open>The invariant\<close>

text \<open>
  A device somebody uses is open; a locked device has exactly one user; no log buffer is
  longer than the limit.
\<close>

definition logs_ok :: "nat \<Rightarrow> (conn, string list) smap \<Rightarrow> bool" where
  "logs_ok n m \<longleftrightarrow> (\<forall>c b. sm_find m c = Some b \<longrightarrow> length b \<le> n)"

definition dev_inv :: "'d device \<Rightarrow> bool" where
  "dev_inv d \<longleftrightarrow>
     finite (users d) \<and>
     (users d \<noteq> {} \<longrightarrow> drv d \<noteq> None) \<and>
     (locked d \<longrightarrow> (\<exists>c. users d = {c})) \<and>
     smap_ok (log_bufs d) \<and>
     logs_ok (max_log_size d) (log_bufs d)"

lemma logs_ok_Nil [simp]: "logs_ok n []"
  by (simp add: logs_ok_def)

lemma logs_ok_put [simp]:
  "smap_ok m \<Longrightarrow> logs_ok n m \<Longrightarrow> length b \<le> n \<Longrightarrow> logs_ok n (sm_put c b m)"
  by (simp add: logs_ok_def smap.look_put)

lemma logs_ok_erase [simp]: "logs_ok n m \<Longrightarrow> logs_ok n (sm_erase c m)"
  by (simp add: logs_ok_def sm_find_erase)

text \<open>The fields read from the configuration.\<close>

definition same_conf :: "'d device \<Rightarrow> 'd device \<Rightarrow> bool" where
  "same_conf d d' \<longleftrightarrow>
     dev_name d' = dev_name d \<and> drv_name d' = drv_name d \<and> drv_args d' = drv_args d \<and>
     max_log_size d' = max_log_size d"

text \<open>Connections that hold the device or log it.\<close>

definition clients :: "'d device \<Rightarrow> conn set" where
  "clients d = users d \<union> fst ` set (log_bufs d)"

lemma same_conf_refl [simp]: "same_conf d d"
  by (simp add: same_conf_def)

lemma new_device_inv [simp]: "dev_inv (new_device n dn a)"
  by (simp add: dev_inv_def new_device_def)

lemma new_device_clients [simp]: "clients (new_device n dn a) = {}"
  by (simp add: clients_def new_device_def)

lemma copy_new_device [simp]: "copy_device (new_device n dn a) = new_device n dn a"
  by (simp add: copy_device_def new_device_def)

lemma dev_use_cases:
  assumes "dev_use V c (d, w) = (r, (d', w'))"
  shows "c \<in> users d \<and> r = Inr () \<and> d' = d \<and> w' = w
    \<or> c \<notin> users d \<and> locked d \<and> r = Inl (Err ''device is locked'') \<and> d' = d \<and> w' = w
    \<or> c \<notin> users d \<and> \<not> locked d \<and> drv d \<noteq> None \<and> r = Inr () \<and>
        d' = d\<lparr>users := insert c (users d)\<rparr> \<and> w' = w
    \<or> c \<notin> users d \<and> \<not> locked d \<and> drv d = None \<and> d' = d \<and>
        (\<exists>e. r = Inl e \<and> vt_create V (drv_name d) (drv_args d) w = (Inl e, w'))
    \<or> c \<notin> users d \<and> \<not> locked d \<and> drv d = None \<and> r = Inr () \<and>
        (\<exists>x. vt_create V (drv_name d) (drv_args d) w = (Inr x, w') \<and>
           d' = d\<lparr>drv := Some x, users := insert c (users d)\<rparr>)"
  using assms
  by (auto simp: dev_use_def split: if_splits option.splits prod.splits sum.splits)

lemma dev_use_inv [inv_pres]:
  "dev_inv d \<Longrightarrow> dev_use V c (d, w) = (r, (d', w')) \<Longrightarrow> dev_inv d'"
  by (drule dev_use_cases) (elim disjE conjE exE; simp add: dev_inv_def)

lemma dev_use_conf:
  "dev_use V c (d, w) = (r, (d', w')) \<Longrightarrow>
     same_conf d d' \<and> clients d' \<subseteq> insert c (clients d) \<and> log_bufs d' = log_bufs d"
  by (drule dev_use_cases) (auto simp: same_conf_def clients_def)

lemma dev_use_user:
  "dev_use V c (d, w) = (Inr x, (d', w')) \<Longrightarrow> c \<in> users d'"
  by (drule dev_use_cases) auto

lemma dev_use_blocked:
  "locked d \<Longrightarrow> c \<notin> users d \<Longrightarrow>
     dev_use V c (d, w) = (Inl (Err ''device is locked''), (d, w))"
  by (simp add: dev_use_def)

lemma dev_release_inv [inv_pres]: "dev_inv d \<Longrightarrow> dev_inv (dev_release c d)"
  by (auto simp: dev_inv_def dev_release_def Let_def)

lemma dev_release_conf:
  "same_conf d (dev_release c d) \<and> clients (dev_release c d) = clients d - {c}"
  by (auto simp: same_conf_def clients_def dev_release_def Let_def set_sm_erase sm_has_def
      image_iff)

lemma dev_release_drv [simp]: "drv (dev_release c d) = drv d"
  by (simp add: dev_release_def Let_def)

lemma dev_release_other:
  "c \<notin> users d \<Longrightarrow> users (dev_release c d) = users d \<and> locked (dev_release c d) = locked d"
  by (simp add: dev_release_def Let_def)

lemma dev_close_inv [inv_pres]: "dev_inv (fst (dev_close V (d, w)))"
  by (simp add: dev_close_def dev_inv_def)

lemma dev_close_conf:
  "same_conf d (fst (dev_close V (d, w))) \<and> clients (fst (dev_close V (d, w))) = {}"
  by (simp add: dev_close_def same_conf_def clients_def)

lemma dev_lock_cases:
  assumes "dev_lock V c (d, w) = (r, (d', w'))"
  obtains (fail) e where "c \<notin> users d" "dev_use V c (d, w) = (Inl e, (d', w'))" "r = Inl e"
  | (busy) d1 where "if c \<in> users d then d1 = d \<and> w' = w
        else dev_use V c (d, w) = (Inr (), (d1, w'))"
      "card (users d1) \<noteq> 1" "d' = d1" "r = Inl (Err ''Can't lock the device: it is in use'')"
  | (acquired) d1 where "if c \<in> users d then d1 = d \<and> w' = w
        else dev_use V c (d, w) = (Inr (), (d1, w'))"
      "card (users d1) = 1" "d' = d1\<lparr>locked := True\<rparr>" "r = Inr ()"
  using assms
  by (auto simp: dev_lock_def bind_act_def split: if_splits prod.splits sum.splits)

lemma dev_lock_inv [inv_pres]:
  assumes "dev_inv d" and "dev_lock V c (d, w) = (r, (d', w'))"
  shows "dev_inv d'"
  using assms(2)
proof (cases rule: dev_lock_cases)
  case (fail e)
  show ?thesis by (rule dev_use_inv [OF assms(1) fail(2)])
next
  case (busy d1)
  with assms(1) dev_use_inv show ?thesis by (metis (full_types))
next
  case (acquired d1)
  have "dev_inv d1" using assms(1) acquired(1) dev_use_inv by (metis (full_types))
  with acquired(2,3) show ?thesis
    by (auto simp: dev_inv_def card_1_singleton_iff)
qed

lemma dev_lock_conf:
  assumes "dev_lock V c (d, w) = (r, (d', w'))"
  shows "same_conf d d' \<and> clients d' \<subseteq> insert c (clients d)"
  using assms
proof (cases rule: dev_lock_cases)
  case (fail e)
  show ?thesis using dev_use_conf [OF fail(2)] by simp
next
  case (busy d1)
  then show ?thesis using dev_use_conf
    by (metis same_conf_refl subset_insertI)
next
  case (acquired d1)
  then have "same_conf d d1 \<and> clients d1 \<subseteq> insert c (clients d)"
    using dev_use_conf by (metis same_conf_refl subset_insertI)
  with acquired(3) show ?thesis by (simp add: same_conf_def clients_def)
qed

lemma dev_lock_blocked:
  "locked d \<Longrightarrow> c \<notin> users d \<Longrightarrow>
     dev_lock V c (d, w) = (Inl (Err ''device is locked''), (d, w))"
  by (simp add: dev_lock_def dev_use_blocked)

lemma dev_unlock_inv [inv_pres]:
  "dev_inv d \<Longrightarrow> dev_unlock c d = (r, d') \<Longrightarrow> dev_inv d'"
  by (auto simp: dev_unlock_def dev_inv_def split: if_splits)

lemma dev_unlock_conf:
  "dev_unlock c d = (r, d') \<Longrightarrow> same_conf d d' \<and> clients d' = clients d \<and> drv d' = drv d"
  by (auto simp: dev_unlock_def same_conf_def clients_def split: if_splits)

section \<open>Log buffers keep the last messages\<close>

lemma trim_front_drop: "trim_front n q = drop (length q - n) q"
proof (induction n q rule: trim_front.induct)
  case (1 n q)
  show ?case
  proof (cases "n < length q")
    case True
    then have "length q - n = Suc (length (tl q) - n)" by auto
    then have "drop (length q - n) q = drop (length (tl q) - n) (tl q)"
      by (simp add: drop_Suc)
    with True 1 show ?thesis by (simp add: trim_front.simps [of n q])
  next
    case False
    then show ?thesis by (simp add: trim_front.simps [of n q])
  qed
qed

lemma length_trim_front [simp]: "length (trim_front n q) = min n (length q)"
  by (simp add: trim_front_drop)

lemma trim_front_snoc:
  "trim_front n (trim_front n q @ [x]) = trim_front n (q @ [x])"
proof -
  have "n \<le> length q \<Longrightarrow> Suc (length q) - n = Suc (length q - n)" by simp
  then show ?thesis by (cases "n \<le> length q") (simp_all add: trim_front_drop)
qed

lemma drain_concat: "drain q r = (r @ concat q, [])"
  by (induction q arbitrary: r) auto

lemma log_message_find:
  "sm_find (log_bufs (log_message p m d)) c =
     map_option (\<lambda>b. trim_front (max_log_size d) (b @ [p @ m @ nl])) (sm_find (log_bufs d) c)"
  by (simp add: log_message_def Let_def)

lemma log_message_frame [simp]:
  "users (log_message p m d) = users d" "locked (log_message p m d) = locked d"
  "drv (log_message p m d) = drv d" "dev_name (log_message p m d) = dev_name d"
  "drv_name (log_message p m d) = drv_name d" "drv_args (log_message p m d) = drv_args d"
  "max_log_size (log_message p m d) = max_log_size d"
  by (simp_all add: log_message_def Let_def)

lemma log_message_keys [simp]:
  "fst ` set (log_bufs (log_message p m d)) = fst ` set (log_bufs d)"
  by (force simp: log_message_def Let_def set_sm_each)

lemma log_message_ok: "smap_ok (log_bufs (log_message p m d)) = smap_ok (log_bufs d)"
  by (simp add: log_message_def Let_def)

lemma log_message_inv [inv_pres]: "dev_inv d \<Longrightarrow> dev_inv (log_message p m d)"
  by (auto simp: dev_inv_def log_message_ok logs_ok_def log_message_find)

lemma dev_log_start_inv [inv_pres]: "dev_inv d \<Longrightarrow> dev_inv (dev_log_start c d)"
  by (simp add: dev_inv_def dev_log_start_def)

lemma dev_log_finish_inv [inv_pres]: "dev_inv d \<Longrightarrow> dev_inv (dev_log_finish c d)"
  by (simp add: dev_inv_def dev_log_finish_def)

lemma dev_log_get_inv [inv_pres]:
  "dev_inv d \<Longrightarrow> dev_log_get c d = (r, d') \<Longrightarrow> dev_inv d'"
  by (auto simp: dev_inv_def dev_log_get_def drain_concat split: option.splits)

lemma dev_log_start_conf:
  "same_conf d (dev_log_start c d) \<and> clients (dev_log_start c d) \<subseteq> insert c (clients d)"
  by (auto simp: same_conf_def clients_def dev_log_start_def sm_put_keys)

lemma dev_log_finish_conf:
  "same_conf d (dev_log_finish c d) \<and> clients (dev_log_finish c d) \<subseteq> clients d"
  by (auto simp: same_conf_def clients_def dev_log_finish_def set_sm_erase)

lemma dev_log_get_conf:
  assumes "dev_log_get c d = (r, d')"
  shows "same_conf d d' \<and> clients d' \<subseteq> insert c (clients d) \<and> drv d' = drv d \<and>
     users d' = users d \<and> locked d' = locked d"
proof (cases "sm_find (log_bufs d) c")
  case None
  with assms show ?thesis by (auto simp: dev_log_get_def)
next
  case (Some q)
  with assms have "d' = d\<lparr>log_bufs := sm_put c [] (log_bufs d)\<rparr>"
    by (simp add: dev_log_get_def drain_concat)
  then show ?thesis by (auto simp: same_conf_def clients_def sm_put_keys)
qed


section \<open>Requests to a driver\<close>

lemma drv_call_cases:
  assumes "drv_call V m (d, w) = (r, (d', w'))"
  shows "drv d = None \<and> r = Inl UB \<and> d' = d \<and> w' = w
    \<or> (\<exists>x x'. drv d = Some x \<and> vt_ask V m (x, w) = (r, (x', w')) \<and> d' = d\<lparr>drv := Some x'\<rparr>)"
  using assms by (auto simp: drv_call_def split: option.splits prod.splits)

lemma drv_call_frame:
  "drv_call V m (d, w) = (r, (d', w')) \<Longrightarrow>
     users d' = users d \<and> locked d' = locked d \<and> log_bufs d' = log_bufs d \<and>
     same_conf d d' \<and> (drv d' = None) = (drv d = None)"
  by (drule drv_call_cases) (auto simp: same_conf_def)

text \<open>The lines a request adds to every log buffer.\<close>

definition transcript :: "string result \<Rightarrow> string \<Rightarrow> string list" where
  "transcript r msg = (''>> '' @ msg @ nl) #
     (case r of Inr ret \<Rightarrow> [''<< '' @ ret @ nl]
      | Inl (Err e) \<Rightarrow> [''EE '' @ e @ nl]
      | Inl UB \<Rightarrow> [] | Inl Hang \<Rightarrow> [])"

lemma ask_logged_split:
  assumes "ask_logged V msg (d, w) = (r, (d', w'))"
  obtains (plain) "log_bufs d = []" "drv_call V msg (d, w) = (r, (d', w'))"
  | (logged) d1 where "log_bufs d \<noteq> []"
      "drv_call V msg (log_message ''>> '' msg d, w) = (r, (d1, w'))"
      "d' = (case r of Inr ret \<Rightarrow> log_message ''<< '' ret d1
              | Inl (Err e) \<Rightarrow> log_message ''EE '' e d1 | Inl _ \<Rightarrow> d1)"
  using assms
  by (auto simp: ask_logged_def split: if_splits prod.splits sum.splits exn.splits)

lemma ask_logged_frame:
  assumes "ask_logged V msg (d, w) = (r, (d', w'))"
  shows "users d' = users d \<and> locked d' = locked d \<and> same_conf d d' \<and>
     (drv d' = None) = (drv d = None) \<and>
     fst ` set (log_bufs d') = fst ` set (log_bufs d)"
  using assms
proof (cases rule: ask_logged_split)
  case plain
  then show ?thesis using drv_call_frame by metis
next
  case (logged d1)
  note * = drv_call_frame [OF logged(2)]
  from * logged(3) have "fst ` set (log_bufs d') = fst ` set (log_bufs d1)"
    by (simp split: sum.splits exn.splits)
  with * logged(3) show ?thesis
    by (simp add: same_conf_def split: sum.splits exn.splits)
qed

lemma ask_logged_inv [inv_pres]:
  assumes "dev_inv d" and "ask_logged V msg (d, w) = (r, (d', w'))"
  shows "dev_inv d'"
  using assms(2)
proof (cases rule: ask_logged_split)
  case plain
  with assms(1) show ?thesis
    using drv_call_frame [OF plain(2)] by (simp add: dev_inv_def same_conf_def)
next
  case (logged d1)
  have "dev_inv (log_message ''>> '' msg d)" using assms(1) by (rule log_message_inv)
  then have "dev_inv d1"
    using drv_call_frame [OF logged(2)] by (simp add: dev_inv_def same_conf_def)
  with logged(3) show ?thesis by (auto intro: log_message_inv split: sum.splits exn.splits)
qed

lemma ask_logged_buffer:
  assumes "ask_logged V msg (d, w) = (r, (d', w'))"
  shows "sm_find (log_bufs d') c =
     map_option (\<lambda>b. trim_front (max_log_size d) (b @ transcript r msg)) (sm_find (log_bufs d) c)"
  using assms
proof (cases rule: ask_logged_split)
  case plain
  with drv_call_frame [OF plain(2)] show ?thesis by simp
next
  case (logged d1)
  let ?n = "max_log_size d"
  have max: "max_log_size d1 = ?n"
    and b1: "sm_find (log_bufs d1) c =
       map_option (\<lambda>b. trim_front ?n (b @ [''>> '' @ msg @ nl])) (sm_find (log_bufs d) c)"
    using drv_call_frame [OF logged(2)] log_message_find [of "''>> ''" msg d c]
    by (simp_all add: same_conf_def)
  show ?thesis
    using logged(3) b1
    by (auto simp: transcript_def log_message_find max option.map_comp comp_def
        trim_front_snoc split: sum.splits exn.splits)
qed

lemma dev_ask_split:
  assumes "dev_ask V c msg (d, w) = (r, (d', w'))"
  obtains (refused) e where "c \<notin> users d" "dev_use V c (d, w) = (Inl e, (d', w'))" "r = Inl e"
  | (asked) d1 w1 where "if c \<in> users d then d1 = d \<and> w1 = w
        else dev_use V c (d, w) = (Inr (), (d1, w1))"
      "ask_logged V msg (d1, w1) = (r, (d', w'))"
  using assms by (auto simp: dev_ask_def bind_act_def split: if_splits prod.splits sum.splits)

lemma dev_ask_inv [inv_pres]:
  assumes "dev_inv d" and "dev_ask V c msg (d, w) = (r, (d', w'))"
  shows "dev_inv d'"
  using assms(2)
proof (cases rule: dev_ask_split)
  case (refused e)
  show ?thesis by (rule dev_use_inv [OF assms(1) refused(2)])
next
  case (asked d1 w1)
  then have "dev_inv d1" using assms(1) dev_use_inv by (metis (full_types))
  with asked(2) show ?thesis by (rule ask_logged_inv [rotated])
qed

lemma dev_ask_conf:
  assumes "dev_ask V c msg (d, w) = (r, (d', w'))"
  shows "same_conf d d' \<and> clients d' \<subseteq> insert c (clients d)"
  using assms
proof (cases rule: dev_ask_split)
  case (refused e)
  show ?thesis using dev_use_conf [OF refused(2)] by simp
next
  case (asked d1 w1)
  have "same_conf d d1 \<and> clients d1 \<subseteq> insert c (clients d)"
    using asked(1) dev_use_conf by (metis same_conf_refl subset_insertI)
  with ask_logged_frame [OF asked(2)] show ?thesis by (auto simp: same_conf_def clients_def)
qed

lemma dev_ask_blocked:
  "locked d \<Longrightarrow> c \<notin> users d \<Longrightarrow>
     dev_ask V c msg (d, w) = (Inl (Err ''device is locked''), (d, w))"
  by (simp add: dev_ask_def dev_use_blocked)

text \<open>A driver whose functions have a meaning on every input.\<close>

definition safe_vtable :: "('d, 'w) vtable \<Rightarrow> bool" where
  "safe_vtable V \<longleftrightarrow> (\<forall>n a w. fst (vt_create V n a w) \<noteq> Inl UB) \<and>
     (\<forall>m s. fst (vt_ask V m s) \<noteq> Inl UB)"

lemma dev_use_no_UB: "safe_vtable V \<Longrightarrow> dev_use V c (d, w) = (r, s') \<Longrightarrow> r \<noteq> Inl UB"
proof
  assume V: "safe_vtable V" and use: "dev_use V c (d, w) = (r, s')" and "r = Inl UB"
  obtain d' w' where "s' = (d', w')" by fastforce
  with use dev_use_cases [of V c d w r d' w'] \<open>r = Inl UB\<close>
  have "fst (vt_create V (drv_name d) (drv_args d) w) = Inl UB" by auto
  with V show False by (simp add: safe_vtable_def)
qed

lemma ask_logged_no_UB:
  assumes "safe_vtable V" and "drv d \<noteq> None"
    and "ask_logged V msg (d, w) = (r, (d', w'))"
  shows "r \<noteq> Inl UB"
  using assms(3)
proof (cases rule: ask_logged_split)
  case plain
  with assms(1,2) drv_call_cases [OF plain(2)] show ?thesis
    by (metis fst_conv option.distinct(1) safe_vtable_def)
next
  case (logged d1)
  with assms(1,2) drv_call_cases [OF logged(2)] show ?thesis
    by (metis fst_conv log_message_frame(3) safe_vtable_def)
qed

lemma dev_ask_no_UB:
  assumes "safe_vtable V" and "dev_inv d" and "dev_ask V c msg (d, w) = (r, (d', w'))"
  shows "r \<noteq> Inl UB"
  using assms(3)
proof (cases rule: dev_ask_split)
  case (refused e)
  show ?thesis using dev_use_no_UB [OF assms(1) refused(2)] refused(3) by blast
next
  case (asked d1 w1)
  have "c \<in> users d1 \<and> dev_inv d1"
    using asked(1) assms(2) dev_use_inv dev_use_user by (metis (full_types))
  then have "drv d1 \<noteq> None" by (auto simp: dev_inv_def)
  then show ?thesis using ask_logged_no_UB [OF assms(1) _ asked(2)] by blast
qed

end
