(* ===== verification/Device_Ops.thy ===== *)
theory Device_Ops
  imports Device
begin

text \<open>
  What the device manager relies on when it runs an operation of a device for a connection
  (the locales \<open>device_op\<close> and \<open>guarded_op\<close>, interpreted for each operation), and the
  abstract specification of a device: a set of members, an optional owner and whether the
  device is open. Every operation of \<open>Device\<close> is shown to refine its counterpart there.
\<close>

section \<open>The interface of a device operation\<close>

locale device_op =
  fixes f :: "conn \<Rightarrow> (('d, 'w) dst, 'r) act"
  assumes op_inv: "dev_inv d \<Longrightarrow> f c (d, w) = (r, (d', w')) \<Longrightarrow> dev_inv d'"
    and op_conf: "f c (d, w) = (r, (d', w')) \<Longrightarrow>
       same_conf d d' \<and> clients d' \<subseteq> insert c (clients d)"
begin

primrec run :: "conn list \<Rightarrow> ('d, 'w) dst \<Rightarrow> ('d, 'w) dst" where
  "run [] s = s"
| "run (c # cs) s = run cs (snd (f c s))"

lemma run_inv: "dev_inv (fst s) \<Longrightarrow> dev_inv (fst (run cs s))"
proof (induction cs arbitrary: s)
  case (Cons c cs)
  obtain d w where s: "s = (d, w)" by fastforce
  obtain r d' w' where f: "f c (d, w) = (r, (d', w'))" by (metis prod.exhaust)
  with Cons.prems s have "dev_inv d'" by (auto intro: op_inv)
  with Cons.IH [of "(d', w')"] s f show ?case by simp
qed simp

lemma run_clients: "clients (fst (run cs s)) \<subseteq> set cs \<union> clients (fst s)"
proof (induction cs arbitrary: s)
  case (Cons c cs)
  obtain d w where s: "s = (d, w)" by fastforce
  obtain r d' w' where f: "f c (d, w) = (r, (d', w'))" by (metis prod.exhaust)
  from op_conf [OF f] Cons [of "(d', w')"] s f show ?case by auto
qed simp

end

text \<open>An operation that leaves a device locked by somebody else alone.\<close>

locale guarded_op = device_op +
  assumes op_guard: "dev_inv d \<Longrightarrow> locked d \<Longrightarrow> c \<notin> users d \<Longrightarrow> f c (d, w) = (r, (d', w')) \<Longrightarrow>
     locked d' \<and> users d' = users d \<and> drv d' = drv d \<and> w' = w"
begin

lemma run_guard:
  "dev_inv (fst s) \<Longrightarrow> locked (fst s) \<Longrightarrow> set cs \<inter> users (fst s) = {} \<Longrightarrow>
     locked (fst (run cs s)) \<and> users (fst (run cs s)) = users (fst s) \<and>
     drv (fst (run cs s)) = drv (fst s) \<and> snd (run cs s) = snd s"
proof (induction cs arbitrary: s)
  case (Cons c cs)
  obtain d w where s: "s = (d, w)" by fastforce
  obtain r d' w' where f: "f c (d, w) = (r, (d', w'))" by (metis prod.exhaust)
  with Cons.prems s have g: "locked d' \<and> users d' = users d \<and> drv d' = drv d \<and> w' = w"
    by (intro op_guard [of d c w r d' w']) auto
  have "dev_inv d'" using op_inv [OF _ f] Cons.prems s by simp
  with Cons.IH [of "(d', w')"] Cons.prems g s f show ?case by simp
qed simp

end

section \<open>The operations implement it\<close>

text \<open>The manager answers an empty string for an operation without a result.\<close>

definition void :: "('s, unit) act \<Rightarrow> ('s, string) act" where
  "void f = bind_act f (\<lambda>_. ok [])"

definition quiet :: "('d device \<Rightarrow> 'd device) \<Rightarrow> (('d, 'w) dst, string) act" where
  "quiet g = (\<lambda>(d, w). (Inr [], (g d, w)))"

definition local :: "('d device, 'r) act \<Rightarrow> (('d, 'w) dst, 'r) act" where
  "local g = (\<lambda>(d, w). case g d of (r, d') \<Rightarrow> (r, (d', w)))"

lemma void_state: "void f s = (r, s') \<Longrightarrow> \<exists>q. f s = (q, s')"
  by (cases "f s"; cases "fst (f s)") (auto simp: void_def bind_act_def)

text \<open>Dropping the result of an operation keeps its contract.\<close>

lemma void_guarded:
  assumes "guarded_op f"
  shows "guarded_op (\<lambda>c. void (f c))"
proof unfold_locales
  fix d c w r d' w'
  assume *: "void (f c) (d, w) = (r, (d', w'))"
  from void_state [OF *] obtain q where q: "f c (d, w) = (q, (d', w'))" ..
  show "dev_inv d \<Longrightarrow> dev_inv d'"
    by (rule device_op.op_inv [OF guarded_op.axioms(1) [OF assms] _ q])
  show "same_conf d d' \<and> clients d' \<subseteq> insert c (clients d)"
    by (rule device_op.op_conf [OF guarded_op.axioms(1) [OF assms] q])
  show "dev_inv d \<Longrightarrow> locked d \<Longrightarrow> c \<notin> users d \<Longrightarrow>
      locked d' \<and> users d' = users d \<and> drv d' = drv d \<and> w' = w"
    by (rule guarded_op.op_guard [OF assms _ _ _ q])
qed

interpretation use_op: guarded_op "dev_use V" for V
  by unfold_locales (simp_all add: dev_use_inv dev_use_conf dev_use_blocked)

interpretation lock_op: guarded_op "dev_lock V" for V
  by unfold_locales (simp_all add: dev_lock_inv dev_lock_conf dev_lock_blocked)

interpretation ask_op: guarded_op "\<lambda>c. dev_ask V c msg" for V msg
  by unfold_locales (simp_all add: dev_ask_inv dev_ask_conf dev_ask_blocked)

interpretation release_op: guarded_op "\<lambda>c. quiet (dev_release c)"
  by unfold_locales
    (auto simp: quiet_def dev_release_inv dev_release_conf dev_release_other)

interpretation unlock_op: guarded_op "\<lambda>c. local (dev_unlock c)"
proof unfold_locales
  fix d :: "'d device" and c w r d' and w' :: 'w
  assume "local (dev_unlock c) (d, w) = (r, (d', w'))"
  then have *: "dev_unlock c d = (r, d')" and w: "w' = w"
    by (simp_all add: local_def split: prod.splits)
  show "dev_inv d \<Longrightarrow> dev_inv d'" by (rule dev_unlock_inv [OF _ *])
  show "same_conf d d' \<and> clients d' \<subseteq> insert c (clients d)"
    using dev_unlock_conf [OF *] by auto
  show "dev_inv d \<Longrightarrow> locked d \<Longrightarrow> c \<notin> users d \<Longrightarrow>
      locked d' \<and> users d' = users d \<and> drv d' = drv d \<and> w' = w"
    using * w by (simp add: dev_unlock_def)
qed

interpretation log_start_op: guarded_op "\<lambda>c. quiet (dev_log_start c)"
  by unfold_locales
    (simp_all add: quiet_def, use dev_log_start_inv dev_log_start_conf in blast,
     use dev_log_start_conf in blast, auto simp: dev_log_start_def)

interpretation log_finish_op: guarded_op "\<lambda>c. quiet (dev_log_finish c)"
  by unfold_locales
    (simp_all add: quiet_def, use dev_log_finish_inv in blast,
     use dev_log_finish_conf in blast, auto simp: dev_log_finish_def)

interpretation log_get_op: guarded_op "\<lambda>c. local (dev_log_get c)"
proof unfold_locales
  fix d :: "'d device" and c w r d' and w' :: 'w
  assume "local (dev_log_get c) (d, w) = (r, (d', w'))"
  then have *: "dev_log_get c d = (r, d')" and w: "w' = w"
    by (simp_all add: local_def split: prod.splits)
  note conf = dev_log_get_conf [OF *]
  show "dev_inv d \<Longrightarrow> dev_inv d'" by (rule dev_log_get_inv [OF _ *])
  show "same_conf d d' \<and> clients d' \<subseteq> insert c (clients d)" using conf by blast
  show "dev_inv d \<Longrightarrow> locked d \<Longrightarrow> c \<notin> users d \<Longrightarrow>
      locked d' \<and> users d' = users d \<and> drv d' = drv d \<and> w' = w"
    using conf w by simp
qed

text \<open>Any connection may close a device, so \<open>close\<close> is an operation, but not a guarded one.\<close>

interpretation close_op: device_op "\<lambda>c s. (Inr [], dev_close V s)" for V
proof unfold_locales
  fix d :: "'a device" and c :: conn and w r d' w'
  assume "(Inr [], dev_close V (d, w)) = (r, (d', w'))"
  then have *: "d' = fst (dev_close V (d, w))" by simp
  show "dev_inv d \<Longrightarrow> dev_inv d'" by (simp add: * dev_close_inv)
  show "same_conf d d' \<and> clients d' \<subseteq> insert c (clients d)"
    using dev_close_conf by (simp add: * dev_close_conf)
qed


section \<open>The abstract device\<close>

text \<open>
  What the header promises: a connection becomes a member when it uses the device; a locked
  device has an owner, its only member, and admits nobody else; the device is open from its
  first use until it is closed.
\<close>

record session =
  members :: "conn set"
  owner :: "conn option"
  opened :: bool

definition abs_device :: "'d device \<Rightarrow> session" where
  "abs_device d =
     \<lparr>members = users d, owner = (if locked d then Some (the_elem (users d)) else None),
      opened = (drv d \<noteq> None)\<rparr>"

datatype dev_op = Use | Release | Lock | Unlock | Close | LogStart | LogFinish | LogGet
  | Ask string | Info

definition dev_exec :: "('d, 'w) vtable \<Rightarrow> dev_op \<Rightarrow> conn \<Rightarrow> (('d, 'w) dst, string) act" where
  "dev_exec V a c = (case a of
      Use \<Rightarrow> void (dev_use V c)
    | Release \<Rightarrow> quiet (dev_release c)
    | Lock \<Rightarrow> void (dev_lock V c)
    | Unlock \<Rightarrow> local (void (dev_unlock c))
    | Close \<Rightarrow> (\<lambda>s. (Inr [], dev_close V s))
    | LogStart \<Rightarrow> quiet (dev_log_start c)
    | LogFinish \<Rightarrow> quiet (dev_log_finish c)
    | LogGet \<Rightarrow> local (dev_log_get c)
    | Ask msg \<Rightarrow> dev_ask V c msg
    | Info \<Rightarrow> (\<lambda>(d, w). (Inr (dev_print c d), (d, w))))"

text \<open>
  A step of the abstract device: is the request granted, and the next state. \<open>can\<close> says
  whether the driver can be opened, should that be needed.
\<close>

definition enter :: "conn \<Rightarrow> bool \<Rightarrow> session \<Rightarrow> bool \<times> session" where
  "enter c can s =
     (if c \<in> members s then (True, s)
      else if owner s \<noteq> None then (False, s)
      else if opened s \<or> can then (True, s\<lparr>members := insert c (members s), opened := True\<rparr>)
      else (False, s))"

definition session_step :: "dev_op \<Rightarrow> conn \<Rightarrow> bool \<Rightarrow> session \<Rightarrow> bool \<times> session" where
  "session_step a c can s = (case a of
      Use \<Rightarrow> enter c can s
    | Ask msg \<Rightarrow> enter c can s
    | Lock \<Rightarrow> (case enter c can s of (g, s') \<Rightarrow>
        if g \<and> members s' = {c} then (True, s'\<lparr>owner := Some c\<rparr>) else (False, s'))
    | Unlock \<Rightarrow> (case owner s of None \<Rightarrow> (True, s)
        | Some q \<Rightarrow> if q = c then (True, s\<lparr>owner := None\<rparr>) else (False, s))
    | Release \<Rightarrow> (True, if c \<in> members s
        then s\<lparr>members := members s - {c}, owner := None\<rparr> else s)
    | Close \<Rightarrow> (True, s\<lparr>members := {}, owner := None, opened := False\<rparr>)
    | _ \<Rightarrow> (True, s))"

definition can_open :: "('d, 'w) vtable \<Rightarrow> ('d, 'w) dst \<Rightarrow> bool" where
  "can_open V s \<longleftrightarrow> \<not> isl (fst (vt_create V (drv_name (fst s)) (drv_args (fst s)) (snd s)))"

lemma dev_use_enter:
  assumes "dev_inv d" and "dev_use V c (d, w) = (r, (d', w'))"
  shows "enter c (can_open V (d, w)) (abs_device d) = (\<not> isl r, abs_device d')"
  using dev_use_cases [OF assms(2)] assms(1)
  by (elim disjE conjE exE) (auto simp: enter_def abs_device_def can_open_def dev_inv_def)

lemma dev_lock_session:
  assumes "dev_inv d" and "dev_lock V c (d, w) = (r, (d', w'))"
  shows "session_step Lock c (can_open V (d, w)) (abs_device d) = (\<not> isl r, abs_device d')"
  using assms(2)
proof (cases rule: dev_lock_cases)
  case (fail e)
  from dev_use_enter [OF assms(1) fail(2)] fail(3) show ?thesis
    by (simp add: session_step_def)
next
  case (busy d1)
  have *: "enter c (can_open V (d, w)) (abs_device d) = (True, abs_device d1)"
  proof (cases "c \<in> users d")
    case True
    with busy(1) show ?thesis by (simp add: enter_def abs_device_def)
  next
    case False
    with busy(1) dev_use_enter [OF assms(1)] show ?thesis by fastforce
  qed
  from busy(2) have "users d1 \<noteq> {c}" by auto
  with * busy(3,4) show ?thesis by (simp add: session_step_def abs_device_def)
next
  case (acquired d1)
  have mem: "c \<in> users d1" using acquired(1) dev_use_user by (metis (full_types))
  have *: "enter c (can_open V (d, w)) (abs_device d) = (True, abs_device d1)"
  proof (cases "c \<in> users d")
    case True
    with acquired(1) show ?thesis by (simp add: enter_def abs_device_def)
  next
    case False
    with acquired(1) dev_use_enter [OF assms(1)] show ?thesis by fastforce
  qed
  from acquired(2) mem have "users d1 = {c}" by (auto simp: card_1_singleton_iff)
  with * acquired(3,4) show ?thesis by (simp add: session_step_def abs_device_def)
qed

lemma dev_ask_session:
  assumes "dev_inv d" and "dev_ask V c msg (d, w) = (r, (d', w'))"
  shows "\<exists>g. enter c (can_open V (d, w)) (abs_device d) = (g, abs_device d') \<and> (\<not> g \<longrightarrow> isl r)"
  using assms(2)
proof (cases rule: dev_ask_split)
  case (refused e)
  from dev_use_enter [OF assms(1) refused(2)] refused(3) show ?thesis by auto
next
  case (asked d1 w1)
  have *: "enter c (can_open V (d, w)) (abs_device d) = (True, abs_device d1)"
  proof (cases "c \<in> users d")
    case True
    with asked(1) show ?thesis by (simp add: enter_def abs_device_def)
  next
    case False
    with asked(1) dev_use_enter [OF assms(1)] show ?thesis by fastforce
  qed
  have "abs_device d' = abs_device d1"
    using ask_logged_frame [OF asked(2)] by (auto simp: abs_device_def)
  with * show ?thesis by auto
qed

lemma void_isl: "void f s = (r, s') \<Longrightarrow> \<exists>q. f s = (q, s') \<and> isl q = isl r"
  by (cases "f s"; cases "fst (f s)") (auto simp: void_def bind_act_def)

lemma dev_unlock_session:
  assumes "dev_inv d" and "dev_unlock c d = (r, d')"
  shows "session_step Unlock c can (abs_device d) = (\<not> isl r, abs_device d')"
proof (cases "locked d")
  case False
  with assms(2) show ?thesis by (auto simp: session_step_def abs_device_def dev_unlock_def)
next
  case True
  with assms(1) obtain q where "users d = {q}" by (auto simp: dev_inv_def)
  note q = \<open>users d = {q}\<close> True
  show ?thesis
  proof (cases "c = q")
    case True
    with assms(2) q have "r = Inr ()" and "d' = d\<lparr>locked := False\<rparr>"
      by (simp_all add: dev_unlock_def)
    with q True show ?thesis by (simp add: session_step_def abs_device_def)
  next
    case False
    with assms(2) q have "r = Inl (Err ''device is locked by another connection'')" and "d' = d"
      by (simp_all add: dev_unlock_def)
    with q False show ?thesis by (simp add: session_step_def abs_device_def)
  qed
qed

lemma dev_release_session:
  "session_step Release c can (abs_device d) = (True, abs_device (dev_release c d))"
  by (simp add: session_step_def abs_device_def dev_release_def Let_def)

lemma log_ops_session:
  "abs_device (dev_log_start c d) = abs_device d"
  "abs_device (dev_log_finish c d) = abs_device d"
  "dev_log_get c d = (r, d') \<Longrightarrow> abs_device d' = abs_device d"
  by (simp_all add: abs_device_def dev_log_start_def dev_log_finish_def)
    (drule dev_log_get_conf, simp)

text \<open>The actions that do not concern the session leave it alone.\<close>

lemma dev_exec_aside:
  assumes "a \<in> {LogStart, LogFinish, LogGet, Info}" and "dev_exec V a c (d, w) = (r, (d', w'))"
  shows "abs_device d' = abs_device d"
proof -
  from assms(1) consider "a = LogStart" | "a = LogFinish" | "a = LogGet" | "a = Info" by blast
  then show ?thesis
  proof cases
    assume "a = LogGet"
    with assms(2) have "dev_log_get c d = (r, d')"
      by (simp add: dev_exec_def local_def split: prod.splits)
    then show ?thesis by (simp add: log_ops_session)
  qed (use assms(2) in \<open>auto simp: dev_exec_def quiet_def log_ops_session\<close>)
qed




section \<open>What a log buffer holds\<close>

text \<open>A sequence of requests of several connections, with the answers and errors they got.\<close>

fun run_asks :: "('d, 'w) vtable \<Rightarrow> (conn \<times> string) list \<Rightarrow> ('d, 'w) dst \<Rightarrow>
    string result list \<times> ('d, 'w) dst" where
  "run_asks V [] s = ([], s)"
| "run_asks V ((c, msg) # qs) s =
     (case dev_ask V c msg s of (r, s') \<Rightarrow>
        (case run_asks V qs s' of (rs, s'') \<Rightarrow> (r # rs, s'')))"

definition traffic :: "string result list \<Rightarrow> string list \<Rightarrow> string list" where
  "traffic rs msgs = concat (map (\<lambda>(r, m). transcript r m) (zip rs msgs))"

lemma traffic_Cons [simp]: "traffic (r # rs) (m # ms) = transcript r m @ traffic rs ms"
  by (simp add: traffic_def)

lemma traffic_Nil [simp]: "traffic [] ms = []" "traffic rs [] = []"
  by (simp_all add: traffic_def)

lemma trim_front_append: "trim_front n (trim_front n q @ xs) = trim_front n (q @ xs)"
proof (cases "n \<le> length q")
  case True
  then have "drop (length q - n) q @ xs = drop (length q - n) (q @ xs)" by simp
  moreover from True have "length q + length xs - n = length xs + (length q - n)" by simp
  ultimately show ?thesis using True by (simp add: trim_front_drop del: drop_append)
next
  case False
  then show ?thesis by (simp add: trim_front_drop)
qed

lemma dev_ask_member:
  "c \<in> users d \<Longrightarrow> dev_ask V c msg (d, w) = ask_logged V msg (d, w)"
  by (simp add: dev_ask_def bind_act_def)

lemma run_asks_buffer:
  assumes "run_asks V qs (d, w) = (rs, (d', w'))"
    and "fst ` set qs \<subseteq> users d" and "sm_find (log_bufs d) c = Some b"
  shows "sm_find (log_bufs d') c =
     Some (trim_front (max_log_size d) (b @ traffic rs (map snd qs))) \<or> qs = [] \<and> d' = d"
  using assms
proof (induction qs arbitrary: d w rs b)
  case Nil
  then show ?case by simp
next
  case (Cons q qs)
  obtain k msg where q: "q = (k, msg)" by fastforce
  with Cons.prems(1) obtain r d1 w1 rs1 where
    ask: "dev_ask V k msg (d, w) = (r, (d1, w1))" and
    rest: "run_asks V qs (d1, w1) = (rs1, (d', w'))" and rs: "rs = r # rs1"
    by (auto split: prod.splits)
  from ask q Cons.prems(2) have ask': "ask_logged V msg (d, w) = (r, (d1, w1))"
    by (simp add: dev_ask_member)
  let ?n = "max_log_size d" and ?b1 = "trim_front (max_log_size d) (b @ transcript r msg)"
  have b1: "sm_find (log_bufs d1) c = Some ?b1"
    using ask_logged_buffer [OF ask'] Cons.prems(3) by simp
  have fr: "users d1 = users d" "max_log_size d1 = ?n"
    using ask_logged_frame [OF ask'] by (simp_all add: same_conf_def)
  have "fst ` set qs \<subseteq> users d1" using Cons.prems(2) fr(1) by simp
  from Cons.IH [OF rest this b1] fr(2) b1 q rs show ?case
    by (auto simp: trim_front_append)
qed

text \<open>
  C7. A connection that starts logging and then collects its buffer gets, in order, the last
  1024 messages that the device exchanged in between, whichever connections sent them: each
  request with its answer or its error, and nothing else.
\<close>

theorem log_get_last_messages:
  assumes "run_asks V qs (dev_log_start c d, w) = (rs, (d', w'))"
    and "fst ` set qs \<subseteq> users d" and "dev_inv d" and "max_log_size d = 1024"
  shows "fst (dev_log_get c d') =
     Inr (concat (drop (length (traffic rs (map snd qs)) - 1024) (traffic rs (map snd qs))))"
proof -
  let ?d = "dev_log_start c d"
  have b: "sm_find (log_bufs ?d) c = Some []"
    using assms(3) by (simp add: dev_log_start_def dev_inv_def smap.look_put)
  have "fst ` set qs \<subseteq> users ?d" using assms(2) by (simp add: dev_log_start_def)
  from run_asks_buffer [OF assms(1) this b]
  have "sm_find (log_bufs d') c = Some (trim_front 1024 (traffic rs (map snd qs)))"
    using assms(1,4) b by (auto simp: dev_log_start_def trim_front_drop)
  then show ?thesis by (simp add: dev_log_get_def drain_concat trim_front_drop)
qed

theorem log_get_last_messages_witness:
  "fst (dev_log_get 2 (fst (snd (run_asks test_vtable [(1, ''Q1?''), (1, ''Q2?'')]
     (dev_log_start 2 ((new_device ''b'' ''test'' [])\<lparr>drv := Some [], users := {1}\<rparr>), 0))))) =
   Inr (''>> Q1?'' @ nl @ ''<< Q1?'' @ nl @ ''>> Q2?'' @ nl @ ''<< Q2?'' @ nl)"
proof -
  let ?d = "(new_device ''b'' ''test'' [])\<lparr>drv := Some [], users := {1}\<rparr> :: string device"
  let ?qs = "[(1, ''Q1?''), (1, ''Q2?'')] :: (conn \<times> string) list"
  obtain rs d' w' where run: "run_asks test_vtable ?qs (dev_log_start 2 ?d, 0) = (rs, (d', w'))"
    by (metis prod.exhaust)
  have rs: "rs = [Inr ''Q1?'', Inr ''Q2?'']"
    using run by (simp add: dev_ask_def bind_act_def ask_logged_def drv_call_def
        dev_log_start_def new_device_def test_vtable_def log_message_def sm_each_def Let_def)
  have "fst (dev_log_get 2 d') =
      Inr (concat (drop (length (traffic rs (map snd ?qs)) - 1024) (traffic rs (map snd ?qs))))"
    by (rule log_get_last_messages [OF run]) (simp_all add: new_device_def dev_inv_def)
  with run rs show ?thesis by (simp add: transcript_def)
qed

text \<open>
  While a device is locked, requests of other connections change neither its members nor
  its lock nor its driver, and nothing is sent to it, whatever sequence of requests to use,
  lock, talk to or query the device they make; only its owner, or a connection that closes
  it, ends the lock.
\<close>

theorem locked_device_excludes_others:
  assumes "dev_inv d" and "locked d" and "a \<noteq> Close" and "c \<notin> users d"
    and "dev_exec V a c (d, w) = (r, (d', w'))"
  shows "locked d' \<and> users d' = users d \<and> drv d' = drv d \<and> w' = w"
proof -
  note v = guarded_op.op_guard [OF void_guarded assms(1,2,4)]
  show ?thesis
  proof (cases a)
    case Use
    then show ?thesis using v [OF use_op.guarded_op_axioms] assms(5) by (simp add: dev_exec_def)
  next
    case Lock
    then show ?thesis using v [OF lock_op.guarded_op_axioms] assms(5) by (simp add: dev_exec_def)
  next
    case Release
    then show ?thesis using release_op.op_guard [OF assms(1,2,4)] assms(5)
      by (simp add: dev_exec_def)
  next
    case Unlock
    with assms show ?thesis
      by (auto simp: dev_exec_def local_def void_def bind_act_def dev_unlock_def)
  next
    case LogStart
    then show ?thesis using log_start_op.op_guard [OF assms(1,2,4)] assms(5)
      by (simp add: dev_exec_def)
  next
    case LogFinish
    then show ?thesis using log_finish_op.op_guard [OF assms(1,2,4)] assms(5)
      by (simp add: dev_exec_def)
  next
    case LogGet
    then show ?thesis using log_get_op.op_guard [OF assms(1,2,4)] assms(5)
      by (simp add: dev_exec_def)
  next
    case (Ask msg)
    then show ?thesis using ask_op.op_guard [OF assms(1,2,4)] assms(5) by (simp add: dev_exec_def)
  qed (use assms in \<open>auto simp: dev_exec_def\<close>)
qed

theorem locked_device_excludes_others_witness:
  "\<exists>r d' w'. dev_exec test_vtable (Ask ''x'') 2
      ((new_device ''b'' ''test'' [])\<lparr>drv := Some ''m'', users := {1}, locked := True\<rparr>, 7) =
      (r, (d', w')) \<and> locked d' \<and> users d' = {1} \<and> drv d' = Some ''m'' \<and> w' = 7"
proof -
  let ?d = "(new_device ''b'' ''test'' [])\<lparr>drv := Some ''m'', users := {1}, locked := True\<rparr>"
  obtain r d' w' where run: "dev_exec test_vtable (Ask ''x'') 2 (?d, 7) = (r, (d', w'))"
    by (metis prod.exhaust)
  have "locked d' \<and> users d' = users ?d \<and> drv d' = drv ?d \<and> w' = 7"
    by (rule locked_device_excludes_others [OF _ _ _ _ run])
      (simp_all add: new_device_def dev_inv_def)
  with run show ?thesis by simp
qed

end
