(* ===== verification/Dev_Manager.thy ===== *)
theory Dev_Manager
  imports Device_Ops
begin

text \<open>
  \<^verbatim>\<open>server/dev_manager.h\<close> and \<^verbatim>\<open>server/dev_manager.cpp\<close>: the device list, the names of the
  connections, the requests of the clients and the configuration file.

  Requests are run one at a time. What lies outside the repository is the argument \<open>E\<close> of
  the definitions: the drivers, the clock, and the configuration file as the sequence of
  results \<^verbatim>\<open>read_words\<close> (of the \<^verbatim>\<open>mapsoft2-libs\<close> submodule) gives for it. What is
  written to the server log is left to \<open>Server_Log\<close>.
\<close>

datatype conf_ev =
    Words nat "string list"   \<comment> \<open>the line number and the words of a line; none at the end\<close>
  | WErr nat string           \<comment> \<open>the line number and the message of an \<^verbatim>\<open>Err\<close>\<close>

record ('d, 'w) env =
  drivers :: "('d, 'w) vtable"
  conf_file :: "string \<Rightarrow> 'w \<Rightarrow> conf_ev list option"  \<comment> \<open>\<open>None\<close>: the file does not open\<close>
  clock :: "'w \<Rightarrow> nat \<times> nat"                           \<comment> \<open>seconds, microseconds\<close>

record ('d, 'w) manager =
  devices :: "(string, 'd device) smap"
  conn_names :: "(conn, string) smap"
  devfile :: string
  world :: 'w

section \<open>Splitting a URL\<close>

text \<open>The loop runs at most twice; \<open>k\<close> counts down what is left of \<^verbatim>\<open>for (i=0; i<2; ++i)\<close>.\<close>

primrec url_loop :: "nat \<Rightarrow> string \<Rightarrow> nat \<Rightarrow> nat \<Rightarrow> string list \<Rightarrow> string list" where
  "url_loop 0 url i p1 ret = ret[i := drop p1 url]"
| "url_loop (Suc k) url i p1 ret =
     (let p2 = str_find CHR ''/'' url p1 in
      if p2 = npos then ret[i := drop p1 url]
      else url_loop k url (i + 1) (p2 + 1) (ret[i := substr url p1 (p2 - p1)]))"

definition parse_url :: "string \<Rightarrow> string list" where
  "parse_url url =
     (let p1 = (if 0 < length url \<and> url ! 0 = CHR ''/'' then 1 else 0)
      in url_loop 2 url 0 p1 [[], [], []])"

section \<open>Connection names\<close>

definition default_name :: "conn \<Rightarrow> string" where
  "default_name c = ''#'' @ dec (unat c)"

definition set_conn_name :: "conn \<Rightarrow> string \<Rightarrow> (('d, 'w) manager, unit) act" where
  "set_conn_name c name = (\<lambda>dm.
     if 0 < length name \<and> name ! 0 = CHR ''#''
     then (Inl (Err ''name can not start with #''), dm)
     else let nm = (if name = [] then default_name c else name) in
       if list_ex (\<lambda>(k, v). k \<noteq> c \<and> v = nm) (conn_names dm)
       then (Inl (Err ''name belongs to another connection''), dm)
       else (Inr (), dm\<lparr>conn_names := sm_put c nm (conn_names dm)\<rparr>))"

definition conn_open :: "conn \<Rightarrow> (('d, 'w) manager, unit) act" where
  "conn_open c = set_conn_name c []"

definition release_each :: "conn \<Rightarrow> ('d, 'w) manager \<Rightarrow> ('d, 'w) manager" where
  "release_each c dm = dm\<lparr>devices := sm_each (dev_release c) (devices dm)\<rparr>"

definition conn_close :: "conn \<Rightarrow> ('d, 'w) manager \<Rightarrow> ('d, 'w) manager" where
  "conn_close c dm =
     (let dm1 = release_each c dm in dm1\<lparr>conn_names := sm_erase c (conn_names dm1)\<rparr>)"

section \<open>The configuration file\<close>

fun conf_opts :: "string list \<Rightarrow> opt \<Rightarrow> opt result" where
  "conf_opts (k # v # r) m =
     (if length k < 2 \<or> k ! 0 \<noteq> CHR ''-''
      then Inl (Err (''parameter name should be prefixed with \"-\" '' @
             ''and contain at least one character: '' @ k))
      else conf_opts r (opt_put (drop 1 k) v m))"
| "conf_opts _ m = Inr m"

text \<open>\<^verbatim>\<open>strcspn(dev.c_str(), " \n\t/\\") != dev.size()\<close>\<close>

definition bad_dev_name :: "string \<Rightarrow> bool" where
  "bad_dev_name dev \<longleftrightarrow>
     length (takeWhile (\<lambda>c. c \<notin> {CHR '' '', CHR 0x0A, CHR 0x09, CHR ''/'', CHR 0x5C}) (c_str dev))
       \<noteq> length dev"

text \<open>The message, with its quotes and backslashes.\<close>

definition bad_name_text :: string where
  "bad_name_text =
     (let q = [CHR 0x27]; b = [CHR 0x5C] in
      ''symbols '' @ q @ '' '' @ q @ '', '' @ q @ b @ ''n'' @ q @ '', '' @ q @ b @ ''t'' @ q @
      '', '' @ q @ ''/'' @ q @ '', and '' @ q @ b @ q @ '' are not allowed in device name: '')"

definition conf_line :: "string list \<Rightarrow> (string, 'd device) smap \<Rightarrow>
    (string, 'd device) smap result" where
  "conf_line vs ret =
     (if length vs < 2
      then Inl (Err ''expected: <device name> <driver name> [-<parameter> <value>]'')
      else let dev = vs ! 0; drn = vs ! 1 in
        if dev = [] then Inl (Err ''empty device name'')
        else if bad_dev_name dev
        then Inl (Err (bad_name_text @ dev))
        else if (length vs - 2) mod 2 \<noteq> 0
        then Inl (Err ''even-size list of [-<parameter> <value>] pairs expected'')
        else bind_res (conf_opts (drop 2 vs) []) (\<lambda>m.
          if sm_has ret dev then Inl (Err (''duplicated device name: '' @ dev))
          else Inr (sm_put dev (copy_device (new_device dev drn m)) ret)))"

fun conf_loop :: "conf_ev list \<Rightarrow> (string, 'd device) smap \<Rightarrow>
    (nat \<times> string) + (string, 'd device) smap" where
  "conf_loop [] ret = Inr ret"
| "conf_loop (WErr ln m # evs) ret = Inl (ln, m)"
| "conf_loop (Words ln vs # evs) ret =
     (if length vs < 1 then Inr ret
      else case conf_line vs ret of
        Inl e \<Rightarrow> Inl (ln, err_str e)
      | Inr ret' \<Rightarrow> conf_loop evs ret')"

text \<open>Dropping a device object drops its driver object.\<close>

definition drop_device :: "('d, 'w) vtable \<Rightarrow> 'w \<Rightarrow> 'd device \<Rightarrow> 'w" where
  "drop_device V w d = (case drv d of None \<Rightarrow> w | Some x \<Rightarrow> vt_destroy V x w)"

definition read_conf :: "('d, 'w) env \<Rightarrow> (('d, 'w) manager, unit) act" where
  "read_conf E = (\<lambda>dm.
     case conf_file E (devfile dm) (world dm) of
       None \<Rightarrow> (Inl (Err (''can't open configuration: '' @ devfile dm)), dm)
     | Some evs \<Rightarrow>
         (case conf_loop evs [] of
            Inl (ln, m) \<Rightarrow>
              (Inl (Err (''bad configuration file '' @ devfile dm @ '' at line '' @ dec ln @ '': '' @ m)), dm)
          | Inr ret \<Rightarrow>
              (Inr (), dm\<lparr>devices := sm_each copy_device ret,
                 world := foldl (drop_device (drivers E)) (world dm) (map snd (devices dm))\<rparr>)))"

text \<open>The constructor reports an error of the configuration to the log only.\<close>

definition new_manager :: "('d, 'w) env \<Rightarrow> string \<Rightarrow> 'w \<Rightarrow> ('d, 'w) manager" where
  "new_manager E file w =
     snd (read_conf E \<lparr>devices = [], conn_names = [], devfile = file, world = w\<rparr>)"

text \<open>The destructor closes every device.\<close>

definition delete_manager :: "('d, 'w) env \<Rightarrow> ('d, 'w) manager \<Rightarrow> 'w" where
  "delete_manager E dm = foldl (drop_device (drivers E)) (world dm) (map snd (devices dm))"

section \<open>Requests\<close>

text \<open>What every request about one device does first, and how it runs the operation.\<close>

definition with_device :: "string \<Rightarrow> string \<Rightarrow> (('d, 'w) dst, 'r) act \<Rightarrow>
    (('d, 'w) manager, 'r) act" where
  "with_device url arg f = (\<lambda>dm.
     if arg = [] then (Inl (Err (''device name expected: '' @ url)), dm)
     else case sm_find (devices dm) arg of
       None \<Rightarrow> (Inl (Err (''unknown device: '' @ arg)), dm)
     | Some d \<Rightarrow>
         (case f (d, world dm) of (r, (d', w')) \<Rightarrow>
            (r, dm\<lparr>devices := sm_put arg d' (devices dm), world := w'\<rparr>)))"

definition six_digits :: "nat \<Rightarrow> string" where
  "six_digits n = replicate (6 - length (dec n)) CHR ''0'' @ dec n"

text \<open>The requests that are not about one device.\<close>

definition run_get_time :: "('d, 'w) env \<Rightarrow> string \<Rightarrow> string \<Rightarrow> (('d, 'w) manager, string) act" where
  "run_get_time E url arg = (\<lambda>dm. if arg \<noteq> [] then (Inl (Err (''unexpected argument: '' @ url)), dm)
     else case clock E (world dm) of (s, us) \<Rightarrow> (Inr (dec s @ ''.'' @ six_digits us), dm))"

definition run_set_conn_name :: "conn \<Rightarrow> string \<Rightarrow> string \<Rightarrow> (('d, 'w) manager, string) act" where
  "run_set_conn_name c arg msg = (if msg \<noteq> [] then throw (''unexpected argument: '' @ msg)
     else void (set_conn_name c arg))"

text \<open>\<^verbatim>\<open>conn_names[conn]\<close> makes an empty entry for a connection without a name.\<close>

definition run_get_conn_name :: "conn \<Rightarrow> string \<Rightarrow> (('d, 'w) manager, string) act" where
  "run_get_conn_name c arg = (if arg \<noteq> [] then throw (''unexpected argument: '' @ arg)
     else (\<lambda>dm. case sm_find (conn_names dm) c of
         Some n \<Rightarrow> (Inr n, dm)
       | None \<Rightarrow> (Inr [], dm\<lparr>conn_names := sm_put c [] (conn_names dm)\<rparr>)))"

definition run_list_conn_names :: "string \<Rightarrow> (('d, 'w) manager, string) act" where
  "run_list_conn_names arg = (if arg \<noteq> [] then throw (''unexpected argument: '' @ arg)
     else (\<lambda>dm. (Inr (concat (map (\<lambda>(k, n). n @ nl) (conn_names dm))), dm)))"

definition run_release_all :: "conn \<Rightarrow> string \<Rightarrow> (('d, 'w) manager, string) act" where
  "run_release_all c arg = (if arg \<noteq> [] then throw (''unexpected argument: '' @ arg)
     else (\<lambda>dm. void (set_conn_name c []) (release_each c dm)))"

definition dm_run :: "('d, 'w) env \<Rightarrow> string \<Rightarrow> conn \<Rightarrow> (('d, 'w) manager, string) act" where
  "dm_run E url c =
     (let vs = parse_url url; act = vs ! 0; arg = vs ! 1; msg = vs ! 2; V = drivers E in
      if act = ''ask'' then with_device url arg (dev_ask V c msg)
      else if act = ''use'' then with_device url arg (void (dev_use V c))
      else if act = ''release'' then with_device url arg (quiet (dev_release c))
      else if act = ''lock'' then with_device url arg (void (dev_lock V c))
      else if act = ''unlock'' then with_device url arg (local (void (dev_unlock c)))
      else if act = ''log_start'' then with_device url arg (quiet (dev_log_start c))
      else if act = ''log_finish'' then with_device url arg (quiet (dev_log_finish c))
      else if act = ''log_get'' then with_device url arg (local (dev_log_get c))
      else if act = ''info'' then with_device url arg (\<lambda>(d, w). (Inr (dev_print c d), (d, w)))
      else if act = ''devices'' \<or> act = ''list'' then
        (\<lambda>dm. if arg \<noteq> [] then (Inl (Err (''unexpected argument: '' @ url)), dm)
               else (Inr (concat (map (\<lambda>(n, d). n @ nl) (devices dm))), dm))
      else if act = ''reload'' then
        bind_act (read_conf E) (\<lambda>_ dm.
          (Inr (''Device configuration reloaded: '' @ dec (length (devices dm)) @ '' devices''), dm))
      else if act = ''close'' then with_device url arg (\<lambda>s. (Inr [], dev_close V s))
      else if act = ''ping'' then ok []
      else if act = ''get_time'' then run_get_time E url arg
      else if act = ''set_conn_name'' then run_set_conn_name c arg msg
      else if act = ''get_conn_name'' then run_get_conn_name c arg
      else if act = ''list_conn_names'' then run_list_conn_names arg
      else if act = ''release_all'' then run_release_all c arg
      else throw (''unknown action: '' @ act))"

lemmas dm_run_defs = dm_run_def run_get_time_def run_set_conn_name_def run_get_conn_name_def
  run_list_conn_names_def run_release_all_def

end
