(* ===== verification/Conf_Props.thy ===== *)
theory Conf_Props
  imports Manager_Props
begin

text \<open>
  The configuration file: which files are accepted and which devices they define, and what a
  reload does to the running manager.
\<close>

section \<open>The reference: well-formed lines and the devices they define\<close>

fun opt_pairs :: "string list \<Rightarrow> (string \<times> string) list" where
  "opt_pairs (k # v # r) = (k, v) # opt_pairs r"
| "opt_pairs _ = []"

definition name_ok :: "string \<Rightarrow> bool" where
  "name_ok s \<longleftrightarrow> s \<noteq> [] \<and>
     (\<forall>ch \<in> set s. ch \<notin> {CHR '' '', CHR 0x0A, CHR 0x09, CHR ''/'', CHR 0x5C, CHR 0x00})"

definition line_ok :: "string list \<Rightarrow> bool" where
  "line_ok vs \<longleftrightarrow> 2 \<le> length vs \<and> even (length vs) \<and> name_ok (vs ! 0) \<and>
     (\<forall>(k, v) \<in> set (opt_pairs (drop 2 vs)). \<exists>x. k = CHR ''-'' # x \<and> x \<noteq> [])"

definition line_device :: "string list \<Rightarrow> 'd device" where
  "line_device vs = new_device (vs ! 0) (vs ! 1)
     (fold (\<lambda>(k, v). opt_put (tl k) v) (opt_pairs (drop 2 vs)) [])"

lemma length_takeWhile_eq: "length (takeWhile P s) = length s \<longleftrightarrow> (\<forall>x \<in> set s. P x)"
  by (metis takeWhile_eq_all_conv takeWhile_eq_take take_all_iff order_refl)

lemma bad_dev_name_iff: "dev \<noteq> [] \<Longrightarrow> bad_dev_name dev \<longleftrightarrow> \<not> name_ok dev"
proof -
  assume "dev \<noteq> []"
  let ?P = "\<lambda>c. c \<notin> {CHR '' '', CHR 0x0A, CHR 0x09, CHR ''/'', CHR 0x5C}"
  have "takeWhile ?P (c_str dev) = takeWhile (\<lambda>c. c \<noteq> CHR 0x00 \<and> ?P c) dev"
    unfolding c_str_def takeWhile_takeWhile by (rule takeWhile_cong) auto
  then have "bad_dev_name dev \<longleftrightarrow> \<not> (\<forall>c \<in> set dev. c \<noteq> CHR 0x00 \<and> ?P c)"
    unfolding bad_dev_name_def by (simp only: length_takeWhile_eq)
  with \<open>dev \<noteq> []\<close> show ?thesis by (auto simp: name_ok_def)
qed

lemma conf_opts_pairs:
  assumes "even (length r)"
  shows "case conf_opts r m of
     Inl e \<Rightarrow> \<not> (\<forall>(k, v) \<in> set (opt_pairs r). \<exists>x. k = CHR ''-'' # x \<and> x \<noteq> [])
   | Inr m' \<Rightarrow> (\<forall>(k, v) \<in> set (opt_pairs r). \<exists>x. k = CHR ''-'' # x \<and> x \<noteq> []) \<and>
       m' = fold (\<lambda>(k, v). opt_put (tl k) v) (opt_pairs r) m"
  using assms
proof (induction r m rule: conf_opts.induct)
  case (1 k v r m)
  show ?case
  proof (cases "length k < 2 \<or> k ! 0 \<noteq> CHR ''-''")
    case True
    then have "\<nexists>x. k = CHR ''-'' # x \<and> x \<noteq> []" by auto
    with True show ?thesis by simp
  next
    case False
    then obtain x where k: "k = CHR ''-'' # x" "x \<noteq> []"
      by (cases k) auto
    have d: "drop 1 k = x" and e: "even (length r)" using k 1(2) by simp_all
    have "\<not> (length k < 2 \<or> k ! 0 \<noteq> CHR ''-'')" using False .
    note 1(1) [OF this e, unfolded d]
    with k False show ?thesis by (simp split: sum.splits)
  qed
qed simp_all

lemma conf_line_correct:
  assumes "vs \<noteq> []"
  shows "case conf_line vs ret of
     Inl e \<Rightarrow> \<not> (line_ok vs \<and> \<not> sm_has ret (vs ! 0))
   | Inr ret' \<Rightarrow> line_ok vs \<and> \<not> sm_has ret (vs ! 0) \<and>
       ret' = sm_put (vs ! 0) (line_device vs) ret"
proof (cases "2 \<le> length vs \<and> even (length vs) \<and> name_ok (vs ! 0)")
  case False
  then have "\<not> line_ok vs" by (auto simp: line_ok_def)
  moreover have "isl (conf_line vs ret)"
  proof -
    consider "length vs < 2" | "2 \<le> length vs" "vs ! 0 = []" | "2 \<le> length vs" "vs ! 0 \<noteq> []" "bad_dev_name (vs ! 0)"
      | "2 \<le> length vs" "vs ! 0 \<noteq> []" "odd (length vs)"
      using False bad_dev_name_iff [of "vs ! 0"] by force
    then show ?thesis
      by cases (simp_all add: conf_line_def Let_def mod2_eq_if)
  qed
  ultimately show ?thesis by (cases "conf_line vs ret") auto
next
  case True
  then have ne: "vs ! 0 \<noteq> []" by (simp add: name_ok_def)
  with True have "\<not> bad_dev_name (vs ! 0)" by (simp add: bad_dev_name_iff)
  with True ne have eq: "conf_line vs ret = bind_res (conf_opts (drop 2 vs) []) (\<lambda>m.
      if sm_has ret (vs ! 0) then Inl (Err (''duplicated device name: '' @ vs ! 0))
      else Inr (sm_put (vs ! 0) (new_device (vs ! 0) (vs ! 1) m) ret))"
    by (simp add: conf_line_def Let_def mod2_eq_if not_less cong: if_cong)
  have "even (length (drop 2 vs))" using True by simp
  from conf_opts_pairs [OF this, of "[]"] True show ?thesis
    unfolding eq by (auto simp: line_ok_def line_device_def split: sum.splits)
qed

definition lines :: "(nat \<times> string list) list \<Rightarrow> conf_ev list" where
  "lines ls = map (\<lambda>(n, vs). Words n vs) ls @ [Words 0 []]"

definition conf_ok :: "(nat \<times> string list) list \<Rightarrow> bool" where
  "conf_ok ls \<longleftrightarrow> (\<forall>(n, vs) \<in> set ls. line_ok vs) \<and> distinct (map (\<lambda>(n, vs). vs ! 0) ls)"

lemma conf_loop_lines:
  fixes ret :: "(string, 'd device) smap"
  assumes "\<forall>(n, vs) \<in> set ls. vs \<noteq> []" and "smap_ok ret"
  shows "case conf_loop (lines ls) ret of
     Inl e \<Rightarrow> \<not> (conf_ok ls \<and> (\<forall>(n, vs) \<in> set ls. \<not> sm_has ret (vs ! 0)))
   | Inr ret' \<Rightarrow> conf_ok ls \<and> (\<forall>(n, vs) \<in> set ls. \<not> sm_has ret (vs ! 0)) \<and> smap_ok ret' \<and>
       (\<forall>k. sm_find ret' k = (case map_of (map (\<lambda>(n, vs). (vs ! 0, line_device vs :: 'd device)) ls) k of
          Some d \<Rightarrow> Some d | None \<Rightarrow> sm_find ret k))"
  using assms
proof (induction ls arbitrary: ret)
  case Nil
  then show ?case by (simp add: lines_def conf_ok_def)
next
  case (Cons l ls)
  obtain n vs where l: "l = (n, vs)" by fastforce
  have ne: "vs \<noteq> []" "\<forall>(n, vs) \<in> set ls. vs \<noteq> []" using Cons.prems(1) l by auto
  have loop: "conf_loop (lines (l # ls)) ret = (case conf_line vs ret of
       Inl e \<Rightarrow> Inl (n, err_str e) | Inr ret' \<Rightarrow> conf_loop (lines ls) ret')"
    using ne(1) by (simp add: lines_def l cong: sum.case_cong)
  show ?case
  proof (cases "conf_line vs ret")
    case (Inl e)
    with conf_line_correct [OF ne(1), of ret] show ?thesis
      unfolding loop by (auto simp: conf_ok_def l)
  next
    case (Inr r1)
    with conf_line_correct [OF ne(1), of ret]
    have 1: "line_ok vs" "\<not> sm_has ret (vs ! 0)" "r1 = sm_put (vs ! 0) (line_device vs) ret"
      by simp_all
    have ok1: "smap_ok r1" using Cons.prems(2) 1(3) by simp
    have has: "sm_has r1 k \<longleftrightarrow> k = vs ! 0 \<or> sm_has ret k" for k
      by (simp add: 1(3) sm_has_def sm_put_keys)
    have find: "sm_find r1 k = (if k = vs ! 0 then Some (line_device vs) else sm_find ret k)" for k
      using Cons.prems(2) by (simp add: 1(3) smap.look_put)
    have sep: "(\<forall>(n, vs) \<in> set ls. \<not> sm_has r1 (vs ! 0)) \<longleftrightarrow>
        vs ! 0 \<notin> set (map (\<lambda>(n, vs). vs ! 0) ls) \<and> (\<forall>(n, vs) \<in> set ls. \<not> sm_has ret (vs ! 0))"
      by (induction ls) (auto simp: has)
    have nodup: "conf_ok (l # ls) \<and> (\<forall>(n, vs) \<in> set (l # ls). \<not> sm_has ret (vs ! 0)) \<longleftrightarrow>
        conf_ok ls \<and> (\<forall>(n, vs) \<in> set ls. \<not> sm_has r1 (vs ! 0))"
      using 1(1,2) sep by (auto simp: conf_ok_def l)
    from Cons.IH [OF ne(2) ok1] show ?thesis
    proof (cases "conf_loop (lines ls) r1")
      case (Inl e)
      with Cons.IH [OF ne(2) ok1] Inr nodup show ?thesis unfolding loop by simp
    next
      case r: (Inr r2)
      note IH = Cons.IH [OF ne(2) ok1, unfolded r, simplified]
      have "map_of (map (\<lambda>(n, vs). (vs ! 0, line_device vs :: 'd device)) ls) (vs ! 0) = None"
        using IH by (auto simp: map_of_eq_None_iff has)
      then have "sm_find r2 k = (case map_of (map (\<lambda>(n, vs). (vs ! 0, line_device vs :: 'd device)) (l # ls)) k of
          Some d \<Rightarrow> Some d | None \<Rightarrow> sm_find ret k)" for k
        using IH by (cases "k = vs ! 0") (simp_all add: find l cong: option.case_cong)
      with IH nodup r Inr show ?thesis
        unfolding loop by simp
    qed
  qed
qed

text \<open>
  C28. A configuration file is accepted exactly when every line has an even number of words,
  two or more, a device name without spaces, slashes, backslashes and NULs, option names that
  start with a dash and are longer than it, and no device name occurs twice; the devices it
  defines are then exactly those of its lines, each closed, with the options of its line.
\<close>

theorem conf_file_correct:
  assumes "\<forall>(n, vs) \<in> set ls. vs \<noteq> []"
  shows "case conf_loop (lines ls) ([] :: (string, 'd device) smap) of
     Inl e \<Rightarrow> \<not> conf_ok ls
   | Inr ret \<Rightarrow> conf_ok ls \<and> smap_ok ret \<and>
       (\<forall>k. sm_find ret k = map_of (map (\<lambda>(n, vs). (vs ! 0, line_device vs)) ls) k)"
proof -
  note * = conf_loop_lines [OF assms, of "[] :: (string, 'd device) smap"]
  show ?thesis
  proof (cases "conf_loop (lines ls) ([] :: (string, 'd device) smap)")
  case (Inl e)
  with * show ?thesis by (auto simp: sm_has_def)
next
  case (Inr ret)
  with * show ?thesis by (simp split: option.splits)
  qed
qed

theorem conf_file_correct_witness:
  "\<exists>ret. conf_loop (lines [(1, [''gen'', ''test'', ''-addr'', ''a/b''])]) [] = Inr ret \<and>
     sm_find ret ''gen'' = Some (new_device ''gen'' ''test'' [(''addr'', ''a/b'')])"
proof -
  let ?ls = "[(1, [''gen'', ''test'', ''-addr'', ''a/b''])] :: (nat \<times> string list) list"
  have "conf_ok ?ls" by (simp add: conf_ok_def line_ok_def name_ok_def)
  moreover have "\<forall>(n, vs) \<in> set ?ls. vs \<noteq> []" by simp
  note conf_file_correct [OF this]
  ultimately show ?thesis
    by (auto simp: line_device_def opt_put_def split: sum.splits)
qed

section \<open>Reload\<close>

lemma conf_opts_ok: "conf_opts r m = Inr m' \<Longrightarrow> smap_ok m \<Longrightarrow> smap_ok m'"
  by (induction r m rule: conf_opts.induct) (auto split: if_splits)

definition fresh :: "(string, 'd device) smap \<Rightarrow> bool" where
  "fresh ret \<longleftrightarrow> smap_ok ret \<and>
     (\<forall>k d. sm_find ret k = Some d \<longrightarrow> (\<exists>dn a. d = new_device k dn a \<and> smap_ok a))"

lemma conf_line_fresh:
  assumes "conf_line vs ret = Inr ret'" and "fresh ret"
  shows "fresh ret'"
proof -
  from assms(1) obtain m where m: "conf_opts (drop 2 vs) [] = Inr m"
    and "ret' = sm_put (vs ! 0) (new_device (vs ! 0) (vs ! 1) m) ret"
    by (auto simp: conf_line_def Let_def bind_res_Inr_iff split: if_splits)
  moreover have "smap_ok m" using conf_opts_ok [OF m] by simp
  ultimately show ?thesis using assms(2) by (auto simp: fresh_def smap.look_put)
qed

lemma fresh_device:
  assumes "fresh ret" and "sm_find ret k = Some d"
  shows "device_in cs k d \<and> dev_name d = k \<and> drv d = None \<and> \<not> locked d \<and> clients d = {}"
proof -
  from assms obtain dn a where d: "d = new_device k dn a" unfolding fresh_def by blast
  show ?thesis unfolding d by simp (simp add: new_device_def)
qed

lemma conf_loop_fresh: "conf_loop evs ret = Inr ret' \<Longrightarrow> fresh ret \<Longrightarrow> fresh ret'"
  by (induction evs ret rule: conf_loop.induct)
    (auto split: if_splits sum.splits intro: conf_line_fresh)

lemma read_conf_cases:
  fixes dm :: "('d, 'w) manager"
  assumes "read_conf E dm = (r, dm')"
  obtains (kept) m where "r = Inl (Err m)" "dm' = dm"
  | (loaded) ret where "r = Inr ()" "fresh ret"
      "dm' = dm\<lparr>devices := ret,
         world := foldl (drop_device (drivers E)) (world dm) (map snd (devices dm))\<rparr>"
proof (cases "conf_file E (devfile dm) (world dm)")
  case None
  with assms show thesis by (intro kept) (auto simp: read_conf_def)
next
  case (Some evs)
  show thesis
  proof (cases "conf_loop evs ([] :: (string, 'd device) smap)")
    case (Inl e)
    with assms Some show thesis by (cases e) (intro kept, auto simp: read_conf_def)
  next
    case (Inr ret)
    then have f: "fresh ret" by (rule conf_loop_fresh) (simp add: fresh_def)
    then have "copy_device d = d" if "(k, d) \<in> set ret" for k d
      using that copy_new_device unfolding fresh_def by (metis sm_find_iff)
    then have "sm_each copy_device ret = ret" by (auto intro: sm_each_id)
    with assms Some Inr f show thesis by (intro loaded) (auto simp: read_conf_def)
  qed
qed

lemma read_conf_inv:
  assumes "dm_inv dm" and "read_conf E dm = (r, dm')"
  shows "dm_inv dm' \<and> conn_names dm' = conn_names dm \<and> devfile dm' = devfile dm"
  using assms(2)
proof (cases rule: read_conf_cases)
  case (loaded ret)
  then show ?thesis using assms(1)
    by (simp add: dm_inv_def fresh_device open_conns_def) (simp add: fresh_def)
qed (use assms(1) in simp)

text \<open>
  C8. A reload either reports an error and leaves the manager as it was, devices, users,
  locks and log buffers included, or replaces the devices by closed ones that nobody uses,
  locks or logs; the names of the connections stay in both cases.
\<close>

theorem reload_all_or_nothing:
  assumes "parse_url url ! 0 = ''reload''" and "dm_run E url c dm = (r, dm')"
  shows "(\<exists>m. r = Inl (Err m) \<and> dm' = dm) \<or>
    (conn_names dm' = conn_names dm \<and>
     r = Inr (''Device configuration reloaded: '' @ dec (length (devices dm')) @ '' devices'') \<and>
     (\<forall>k d. sm_find (devices dm') k = Some d \<longrightarrow>
        dev_name d = k \<and> drv d = None \<and> \<not> locked d \<and> clients d = {}))"
proof -
  have run: "dm_run E url c dm = bind_act (read_conf E) (\<lambda>_ dm.
      (Inr (''Device configuration reloaded: '' @ dec (length (devices dm)) @ '' devices''), dm)) dm"
    by (simp add: dm_run_defs assms(1) Let_def)
  obtain q dm1 where rc: "read_conf E dm = (q, dm1)" by fastforce
  then show ?thesis
  proof (cases rule: read_conf_cases)
    case (kept m)
    with rc run assms(2) show ?thesis by simp
  next
    case (loaded ret)
    with rc run assms(2) have "dm' = dm1"
      and "r = Inr (''Device configuration reloaded: '' @ dec (length (devices dm1)) @ '' devices'')"
      by simp_all
    with loaded(3) fresh_device [OF loaded(2)] show ?thesis by simp
  qed
qed

definition test_env :: "conf_ev list \<Rightarrow> (string, nat) env" where
  "test_env evs = \<lparr>drivers = test_vtable, conf_file = (\<lambda>f w. Some evs), clock = (\<lambda>w. (w, 0))\<rparr>"

theorem reload_all_or_nothing_witness:
  "\<exists>r dm'. dm_run (test_env [Words 1 [''a'', ''test''], Words 2 [''a'']]) ''/reload'' 3
     \<lparr>devices = [(''a'', (new_device ''a'' ''test'' [])\<lparr>users := {3}\<rparr>)], conn_names = [],
      devfile = [], world = 0\<rparr> = (r, dm') \<and>
     (\<exists>d. sm_find (devices dm') ''a'' = Some d \<and> users d = {3})"
proof -
  let ?E = "test_env [Words 1 [''a'', ''test''], Words 2 [''a'']]"
  let ?dm = "\<lparr>devices = [(''a'', (new_device ''a'' ''test'' [])\<lparr>users := {3}\<rparr>)], conn_names = [],
      devfile = [], world = 0\<rparr> :: (string, nat) manager"
  have url: "parse_url ''/reload'' ! 0 = ''reload''"
    using parse_url_parts1 [of "''reload''"] by (simp add: npos_def)
  obtain r dm' where run: "dm_run ?E ''/reload'' 3 ?dm = (r, dm')" by fastforce
  have "isl r"
    using run by (auto simp: dm_run_defs url Let_def bind_act_def read_conf_def test_env_def
        conf_line_def bad_dev_name_def c_str_def sm_has_def cong: sum.case_cong)
  with reload_all_or_nothing [OF url run] have "dm' = ?dm" by auto
  with run show ?thesis by (simp add: sm_find_def)
qed

end
