(* ===== verification/Manager_Run.thy ===== *)
theory Manager_Run
  imports Conf_Props
begin

text \<open>
  Histories of the device manager: connections open, send requests and close, in any order.
  Every request keeps the invariant of \<open>Manager_Props\<close>; what follows for the clients: closing
  a connection leaves no trace of it, names stay unique, a lock holds until its owner gives it
  up or somebody closes the device, and no request runs into a null driver.
\<close>

section \<open>One request\<close>

lemma void_UB: "fst (void f s) = Inl UB \<longleftrightarrow> fst (f s) = Inl UB"
  by (cases "f s"; cases "fst (f s)") (auto simp: void_def bind_act_def)

text \<open>The requests that are not about one device.\<close>

lemma void_set_conn_name:
  assumes "void (set_conn_name c n) dm = (r, dm')"
  obtains q where "set_conn_name c n dm = (q, dm')" "isl q = isl r" "r \<noteq> Inl UB"
proof -
  from void_isl [OF assms] obtain q where "set_conn_name c n dm = (q, dm')" "isl q = isl r" by blast
  moreover have "fst (set_conn_name c n dm) \<noteq> Inl UB" by (simp add: set_conn_name_def Let_def)
  then have "r \<noteq> Inl UB" using assms void_UB by (metis fst_conv)
  ultimately show thesis by (rule that)
qed

lemma dm_run_other:
  assumes "device_action (parse_url url ! 0) (parse_url url ! 2) = None"
    and "dm_run E url c dm = (r, dm')"
  obtains (error) m where "r = Inl (Err m)" "dm' = dm"
  | (answer) s where "r = Inr s" "dm' = dm"
  | (reload) q where "parse_url url ! 0 = ''reload''" "read_conf E dm = (q, dm')"
      "isl q = isl r" "r \<noteq> Inl UB"
  | (set_name) q where "parse_url url ! 0 = ''set_conn_name''"
      "set_conn_name c (parse_url url ! 1) dm = (q, dm')" "isl q = isl r" "r \<noteq> Inl UB"
  | (unnamed) "sm_find (conn_names dm) c = None"
      "dm' = dm\<lparr>conn_names := sm_put c [] (conn_names dm)\<rparr>" "r = Inr []"
  | (release) q where "parse_url url ! 0 = ''release_all''"
      "set_conn_name c [] (release_each c dm) = (q, dm')" "r \<noteq> Inl UB"
proof -
  let ?a = "parse_url url ! 0"
  have none: "?a \<notin> {''ask'', ''use'', ''release'', ''lock'', ''unlock'', ''log_start'',
      ''log_finish'', ''log_get'', ''info'', ''close''}"
    by (rule device_action_None [THEN iffD1, OF assms(1)])
  consider "?a = ''devices'' \<or> ?a = ''list''" | "?a = ''reload''" | "?a = ''ping''"
    | "?a = ''get_time''" | "?a = ''set_conn_name''" | "?a = ''get_conn_name''"
    | "?a = ''list_conn_names''" | "?a = ''release_all''"
    | "?a \<notin> {''devices'', ''list'', ''reload'', ''ping'', ''get_time'', ''set_conn_name'',
        ''get_conn_name'', ''list_conn_names'', ''release_all''}" by blast
  then show thesis
  proof cases
    case 1
    with assms(2) show thesis
      by (auto simp: dm_run_defs Let_def split: if_splits intro: error answer)
  next
    case 2
    obtain q dm1 where rc: "read_conf E dm = (q, dm1)" by fastforce
    moreover have "q \<noteq> Inl UB" using rc by (cases rule: read_conf_cases) auto
    ultimately have "dm' = dm1" "isl q = isl r" "r \<noteq> Inl UB"
      using 2 assms(2) by (cases q; auto simp: dm_run_defs Let_def)+
    then show thesis using reload [OF 2] rc by simp
  next
    case 3
    with assms(2) show thesis by (auto simp: dm_run_defs Let_def intro: answer)
  next
    case 4
    with assms(2) show thesis
      by (auto simp: dm_run_defs Let_def split: if_splits prod.splits intro: error answer)
  next
    case 5
    show thesis
    proof (cases "parse_url url ! 2 = []")
      case False
      with 5 assms(2) show thesis by (auto simp: dm_run_defs Let_def intro: error)
    next
      case True
      with 5 assms(2) have "void (set_conn_name c (parse_url url ! 1)) dm = (r, dm')"
        by (simp add: dm_run_defs Let_def)
      then show thesis by (rule void_set_conn_name) (rule set_name [OF 5])
    qed
  next
    case 6
    with assms(2) show thesis
      by (auto simp: dm_run_defs Let_def split: if_splits option.splits intro: error answer unnamed)
  next
    case 7
    with assms(2) show thesis
      by (auto simp: dm_run_defs Let_def split: if_splits intro: error answer)
  next
    case 8
    show thesis
    proof (cases "parse_url url ! 1 = []")
      case False
      with 8 assms(2) show thesis by (auto simp: dm_run_defs Let_def intro: error)
    next
      case True
      with 8 assms(2) have "void (set_conn_name c []) (release_each c dm) = (r, dm')"
        by (simp add: dm_run_defs Let_def)
      then show thesis by (rule void_set_conn_name) (rule release [OF 8])
    qed
  next
    case 9
    with none assms(2) show thesis by (auto simp: dm_run_defs Let_def intro: error)
  qed
qed

lemma dm_run_inv:
  assumes "dm_inv dm" and "c \<in> open_conns dm" and "dm_run E url c dm = (r, dm')"
  shows "dm_inv dm' \<and> open_conns dm' = open_conns dm"
proof (cases "device_action (parse_url url ! 0) (parse_url url ! 2)")
  case (Some a)
  with exec_op.with_device_inv [OF assms(1,2)] assms(3) show ?thesis
    by (simp add: dm_run_device open_conns_def)
next
  case None
  from this assms(3) show ?thesis
  proof (cases rule: dm_run_other)
    case (reload q)
    with read_conf_inv [OF assms(1) reload(2)] show ?thesis by (simp add: open_conns_def)
  next
    case (set_name q)
    with set_conn_name_inv [OF assms(1) set_name(2)] set_conn_name_open [OF set_name(2)] assms(2)
    show ?thesis by auto
  next
    case unnamed
    with assms(2) show ?thesis by (simp add: open_conns_def sm_has_find)
  next
    case (release q)
    with set_conn_name_inv [OF release_each_inv [OF assms(1)] release(2)]
      set_conn_name_open [OF release(2)] assms(2)
    show ?thesis by auto
  qed (use assms(1) in simp_all)
qed

lemma dm_run_find:
  assumes "device_action (parse_url url ! 0) (parse_url url ! 2) = None"
    and "parse_url url ! 0 \<noteq> ''reload''" and "dm_run E url c dm = (r, dm')"
  shows "devices dm' = devices dm \<or> devices dm' = devices (release_each c dm)"
  using assms(1,3)
proof (cases rule: dm_run_other)
  case (set_name q)
  then show ?thesis using set_conn_name_devices(1) by (metis snd_conv)
next
  case (release q)
  then show ?thesis using set_conn_name_devices(1) by (metis snd_conv)
qed (use assms(2) in simp_all)

section \<open>Histories\<close>

datatype event = Connect conn | Request conn string | Disconnect conn

definition event_step :: "('d, 'w) env \<Rightarrow> event \<Rightarrow> ('d, 'w) manager \<Rightarrow> ('d, 'w) manager" where
  "event_step E ev dm = (case ev of
      Connect c \<Rightarrow> snd (conn_open c dm)
    | Request c url \<Rightarrow> snd (dm_run E url c dm)
    | Disconnect c \<Rightarrow> conn_close c dm)"

text \<open>A connection opens before its requests, which come before it closes.\<close>

fun valid_history :: "conn set \<Rightarrow> event list \<Rightarrow> bool" where
  "valid_history cs [] = True"
| "valid_history cs (Connect c # evs) = (c \<notin> cs \<and> valid_history (insert c cs) evs)"
| "valid_history cs (Request c url # evs) = (c \<in> cs \<and> valid_history cs evs)"
| "valid_history cs (Disconnect c # evs) = (c \<in> cs \<and> valid_history (cs - {c}) evs)"

fun open_after :: "conn set \<Rightarrow> event list \<Rightarrow> conn set" where
  "open_after cs [] = cs"
| "open_after cs (Connect c # evs) = open_after (insert c cs) evs"
| "open_after cs (Request c url # evs) = open_after cs evs"
| "open_after cs (Disconnect c # evs) = open_after (cs - {c}) evs"

lemma event_step_inv:
  assumes "dm_inv dm" and "valid_history (open_conns dm) [ev]"
  shows "dm_inv (event_step E ev dm) \<and>
    open_conns (event_step E ev dm) = open_after (open_conns dm) [ev]"
proof (cases ev)
  case (Connect c)
  obtain q dm' where o: "conn_open c dm = (q, dm')" by fastforce
  then have "q = Inr ()" using conn_open_ok assms(1) unfolding dm_inv_def by (metis fst_conv)
  with o set_conn_name_inv [OF assms(1)] set_conn_name_open Connect show ?thesis
    by (fastforce simp: event_step_def conn_open_def)
next
  case (Request c url)
  obtain q dm' where o: "dm_run E url c dm = (q, dm')" by fastforce
  with dm_run_inv [OF assms(1) _ o] assms(2) Request show ?thesis by (simp add: event_step_def)
next
  case (Disconnect c)
  with conn_close_inv [OF assms(1)] show ?thesis by (simp add: event_step_def)
qed

lemma history_inv:
  assumes "dm_inv dm" and "valid_history (open_conns dm) evs"
  shows "dm_inv (fold (event_step E) evs dm) \<and>
    open_conns (fold (event_step E) evs dm) = open_after (open_conns dm) evs"
  using assms
proof (induction evs arbitrary: dm)
  case (Cons ev evs)
  have one: "valid_history (open_conns dm) [ev]" using Cons.prems(2) by (cases ev) auto
  note step = event_step_inv [OF Cons.prems(1) one, of E]
  have "valid_history (open_conns (event_step E ev dm)) evs"
    using step Cons.prems(2) by (cases ev) auto
  with Cons.IH [of "event_step E ev dm"] step show ?case by (cases ev) auto
qed simp

lemma new_manager_inv: "dm_inv (new_manager E f w) \<and> open_conns (new_manager E f w) = {}"
proof -
  let ?dm = "\<lparr>devices = [], conn_names = [], devfile = f, world = w\<rparr>"
  have "dm_inv ?dm" by (simp add: dm_inv_def names_inv_def)
  moreover obtain q dm' where "read_conf E ?dm = (q, dm')" by fastforce
  moreover note read_conf_inv [OF calculation]
  ultimately show ?thesis by (simp add: new_manager_def open_conns_def sm_has_def)
qed

lemma history_from_start:
  assumes "valid_history {} evs"
  shows "dm_inv (fold (event_step E) evs (new_manager E f w)) \<and>
    open_conns (fold (event_step E) evs (new_manager E f w)) = open_after {} evs"
  using history_inv [of "new_manager E f w"] new_manager_inv [of E f w] assms by metis

text \<open>
  C1. Whatever connections open, ask and close, with whatever drivers and configuration
  files: no two devices and no two connections share a name, every device in use is open, a
  locked device has exactly one user, every user and every owner of a log buffer is a
  connection open at that moment, and no log buffer exceeds 1024 messages.
\<close>

theorem manager_invariant:
  assumes "valid_history {} evs"
  shows "dm_inv (fold (event_step E) evs (new_manager E f w)) \<and>
    open_conns (fold (event_step E) evs (new_manager E f w)) = open_after {} evs"
  using history_from_start [OF assms] .

theorem manager_invariant_witness:
  "dm_inv (fold (event_step (test_env [Words 1 [''a'', ''test''], Words 2 []]))
      [Connect 1, Request 1 ''/lock/a'', Connect 2, Request 2 ''/use/a'', Disconnect 1]
      (new_manager (test_env [Words 1 [''a'', ''test''], Words 2 []]) ''f'' 0)) \<and>
    open_conns (fold (event_step (test_env [Words 1 [''a'', ''test''], Words 2 []]))
      [Connect 1, Request 1 ''/lock/a'', Connect 2, Request 2 ''/use/a'', Disconnect 1]
      (new_manager (test_env [Words 1 [''a'', ''test''], Words 2 []]) ''f'' 0)) = {2}"
proof -
  let ?evs = "[Connect 1, Request 1 ''/lock/a'', Connect 2, Request 2 ''/use/a'', Disconnect 1]"
  have "valid_history {} ?evs" by simp
  moreover have "open_after {} ?evs = {2}" by auto
  ultimately show ?thesis
    using manager_invariant [of ?evs "test_env [Words 1 [''a'', ''test''], Words 2 []]" "''f''" 0]
    by simp
qed

text \<open>
  When a new connection opens, whatever happened before, it gets its default name: the
  callback never throws, because no other connection can hold that name.
\<close>

theorem conn_open_gets_name:
  assumes "valid_history {} (evs @ [Connect c])"
    and "dm = fold (event_step E) evs (new_manager E f w)"
  shows "\<exists>dm'. conn_open c dm = (Inr (), dm') \<and>
     sm_find (conn_names dm') c = Some (default_name c) \<and>
     (\<forall>c' n. c' \<noteq> c \<longrightarrow> sm_find (conn_names dm') c' = Some n \<longrightarrow>
        n \<noteq> default_name c \<and> sm_find (conn_names dm) c' = Some n)"
proof -
  have "valid_history cs (evs @ [Connect c]) \<Longrightarrow> valid_history cs evs" for cs
    by (induction cs evs rule: valid_history.induct) auto
  then have "valid_history {} evs" using assms(1) .
  then have inv: "dm_inv dm" unfolding assms(2) by (rule history_from_start [THEN conjunct1])
  let ?dm' = "dm\<lparr>conn_names := sm_put c (default_name c) (conn_names dm)\<rparr>"
  have n: "names_inv (conn_names dm)" using inv by (simp add: dm_inv_def)
  then have ok: "smap_ok (conn_names dm)" by (simp add: names_inv_def)
  have o: "conn_open c dm = (Inr (), ?dm')" by (rule conn_open_ok [OF n])
  then have n': "names_inv (conn_names ?dm')"
    using set_conn_name_names [OF n] unfolding conn_open_def by blast
  have look: "sm_find (conn_names ?dm') k =
      (if k = c then Some (default_name c) else sm_find (conn_names dm) k)" for k
    by (simp add: smap.look_put [OF ok])
  then have c: "sm_find (conn_names ?dm') c = Some (default_name c)" by simp
  have "n \<noteq> default_name c \<and> sm_find (conn_names dm) c' = Some n"
    if k: "c' \<noteq> c" "sm_find (conn_names ?dm') c' = Some n" for c' n
  proof
    show "n \<noteq> default_name c" using n' c k unfolding names_inv_def by blast
    show "sm_find (conn_names dm) c' = Some n" using k look by simp
  qed
  with o c show ?thesis by blast
qed

theorem conn_open_gets_name_witness:
  "\<exists>dm'. conn_open 2 (fold (event_step (test_env [Words 1 []]))
       [Connect 1, Request 1 ''/set_conn_name/#2''] (new_manager (test_env [Words 1 []]) ''f'' 0)) =
     (Inr (), dm') \<and> sm_find (conn_names dm') 2 = Some ''#2''"
proof -
  let ?evs = "[Connect 1, Request 1 ''/set_conn_name/#2'']"
  have "valid_history {} (?evs @ [Connect 2])" by simp
  moreover have "default_name 2 = ''#2''" by (simp add: default_name_def dec_small) code_simp
  ultimately show ?thesis using conn_open_gets_name [OF _ refl] by metis
qed

section \<open>Closing a connection\<close>

lemma dev_release_fields:
  "users (dev_release c d) = users d - {c}"
  "locked (dev_release c d) = (locked d \<and> c \<notin> users d)"
  by (auto simp: dev_release_def Let_def)

lemma dev_release_logs:
  "sm_find (log_bufs (dev_release c d)) c' = (if c' = c then None else sm_find (log_bufs d) c')"
  by (auto simp: dev_release_def Let_def sm_find_erase sm_has_find)


text \<open>A manager in the middle of its work, for the witnesses.\<close>

definition demo_manager :: "(string, nat) manager" where
  "demo_manager =
     \<lparr>devices = [(''a'', (new_device ''a'' ''test'' [])\<lparr>drv := Some [], users := {5}, locked := True\<rparr>)],
      conn_names = [(5, default_name 5), (6, ''joe'')], devfile = ''f'', world = 1\<rparr>"

lemma demo_inv: "dm_inv demo_manager" and demo_open: "open_conns demo_manager = {5, 6}"
proof -
  show o: "open_conns demo_manager = {5, 6}"
    by (auto simp: open_conns_def demo_manager_def sm_has_def)
  have joe: "default_name 5 \<noteq> ''joe''" "''joe'' \<noteq> default_name 5" by (simp_all add: default_name_def)
  have "names_inv (conn_names demo_manager)"
    using joe by (auto simp: demo_manager_def names_inv_def smap_ok_def sm_find_def split: if_splits)
  moreover have "device_in {5, 6} k d" if "sm_find (devices demo_manager) k = Some d" for k d
    using that by (auto simp: demo_manager_def sm_find_def device_in_def new_device_def
        dev_inv_def clients_def split: if_splits)
  moreover have "smap_ok (devices demo_manager)" by (simp add: demo_manager_def smap_ok_def)
  ultimately show "dm_inv demo_manager" by (simp add: dm_inv_def o)
qed

lemma demo_device:
  "sm_find (devices demo_manager) ''a'' =
     Some ((new_device ''a'' ''test'' [])\<lparr>drv := Some [], users := {5}, locked := True\<rparr>)"
  by (simp add: demo_manager_def sm_find_def)


section \<open>Locks\<close>

text \<open>
  What other connections may do while \<open>c\<close> holds the lock of device \<open>k\<close>: anything but
  closing that device and reloading the configuration.
\<close>

definition leaves_lock :: "conn \<Rightarrow> string \<Rightarrow> event \<Rightarrow> bool" where
  "leaves_lock c k ev = (case ev of
      Connect x \<Rightarrow> True
    | Disconnect x \<Rightarrow> x \<noteq> c
    | Request x url \<Rightarrow> x \<noteq> c \<and> parse_url url ! 0 \<noteq> ''reload'' \<and>
        \<not> (parse_url url ! 0 = ''close'' \<and> parse_url url ! 1 = k))"

definition lock_held :: "conn \<Rightarrow> string \<Rightarrow> 'd option \<Rightarrow> ('d, 'w) manager \<Rightarrow> bool" where
  "lock_held c k x dm \<longleftrightarrow> (\<exists>d. sm_find (devices dm) k = Some d \<and> locked d \<and> users d = {c} \<and>
     drv d = x)"

lemma lock_held_release:
  "lock_held c k x dm \<Longrightarrow> c' \<noteq> c \<Longrightarrow> lock_held c k x (release_each c' dm)"
  by (auto simp: lock_held_def release_each_def dev_release_fields)

lemma lock_held_devices: "devices dm' = devices dm \<Longrightarrow> lock_held c k x dm' = lock_held c k x dm"
  by (simp add: lock_held_def)

lemma lock_held_step:
  assumes "dm_inv dm" and "lock_held c k x dm" and "leaves_lock c k ev"
  shows "lock_held c k x (event_step E ev dm)"
proof (cases ev)
  case (Connect y)
  then have "devices (event_step E ev dm) = devices dm" by (simp add: event_step_def conn_open_def)
  with assms(2) show ?thesis by (simp add: lock_held_def)
next
  case (Disconnect y)
  then have "devices (event_step E ev dm) = devices (release_each y dm)"
    by (simp add: event_step_def conn_close_def Let_def)
  with lock_held_release [OF assms(2)] assms(3) Disconnect show ?thesis
    by (simp add: lock_held_def leaves_lock_def)
next
  case (Request y url)
  obtain r dm' where run: "dm_run E url y dm = (r, dm')" by fastforce
  have ev: "event_step E ev dm = dm'" by (simp add: event_step_def Request run)
  have y: "y \<noteq> c" and act: "parse_url url ! 0 \<noteq> ''reload''"
    using assms(3) by (simp_all add: leaves_lock_def Request)
  show ?thesis
  proof (cases "device_action (parse_url url ! 0) (parse_url url ! 2)")
    case None
    from dm_run_find [OF None act run] assms(2) lock_held_release [OF assms(2) y]
    show ?thesis unfolding ev using lock_held_devices by blast
  next
    case (Some a)
    from run have "with_device url (parse_url url ! 1) (dev_exec (drivers E) a y) dm = (r, dm')"
      by (simp add: dm_run_device [OF Some])
    then show ?thesis
    proof (cases rule: with_device_cases)
      case (run d d' w')
      have ok: "smap_ok (devices dm)" using assms(1) by (simp add: dm_inv_def)
      show ?thesis
      proof (cases "parse_url url ! 1 = k")
        case False
        with run(4) assms(2) ok show ?thesis by (simp add: ev lock_held_def smap.look_put)
      next
        case True
        with assms(2) run(2) have d: "locked d" "users d = {c}" "drv d = x"
          by (simp_all add: lock_held_def)
        have "dev_inv d" using dm_inv_find [OF assms(1) run(2)] by (simp add: device_in_def)
        moreover have "a \<noteq> Close"
          using Some assms(3) True by (auto simp: device_action_Some leaves_lock_def Request)
        ultimately have "locked d' \<and> users d' = users d \<and> drv d' = drv d"
          using dev_exec_guarded guarded_op.op_guard d(1,2) y run(3) by (metis singletonD)
        with d run(4) ok True show ?thesis by (simp add: ev lock_held_def smap.look_put)
      qed
    qed (use assms(2) ev in simp_all)
  qed
qed

text \<open>
  C2. A lock holds: once a connection has locked a device, no sequence of requests,
  connections and disconnections of the others changes the lock, the users or the driver
  object of that device, unless somebody closes the device or reloads the configuration.
\<close>

theorem lock_holds:
  assumes "dm_inv dm" and "valid_history (open_conns dm) evs" and "lock_held c k x dm"
    and "\<forall>ev \<in> set evs. leaves_lock c k ev"
  shows "lock_held c k x (fold (event_step E) evs dm)"
  using assms
proof (induction evs arbitrary: dm)
  case (Cons ev evs)
  have one: "valid_history (open_conns dm) [ev]" using Cons.prems(2) by (cases ev) auto
  note step = event_step_inv [OF Cons.prems(1) one, of E]
  have "valid_history (open_conns (event_step E ev dm)) evs"
    using step Cons.prems(2) by (cases ev) auto
  with Cons.IH [of "event_step E ev dm"] step lock_held_step [OF Cons.prems(1,3)] Cons.prems(4)
  show ?case by simp
qed simp

theorem lock_holds_witness:
  "lock_held 5 ''a'' (Some []) (fold (event_step (test_env []))
     [Request 6 ''/lock/a'', Disconnect 6] demo_manager)"
proof (rule lock_holds [OF demo_inv])
  show "valid_history (open_conns demo_manager) [Request 6 ''/lock/a'', Disconnect 6]"
    by (simp add: demo_open)
  show "lock_held 5 ''a'' (Some []) demo_manager" by (simp add: lock_held_def demo_device)
  have "parse_url ''/lock/a'' ! 0 = ''lock''"
    using parse_url_parts2 [of "''lock''" "''a''"] by (simp add: npos_def)
  then show "\<forall>ev \<in> set [Request 6 ''/lock/a'', Disconnect 6]. leaves_lock 5 ''a'' ev"
    by (simp add: leaves_lock_def)
qed

section \<open>Null drivers\<close>

lemma dev_exec_no_UB:
  assumes "safe_vtable V" and "dev_inv d" and "dev_exec V a c (d, w) = (r, s')"
  shows "r \<noteq> Inl UB"
proof -
  have use: "fst (dev_use V c (d, w)) \<noteq> Inl UB"
    using dev_use_no_UB [OF assms(1)] by (metis prod.exhaust_sel)
  have "fst (dev_exec V a c (d, w)) \<noteq> Inl UB"
  proof (cases a)
    case Lock
    have "fst (dev_lock V c (d, w)) \<noteq> Inl UB"
      using use by (cases "dev_use V c (d, w)"; cases "fst (dev_use V c (d, w))")
        (auto simp: dev_lock_def bind_act_def)
    with Lock show ?thesis by (simp add: dev_exec_simps void_UB)
  next
    case (Ask msg)
    with dev_ask_no_UB [OF assms(1,2)] show ?thesis
      by (metis dev_exec_simps(9) prod.exhaust_sel)
  next
    case LogGet
    then show ?thesis by (simp add: dev_exec_simps local_def dev_log_get_def drain_concat split: option.splits)
  qed (use use in \<open>simp_all add: dev_exec_simps void_UB local_def quiet_def dev_unlock_def\<close>)
  with assms(3) show ?thesis by simp
qed

lemma dm_run_UB_free:
  assumes "dm_inv dm" and "c \<in> open_conns dm" and "safe_vtable (drivers E)"
  shows "fst (dm_run E url c dm) \<noteq> Inl UB"
proof -
  obtain r dm' where run: "dm_run E url c dm = (r, dm')" by fastforce
  have "r \<noteq> Inl UB"
  proof (cases "device_action (parse_url url ! 0) (parse_url url ! 2)")
    case (Some a)
    from run have "with_device url (parse_url url ! 1) (dev_exec (drivers E) a c) dm = (r, dm')"
      by (simp add: dm_run_device [OF Some])
    then show ?thesis
    proof (cases rule: with_device_cases)
      case (run d d' w')
      have "dev_inv d" using dm_inv_find [OF assms(1) run(2)] by (simp add: device_in_def)
      with dev_exec_no_UB [OF assms(3) _ run(3)] show ?thesis by blast
    qed simp_all
  next
    case None
    from this run show ?thesis
    proof (cases rule: dm_run_other)
    qed simp_all
  qed
  with run show ?thesis by simp
qed

text \<open>
  No request of an open connection, run to its end before the next one, calls through a
  null driver pointer, provided the drivers themselves have no undefined behaviour.
\<close>

theorem dm_run_no_UB:
  assumes "dm_inv dm" and "c \<in> open_conns dm" and "safe_vtable (drivers E)"
  shows "fst (dm_run E url c dm) \<noteq> Inl UB"
  using assms by (rule dm_run_UB_free)

theorem dm_run_no_UB_witness:
  "fst (dm_run (test_env []) ''/ask/a/x'' 5 demo_manager) \<noteq> Inl UB"
proof (rule dm_run_no_UB [OF demo_inv])
  show "(5 :: conn) \<in> open_conns demo_manager" by (simp add: demo_open)
  show "safe_vtable (drivers (test_env []))"
    by (auto simp: safe_vtable_def test_env_def test_vtable_def)
qed

text \<open>
  A request about a device with no name in the URL, or with a name that is not in the
  configuration, is answered with an error and changes nothing at all.
\<close>

theorem unknown_device_changes_nothing:
  assumes "parse_url url ! 0 \<in> {''ask'', ''use'', ''release'', ''lock'', ''unlock'', ''log_start'',
      ''log_finish'', ''log_get'', ''info'', ''close''}"
    and "arg = parse_url url ! 1" and "arg = [] \<or> sm_find (devices dm) arg = None"
  shows "dm_run E url c dm =
    (Inl (Err (if arg = [] then ''device name expected: '' @ url else ''unknown device: '' @ arg)), dm)"
proof -
  obtain a where "device_action (parse_url url ! 0) (parse_url url ! 2) = Some a"
    using assms(1) device_action_None by (metis not_None_eq)
  from dm_run_device [OF this, of E c] assms(2,3) show ?thesis
    by (cases "arg = []") (simp_all add: with_device_def)
qed

theorem unknown_device_changes_nothing_witness:
  "dm_run (test_env []) ''/use/b'' 6 demo_manager = (Inl (Err ''unknown device: b''), demo_manager)"
proof -
  have url: "parse_url ''/use/b'' = [''use'', ''b'', []]"
    using parse_url_parts2 [of "''use''" "''b''"] by (simp add: npos_def)
  show ?thesis
    by (subst unknown_device_changes_nothing [where arg = "''b''"])
      (simp_all add: url demo_manager_def sm_find_def)
qed

end
