(* ===== verification/Http_Server.thy ===== *)
theory Http_Server
  imports Manager_Run
begin

text \<open>
  \<^verbatim>\<open>server/http_server.h\<close> and \<^verbatim>\<open>server/http_server.cpp\<close>: the callbacks the server registers
  with libmicrohttpd. The library itself is not modelled. What the code relies on is its
  documented protocol: for one request it calls \<^verbatim>\<open>ProcessRequest\<close> first with \<^verbatim>\<open>*ptr\<close> null
  and the headers only, then again with what was uploaded, and a last time with nothing
  uploaded, until the callback refuses the request or queues a response; \<^verbatim>\<open>ConnFunc\<close> is
  called when a connection starts and when it is closed. All calls for starting
  connections come from the one thread that accepts them, so \<^verbatim>\<open>cmax++\<close> needs no mutex.
\<close>

section \<open>Processing a request\<close>

text \<open>
  An argument of the URL has a key and perhaps a value: for \<^verbatim>\<open>?key\<close> the library passes a
  null pointer, which must not be written to a stream.
\<close>

fun append_to_opt :: "(string \<times> string option) list \<Rightarrow> opt \<Rightarrow> opt result" where
  "append_to_opt [] opts = Inr opts"
| "append_to_opt ((k, None) # args) opts = Inl UB"
| "append_to_opt ((k, Some v) # args) opts = append_to_opt args (opt_put k v opts)"

record request =
  req_method :: string
  req_url :: string
  req_args :: "(string \<times> string option) list"

datatype reply =
    MHD_NO
  | MHD_YES                              \<comment> \<open>go on, nothing queued\<close>
  | Response nat string "string option"  \<comment> \<open>status, body and header \<^verbatim>\<open>Error\<close>\<close>
  | Crash exn                            \<comment> \<open>an exception no clause catches\<close>

text \<open>
  One call of \<^verbatim>\<open>ProcessRequest\<close>: \<open>seen\<close> is \<^verbatim>\<open>&dummy == *ptr\<close>, \<open>upload\<close> is
  \<^verbatim>\<open>*upload_data_size\<close>; the result pairs the reply with the new \<open>seen\<close>.
\<close>

definition process_request :: "('d, 'w) env \<Rightarrow> conn \<Rightarrow> request \<Rightarrow> nat \<Rightarrow> bool \<Rightarrow>
    ('d, 'w) manager \<Rightarrow> (reply \<times> bool) \<times> ('d, 'w) manager" where
  "process_request E cnum q upload seen dm =
     (if req_method q \<noteq> ''GET'' then ((MHD_NO, seen), dm)
      else if \<not> seen then ((MHD_YES, True), dm)
      else if upload \<noteq> 0 then ((MHD_NO, seen), dm)
      else case bind_act (lift_res (append_to_opt (req_args q) []))
                  (\<lambda>opts. dm_run E (req_url q) cnum) dm of
        (Inr msg, dm') \<Rightarrow> ((Response 200 msg None, False), dm')
      | (Inl (Err e), dm') \<Rightarrow> ((Response 400 e (Some (c_str e)), False), dm')
      | (Inl x, dm') \<Rightarrow> ((Crash x, False), dm'))"

text \<open>The calls the library makes for one request, with the upload sizes \<open>ups\<close> it sees.\<close>

fun rounds :: "('d, 'w) env \<Rightarrow> conn \<Rightarrow> request \<Rightarrow> nat list \<Rightarrow> bool \<Rightarrow>
    ('d, 'w) manager \<Rightarrow> reply \<times> ('d, 'w) manager" where
  "rounds E c q [] seen dm = (MHD_YES, dm)"
| "rounds E c q (u # ups) seen dm =
     (case process_request E c q u seen dm of
        ((MHD_YES, seen'), dm') \<Rightarrow> rounds E c q ups seen' dm'
      | ((r, seen'), dm') \<Rightarrow> (r, dm'))"

text \<open>The headers, the chunks of the upload, and the final call.\<close>

definition serve :: "('d, 'w) env \<Rightarrow> conn \<Rightarrow> request \<Rightarrow> nat list \<Rightarrow>
    ('d, 'w) manager \<Rightarrow> reply \<times> ('d, 'w) manager" where
  "serve E c q chunks dm = rounds E c q (0 # chunks @ [0]) False dm"

section \<open>Opening and closing connections\<close>

text \<open>
  The counter is global; \<^verbatim>\<open>*socket_context\<close> of every open connection of the library points
  to its number, here a table from the library's connections.
\<close>

record ('d, 'w) server =
  dman :: "('d, 'w) manager"
  cmax :: "64 word"
  socket_context :: "(nat, conn) smap"

definition conn_started :: "nat \<Rightarrow> (('d, 'w) server, unit) act" where
  "conn_started h = (\<lambda>s.
     let cnum = cmax s; s1 = s\<lparr>cmax := cmax s + 1, socket_context := sm_put h cnum (socket_context s)\<rparr>
     in case conn_open cnum (dman s1) of (r, dm') \<Rightarrow> (r, s1\<lparr>dman := dm'\<rparr>))"

definition conn_closed :: "nat \<Rightarrow> (('d, 'w) server, unit) act" where
  "conn_closed h = (\<lambda>s. case sm_find (socket_context s) h of
      None \<Rightarrow> (Inl UB, s)
    | Some cnum \<Rightarrow> (Inr (), s\<lparr>dman := conn_close cnum (dman s),
        socket_context := sm_erase h (socket_context s)\<rparr>))"

definition conn_request :: "('d, 'w) env \<Rightarrow> nat \<Rightarrow> request \<Rightarrow> nat list \<Rightarrow>
    (('d, 'w) server, reply) act" where
  "conn_request E h q chunks = (\<lambda>s. case sm_find (socket_context s) h of
      None \<Rightarrow> (Inl UB, s)
    | Some cnum \<Rightarrow> (case serve E cnum q chunks (dman s) of (r, dm') \<Rightarrow> (Inr r, s\<lparr>dman := dm'\<rparr>)))"

section \<open>Starting the daemon\<close>

text \<open>
  What the constructor hands to \<^verbatim>\<open>MHD_start_daemon\<close>. The conversion of the address and the
  start of the daemon are parameters.
\<close>

datatype mhd_flag = MHD_USE_THREAD_PER_CONNECTION | MHD_USE_ITC

datatype mhd_option =
    MHD_OPTION_NOTIFY_CONNECTION
  | MHD_OPTION_SOCK_ADDR "32 word" "16 word"
  | MHD_OPTION_CONNECTION_LIMIT nat
  | MHD_OPTION_END

definition http_server :: "(string \<Rightarrow> 32 word result) \<Rightarrow>
    (mhd_flag list \<Rightarrow> int \<Rightarrow> mhd_option list \<Rightarrow> ('w, nat option) act) \<Rightarrow>
    string \<Rightarrow> int \<Rightarrow> bool \<Rightarrow> ('w, nat) act" where
  "http_server ip4 start addr port test =
     bind_act (lift_res (if addr \<noteq> ''*'' then map_sum id (\<lambda>a. [MHD_OPTION_SOCK_ADDR a (word_of_int port)])
          (ip4 addr) else Inr []))
     (\<lambda>sock.
        let ops = [MHD_OPTION_NOTIFY_CONNECTION] @ sock @
              (if test then [MHD_OPTION_CONNECTION_LIMIT 1] else []) @ [MHD_OPTION_END];
            flags = MHD_USE_THREAD_PER_CONNECTION # (if test then [MHD_USE_ITC] else [])
        in bind_act (start flags port ops)
          (\<lambda>d. case d of
             None \<Rightarrow> throw (''Can't start http server at '' @ addr @ '':'' @ dec_int port)
           | Some d \<Rightarrow> ok d))"

section \<open>Requests\<close>

lemma rounds_refused:
  "\<exists>u \<in> set ups. u \<noteq> 0 \<Longrightarrow> hd ups \<noteq> 0 \<Longrightarrow> req_method q = ''GET'' \<Longrightarrow>
     rounds E c q ups True dm = (MHD_NO, dm)"
  by (cases ups) (simp_all add: process_request_def)

lemma append_to_opt_cases: "append_to_opt args m = Inl UB \<or> (\<exists>m'. append_to_opt args m = Inr m')"
  by (induction args m rule: append_to_opt.induct) auto

lemma append_to_opt_values:
  "(\<forall>(k, v) \<in> set args. v \<noteq> None) \<Longrightarrow> \<exists>m'. append_to_opt args m = Inr m'"
  by (induction args m rule: append_to_opt.induct) auto



section \<open>Connections\<close>

text \<open>The servers reachable after \<open>n\<close> connections have been started.\<close>

inductive http_reach :: "('d, 'w) env \<Rightarrow> nat \<Rightarrow> ('d, 'w) server \<Rightarrow> bool" for E where
  init: "http_reach E 0 \<lparr>dman = new_manager E f w, cmax = 0, socket_context = []\<rparr>"
| started: "http_reach E n s \<Longrightarrow> sm_find (socket_context s) h = None \<Longrightarrow>
    conn_started h s = (r, s') \<Longrightarrow> http_reach E (Suc n) s'"
| request: "http_reach E n s \<Longrightarrow> sm_find (socket_context s) h = Some c \<Longrightarrow>
    conn_request E h q chunks s = (r, s') \<Longrightarrow> http_reach E n s'"
| closed: "http_reach E n s \<Longrightarrow> sm_find (socket_context s) h = Some c \<Longrightarrow>
    conn_closed h s = (r, s') \<Longrightarrow> http_reach E n s'"

text \<open>The numbers given out are below the counter, all different, and those of the manager.\<close>

definition http_inv :: "nat \<Rightarrow> ('d, 'w) server \<Rightarrow> bool" where
  "http_inv n s \<longleftrightarrow> dm_inv (dman s) \<and> smap_ok (socket_context s) \<and>
     cmax s = word_of_nat n \<and>
     (\<forall>h c. sm_find (socket_context s) h = Some c \<longrightarrow> unat c < n) \<and>
     (\<forall>h h' c. sm_find (socket_context s) h = Some c \<and> sm_find (socket_context s) h' = Some c
        \<longrightarrow> h = h') \<and>
     (\<forall>c. c \<in> open_conns (dman s) \<longleftrightarrow> (\<exists>h. sm_find (socket_context s) h = Some c))"

lemma http_inv_started:
  assumes "http_inv n s" and "sm_find (socket_context s) h = None" and "Suc n < 2 ^ 64"
    and "conn_started h s = (r, s')"
  shows "http_inv (Suc n) s' \<and> r = Inr ()"
proof -
  let ?c = "cmax s" and ?m = "socket_context s"
  obtain q m where o: "conn_open ?c (dman s) = (q, m)" by fastforce
  have inv: "dm_inv (dman s)" "smap_ok ?m" "?c = word_of_nat n" using assms(1) by (simp_all add: http_inv_def)
  have c: "unat ?c = n" using assms(3) unfolding inv(3) by (simp add: unat_of_nat)
  have new: "?c \<notin> open_conns (dman s)"
    using assms(1) c unfolding http_inv_def by (metis less_irrefl)
  have "names_inv (conn_names (dman s))" using inv(1) by (simp add: dm_inv_def)
  from conn_open_ok [OF this, of ?c] o have q: "q = Inr ()" by simp
  have m: "dm_inv m" "open_conns m = insert ?c (open_conns (dman s))"
    using set_conn_name_inv [OF inv(1) o [unfolded conn_open_def]]
      set_conn_name_open [OF o [unfolded conn_open_def]] q by simp_all
  have s': "s' = s\<lparr>cmax := ?c + 1, socket_context := sm_put h ?c ?m, dman := m\<rparr>" and r: "r = q"
    using assms(4) o by (simp_all add: conn_started_def Let_def)
  have look: "sm_find (socket_context s') h' = (if h' = h then Some ?c else sm_find ?m h')" for h'
    by (simp add: s' smap.look_put [OF inv(2)])
  have lt: "unat k < Suc n" if "sm_find (socket_context s') h' = Some k" for h' k
    using that assms(1) c by (auto simp: look http_inv_def less_Suc_eq split: if_splits)
  have inj: "h1 = h2" if "sm_find (socket_context s') h1 = Some k" "sm_find (socket_context s') h2 = Some k" for h1 h2 k
    using that assms(1) new unfolding look http_inv_def by (auto split: if_splits)
  have opn: "k \<in> open_conns m \<longleftrightarrow> (\<exists>h. sm_find (socket_context s') h = Some k)" for k
  proof -
    have "k \<in> open_conns (dman s) \<longleftrightarrow> (\<exists>h. sm_find ?m h = Some k)"
      using assms(1) unfolding http_inv_def by blast
    moreover have "sm_find ?m h' = Some k \<Longrightarrow> h' \<noteq> h" for h' using assms(2) by auto
    ultimately show ?thesis unfolding look m(2) by auto
  qed
  have "http_inv (Suc n) s'"
    unfolding http_inv_def
  proof (intro conjI allI impI)
    show "cmax s' = word_of_nat (Suc n)" by (simp add: s' inv(3))
  qed (use m(1) inv(2) lt inj opn in \<open>auto simp: s'\<close>)
  with q r show ?thesis by simp
qed

lemma process_request_inv:
  assumes "dm_inv m" and "c \<in> open_conns m"
  shows "dm_inv (snd (process_request E c q u seen m)) \<and>
    open_conns (snd (process_request E c q u seen m)) = open_conns m"
proof -
  have "snd (process_request E c q u seen m) = m \<or>
      snd (process_request E c q u seen m) = snd (dm_run E (req_url q) c m)"
    by (auto simp: process_request_def bind_act_def split: sum.splits prod.splits exn.splits)
  with dm_run_inv [OF assms] assms(1) show ?thesis by (metis prod.exhaust_sel)
qed

lemma rounds_inv:
  assumes "dm_inv m" and "c \<in> open_conns m"
  shows "dm_inv (snd (rounds E c q ups seen m)) \<and>
    open_conns (snd (rounds E c q ups seen m)) = open_conns m"
  using assms
proof (induction ups arbitrary: seen m)
  case (Cons u ups)
  obtain r seen' m' where p: "process_request E c q u seen m = ((r, seen'), m')"
    by (metis prod.exhaust)
  with process_request_inv [OF Cons.prems, of E q u seen]
  have "dm_inv m'" "open_conns m' = open_conns m" by simp_all
  with Cons.IH [of m' seen'] Cons.prems(2) p show ?case by (cases r) simp_all
qed simp

lemma http_inv_dman:
  "http_inv n s \<Longrightarrow> dm_inv m \<Longrightarrow> open_conns m = open_conns (dman s) \<Longrightarrow> http_inv n (s\<lparr>dman := m\<rparr>)"
  by (simp add: http_inv_def)

lemma http_inv_request:
  assumes "http_inv n s" and "sm_find (socket_context s) h = Some c"
    and "conn_request E h q chunks s = (r, s')"
  shows "http_inv n s'"
proof -
  have "c \<in> open_conns (dman s)" "dm_inv (dman s)" using assms(1,2) by (auto simp: http_inv_def)
  note inv = rounds_inv [OF this(2,1), of E q "0 # chunks @ [0]" False]
  have "s' = s\<lparr>dman := snd (rounds E c q (0 # chunks @ [0]) False (dman s))\<rparr>"
    using assms(2,3) by (simp add: conn_request_def serve_def del: rounds.simps split: prod.splits)
  with http_inv_dman [OF assms(1) conjunct1 [OF inv] conjunct2 [OF inv]] show ?thesis by simp
qed

lemma http_inv_closed:
  assumes "http_inv n s" and "sm_find (socket_context s) h = Some c" and "conn_closed h s = (r, s')"
  shows "http_inv n s' \<and> r = Inr ()"
proof -
  let ?m = "socket_context s"
  have "dm_inv (dman s)" using assms(1) by (simp add: http_inv_def)
  note cl = conn_close_inv [OF this, of c]
  have s': "s' = s\<lparr>dman := conn_close c (dman s), socket_context := sm_erase h ?m\<rparr>"
    and r: "r = Inr ()"
    using assms(2,3) by (simp_all add: conn_closed_def)
  have inj: "sm_find ?m h1 = Some k \<Longrightarrow> sm_find ?m h2 = Some k \<Longrightarrow> h1 = h2" for h1 h2 k
    using assms(1) unfolding http_inv_def by blast
  have opn: "k \<in> open_conns (dman s) \<longleftrightarrow> (\<exists>h. sm_find ?m h = Some k)" for k
    using assms(1) unfolding http_inv_def by blast
  have "k \<in> open_conns (dman s) - {c} \<longleftrightarrow> (\<exists>h'. h' \<noteq> h \<and> sm_find ?m h' = Some k)" for k
    using assms(2) inj by (auto simp: opn) (metis option.inject)
  then have "k \<in> open_conns (dman s') \<longleftrightarrow> (\<exists>h. sm_find (socket_context s') h = Some k)" for k
    by (simp add: s' cl(2) sm_find_erase) metis
  moreover have "dm_inv (dman s') \<and> smap_ok (socket_context s') \<and> cmax s' = word_of_nat n"
    using assms(1) cl(1) by (simp add: s' http_inv_def)
  moreover have "unat k < n" if "sm_find (socket_context s') h' = Some k" for h' k
    using assms(1) that by (auto simp: s' sm_find_erase http_inv_def split: if_splits)
  moreover have "h1 = h2" if "sm_find (socket_context s') h1 = Some k" "sm_find (socket_context s') h2 = Some k" for h1 h2 k
    using that inj by (simp add: s' sm_find_erase split: if_splits)
  ultimately show ?thesis unfolding http_inv_def using r by blast
qed

text \<open>
  C5. As long as fewer than 2^64 connections have been started, connections open at the same
  time have different numbers, the manager knows exactly the open ones, its invariant holds,
  and neither callback throws.
\<close>

theorem connections_distinct:
  assumes "http_reach E n s" and "n < 2 ^ 64"
  shows "http_inv n s"
  using assms
proof (induction rule: http_reach.induct)
  case (init f w)
  then show ?case using new_manager_inv [of E f w] by (simp add: http_inv_def)
next
  case (started n s h r s')
  then have "http_inv n s" "Suc n < 2 ^ 64" by simp_all
  then show ?case using http_inv_started started(2,3) by blast
next
  case (request n s h c q chunks r s')
  then show ?case using http_inv_request by blast
next
  case (closed n s h c r s')
  then show ?case using http_inv_closed by blast
qed

theorem connections_distinct_witness:
  "http_inv 1 (snd (conn_started 7
     \<lparr>dman = new_manager (test_env []) ''f'' 0, cmax = 0, socket_context = []\<rparr>))"
proof -
  let ?s = "\<lparr>dman = new_manager (test_env []) ''f'' 0, cmax = 0, socket_context = []\<rparr>"
  obtain r s' where st: "conn_started 7 ?s = (r, s')" by fastforce
  have "http_reach (test_env []) (Suc 0) s'"
    by (rule http_reach.started [OF http_reach.init _ st]) simp
  from connections_distinct [OF this] st show ?thesis by simp
qed

end
