(* ===== verification/Getopt.thy ===== *)
theory Getopt
  imports Opts
begin

text \<open>
  The command lines of the two programs: the tables of options \<^verbatim>\<open>main\<close> of
  \<^verbatim>\<open>server/device_d.cpp\<close> and \<^verbatim>\<open>server/device_c.cpp\<close> fills, and what their \<^verbatim>\<open>usage\<close> prints.
  \<^verbatim>\<open>parse_options\<close>, \<^verbatim>\<open>parse_options_all\<close> and the class \<^verbatim>\<open>HelpPrinter\<close> belong to the submodule and
  rest on \<^verbatim>\<open>getopt_long\<close>: they are parameters of the programs, and what is documented of the
  parser is \<open>getopt_law\<close>.
\<close>

section \<open>Options and help texts\<close>

record getopt_el =
  go_name :: string
  go_args :: nat             \<comment> \<open>how many arguments, 0 or 1\<close>
  go_val :: "char option"    \<comment> \<open>the short form\<close>
  go_group :: string
  go_desc :: string

text \<open>
  \<^verbatim>\<open>options.add(...)\<close> appends, unless the name or the short form is in the table already; the
  tables below have no such duplicate (\<open>option_tables\<close>).
\<close>

definition opt_el :: "string \<Rightarrow> string \<Rightarrow> nat \<Rightarrow> char option \<Rightarrow> string \<Rightarrow> getopt_el" where
  "opt_el gr n args v desc =
     \<lparr>go_name = n, go_args = args, go_val = v, go_group = gr, go_desc = desc\<rparr>"

datatype help_item =
    Help_name string
  | Help_usage string
  | Help_head nat string
  | Help_opts "string list"
  | Help_par string

section \<open>The server\<close>

definition server_options :: "getopt_el list" where
  "server_options = (let add = opt_el ''DEVSERV''; q = [CHR 0x27] in
     [add ''cfgfile'' 1 (Some CHR ''C'') ''Server configuration file (default: /etc/device2/device_d.cfg).'',
      add ''devfile'' 1 (Some CHR ''D'') ''Device list file (default: /etc/device2/devices.cfg).'',
      add ''addr'' 1 (Some CHR ''a'') (''IP address to listen. Use '' @ q @ ''*'' @ q @
        '' to listen everywhere (default: 127.0.0.1).''),
      add ''port'' 1 (Some CHR ''p'') ''TCP port for connections (default: 8082).'',
      add ''dofork'' 0 (Some CHR ''f'') ''Do fork and run as a daemon.'',
      add ''stop'' 0 (Some CHR ''S'') ''Stop running daemon (found by pid-file).'',
      add ''reload'' 0 (Some CHR ''R'') ''Reload configuration of running daemon (found by pid-file).'',
      add ''user'' 1 (Some CHR ''U'') ''Run as user (default: empty, do not switch user).'',
      add ''verbose'' 1 (Some CHR ''v'') (''Verbosity level: '' @
        ''0 - write nothing; '' @
        ''1 - write some information on server start/stop; '' @
        ''2 - write about opening/closing connections and devices; '' @
        ''3 - write all messages sent to devices and received from them. '' @
        '' (default: 1).''),
      add ''logfile'' 1 (Some CHR ''l'') (''Log file, '' @ q @ ''-'' @ q @ '' for stdout. '' @
        ''(default: /var/log/device_d.log in daemon mode, '' @ q @ ''-'' @ q @ '' in console mode.''),
      add ''pidfile'' 1 (Some CHR ''P'') ''Pid file (default: /var/run/device_d.pid)'',
      add ''test'' 0 None ''Test mode with connection number limited to 1.'',
      add ''help'' 0 (Some CHR ''h'') ''Print help message and exit.'',
      add ''pod'' 0 None ''Print help message in POD format and exit.''])"

definition server_help :: "help_item list" where
  "server_help =
     [Help_name ''device server'',
      Help_usage ''<options>'',
      Help_head 1 ''Options:'',
      Help_opts [''DEVSERV''],
      Help_par ''Client program: device_c(1).'',
      Help_par ''Homepage, documentation: https://github.com/slazav/device2'',
      Help_par ''V.Zavjalov, 2020, slazav at altlinux dot org'']"

section \<open>The client\<close>

definition client_options :: "getopt_el list" where
  "client_options = (let add = opt_el ''DEVCLI'' in
     [add ''server'' 1 (Some CHR ''s'') ''Server (default: localhost).'',
      add ''port'' 1 (Some CHR ''p'') ''Port (default: 8082).'',
      add ''via'' 1 (Some CHR ''v'') (''Connect to the server through a tunnel. '' @
        ''Argument: name of the gateway.''),
      add ''via_cmd'' 1 None (''Specify command template for making the tunnel, with $L, $R, $H, '' @
        ''and $G for local port, remote port, remote host and gateway. '' @
        ''Default: /usr/bin/ssh -f -L \"$L\":\"$H\":\"$R\" \"$G\" sleep 20''),
      add ''lock'' 0 (Some CHR ''l'') ''Lock the device (only for use_dev action).'',
      add ''name'' 0 (Some CHR ''n'') (''Set connection name (only for use_dev action). '' @
        ''Default: \"device_c(<pid>)\". If empty, reset to server default name''),
      add ''help'' 0 (Some CHR ''h'') ''Print help message and exit.'',
      add ''pod'' 0 None ''Print help message in POD format and exit.''])"

definition client_help :: "help_item list" where
  "client_help =
     [Help_name ''device client program'',
      Help_usage ''[<options>] ask <dev> <msg> -- send message to the device, print answer'',
      Help_usage ''[<options>] use_dev <dev>   -- SPP interface to a device'',
      Help_usage ''[<options>] use_srv         -- SPP interface to the server'',
      Help_usage ''[<options>] (list|devices)  -- print list of available devices'',
      Help_usage ''[<options>] info <dev>      -- print information about device'',
      Help_usage ''[<options>] reload          -- reload device configuration'',
      Help_usage ''[<options>] close <dev>     -- close device (it will be reopened if needed)'',
      Help_usage ''[<options>] monitor <dev>   -- monitor all communication of the device'',
      Help_usage ''[<options>] ping            -- check if the server is working'',
      Help_usage ''[<options>] get_time        -- get server system time'',
      Help_usage ''[<options>] get_srv         -- get server address'',
      Help_head 1 ''Options:'',
      Help_opts [''DEVCLI''],
      Help_par ''Server program: device_d(1).'',
      Help_par ''Homepage, documentation: https://github.com/slazav/device2'',
      Help_par ''V.Zavjalov, 2020, slazav at altlinux dot org'']"

section \<open>The tables\<close>

lemma option_tables:
  "distinct (map go_name server_options)" "distinct (filter (\<lambda>v. v \<noteq> None) (map go_val server_options))"
  "distinct (map go_name client_options)" "distinct (filter (\<lambda>v. v \<noteq> None) (map go_val client_options))"
  by (simp_all add: server_options_def client_options_def opt_el_def Let_def)

lemma option_names:
  "map go_name server_options = [''cfgfile'', ''devfile'', ''addr'', ''port'', ''dofork'', ''stop'', ''reload'',
     ''user'', ''verbose'', ''logfile'', ''pidfile'', ''test'', ''help'', ''pod'']"
  "map go_name client_options = [''server'', ''port'', ''via'', ''via_cmd'', ''lock'', ''name'', ''help'', ''pod'']"
  by (simp_all add: server_options_def client_options_def opt_el_def Let_def)

text \<open>
  What a parser makes of a table: a well-formed set of options with the names of the table,
  and an option without an argument has the value \<open>1\<close>.
\<close>

definition getopt_law :: "(getopt_el list \<Rightarrow> 'a \<Rightarrow> (opt \<times> string list) result) \<Rightarrow> bool" where
  "getopt_law P \<longleftrightarrow> (\<forall>t a m r. P t a = Inr (m, r) \<longrightarrow> smap_ok m \<and>
     (\<forall>k v. sm_find m k = Some v \<longrightarrow> (\<exists>o1 \<in> set t. go_name o1 = k \<and> (go_args o1 = 0 \<longrightarrow> v = ''1''))))"

end
