(* ===== verification/Device_D.thy ===== *)
theory Device_D
  imports Http_Server Getopt
begin

text \<open>
  \<^verbatim>\<open>server/device_d.cpp\<close>: the server program. The calls of the operating system, libmicrohttpd
  and the functions of the submodule (the parser of the command line, the help printer,
  \<^verbatim>\<open>read_conf\<close> of the server configuration, the log) are the parameter \<open>daemon_sys\<close>; the table of
  options and the help text are in \<open>Getopt\<close>.

  What happens while the main loop sleeps is a list of events: signals, and what the HTTP
  library calls. Requests run one after the other here; \<open>Device_Threads\<close> is about the
  interleaving of their threads.
\<close>

record 'w daemon_sys =
  daemon_parse :: "getopt_el list \<Rightarrow> string list \<Rightarrow> (opt \<times> string list) result"  \<comment> \<open>\<^verbatim>\<open>parse_options_all\<close>\<close>
  daemon_print :: "bool \<Rightarrow> getopt_el list \<Rightarrow> string \<Rightarrow> help_item list \<Rightarrow> 'w \<Rightarrow> 'w"  \<comment> \<open>\<^verbatim>\<open>HelpPrinter\<close>\<close>
  daemon_conf :: "string \<Rightarrow> string list \<Rightarrow> 'w \<Rightarrow> (string + opt) \<times> 'w"   \<comment> \<open>\<^verbatim>\<open>read_conf\<close>\<close>
  sys_error :: "nat \<Rightarrow> string"                          \<comment> \<open>\<^verbatim>\<open>strerror\<close>\<close>
  getpwnam :: "string \<Rightarrow> 'w \<Rightarrow> (string \<times> nat \<times> nat) option"  \<comment> \<open>name, user id, group id\<close>
  getgrouplist :: "string \<Rightarrow> nat \<Rightarrow> nat \<Rightarrow> 'w \<Rightarrow> int \<times> nat list \<times> nat"
      \<comment> \<open>of a name, a group and the room there is: the result, the groups stored, their number\<close>
  setgroups :: "nat list \<Rightarrow> ('w, unit) sys"
  setgid :: "nat \<Rightarrow> ('w, unit) sys"
  setuid :: "nat \<Rightarrow> ('w, unit) sys"
  set_log_file :: "string \<Rightarrow> 'w \<Rightarrow> (string + unit) \<times> 'w"
  set_log_level :: "int \<Rightarrow> 'w \<Rightarrow> 'w"
  log_line :: "nat \<Rightarrow> string \<Rightarrow> 'w \<Rightarrow> 'w"                 \<comment> \<open>\<^verbatim>\<open>Log(n) <<\<close>\<close>
  read_file :: "string \<Rightarrow> 'w \<Rightarrow> string option"           \<comment> \<open>\<open>None\<close>: the stream does not open\<close>
  open_out :: "string \<Rightarrow> 'w \<Rightarrow> bool \<times> 'w"               \<comment> \<open>\<^verbatim>\<open>std::ofstream\<close>\<close>
  write_out :: "string \<Rightarrow> string \<Rightarrow> 'w \<Rightarrow> 'w"
  remove_file :: "string \<Rightarrow> 'w \<Rightarrow> 'w"
  kill :: "int \<Rightarrow> nat \<Rightarrow> ('w, unit) sys"
  usleep :: "nat \<Rightarrow> 'w \<Rightarrow> 'w"
  fork :: "('w, nat) sys"                              \<comment> \<open>0 in the child\<close>
  umask :: "nat \<Rightarrow> 'w \<Rightarrow> 'w"
  setsid :: "('w, unit) sys"
  close_fd :: "nat \<Rightarrow> 'w \<Rightarrow> 'w"
  getpid :: "'w \<Rightarrow> nat"
  sigaction :: "nat \<Rightarrow> ('w, unit) sys"
  ip4 :: "string \<Rightarrow> 32 word result"                    \<comment> \<open>\<^verbatim>\<open>str_to_type_ip4\<close>\<close>
  mhd_start :: "mhd_flag list \<Rightarrow> int \<Rightarrow> mhd_option list \<Rightarrow> ('w, nat option) act"
  mhd_stop :: "nat \<Rightarrow> 'w \<Rightarrow> 'w"

definition SIGHUP :: nat where "SIGHUP = 1"
definition SIGINT :: nat where "SIGINT = 2"
definition SIGQUIT :: nat where "SIGQUIT = 3"
definition SIGTERM :: nat where "SIGTERM = 15"
definition ESRCH :: nat where "ESRCH = 3"

text \<open>A call of the submodule answers or throws an \<^verbatim>\<open>Err\<close>.\<close>

definition err_call :: "('w \<Rightarrow> (string + 'a) \<times> 'w) \<Rightarrow> ('w, 'a) act" where
  "err_call f = (\<lambda>w. case f w of (Inl m, w1) \<Rightarrow> (Inl (Err m), w1) | (Inr x, w1) \<Rightarrow> (Inr x, w1))"

text \<open>An exception with a text of the program in front of the reason.\<close>

definition errno_check :: "'w daemon_sys \<Rightarrow> string \<Rightarrow> ('w, 'a) sys \<Rightarrow> ('w, 'a) act" where
  "errno_check D pref f = (\<lambda>w. case f w of
      (Inl en, w1) \<Rightarrow> (Inl (Err (pref @ sys_error D en)), w1)
    | (Inr x, w1) \<Rightarrow> (Inr x, w1))"

text \<open>The same without a reason.\<close>

definition call_check :: "string \<Rightarrow> ('w, 'a) sys \<Rightarrow> ('w, 'a) act" where
  "call_check m f = (\<lambda>w. case f w of
      (Inl en, w1) \<Rightarrow> (Inl (Err m), w1)
    | (Inr x, w1) \<Rightarrow> (Inr x, w1))"

definition log_to :: "'w daemon_sys \<Rightarrow> nat \<Rightarrow> string \<Rightarrow> ('w, unit) act" where
  "log_to D n s = (\<lambda>w. (Inr (), log_line D n s w))"

section \<open>Reading a number from a stream\<close>

text \<open>
  \<^verbatim>\<open>pf >> pid\<close>: white space is skipped; at the end of the file nothing is stored and the
  variable, which has no initial value, stays so (\<open>None\<close>). Otherwise a value is always stored:
  zero if there are no digits, the nearest bound if there are too many.
\<close>

definition is_space :: "char \<Rightarrow> bool" where
  "is_space c \<longleftrightarrow> c \<in> {CHR 0x20, CHR 0x09, CHR 0x0A, CHR 0x0B, CHR 0x0C, CHR 0x0D}"

definition is_digit :: "char \<Rightarrow> bool" where
  "is_digit c \<longleftrightarrow> CHR ''0'' \<le> c \<and> c \<le> CHR ''9''"

definition clamp32 :: "int \<Rightarrow> int" where
  "clamp32 i = max (- 2147483648) (min 2147483647 i)"

definition stream_int :: "string \<Rightarrow> int option" where
  "stream_int t = (case dropWhile is_space t of
      [] \<Rightarrow> None
    | c # r \<Rightarrow> Some (clamp32
        (if c = CHR ''-'' then - int (undec (takeWhile is_digit r))
         else if c = CHR ''+'' then int (undec (takeWhile is_digit r))
         else int (undec (takeWhile is_digit (c # r))))))"

section \<open>The steps of the start\<close>

definition switch_user :: "'w daemon_sys \<Rightarrow> string \<Rightarrow> ('w, unit) act" where
  "switch_user D user = (\<lambda>w. case getpwnam D (c_str user) w of
      None \<Rightarrow> (Inl (Err (''unknown user: '' @ user)), w)
    | Some (pw_name, pw_uid, pw_gid) \<Rightarrow>
        let groups = (case getgrouplist D pw_name pw_gid 16 w of
              (r, gs, n) \<Rightarrow> if r < 0 then fst (snd (getgrouplist D pw_name pw_gid n w)) else gs);
            cant = ''can't switch to another user: '' @ user @ '': ''
        in bind_act (errno_check D (''can't set groups for user: '' @ user @ '': '') (setgroups D groups)) (\<lambda>_.
           bind_act (errno_check D cant (setgid D pw_uid)) (\<lambda>_.
           errno_check D cant (setuid D pw_uid))) w)"

text \<open>Waiting for the end of a process never returns if the process does not end.\<close>

partial_function (option) wait_gone :: "'w daemon_sys \<Rightarrow> int \<Rightarrow> 'w \<Rightarrow> (unit result \<times> 'w) option" where
  "wait_gone D pid w = (case kill D pid 0 w of
      (Inr u, w1) \<Rightarrow> wait_gone D pid (usleep D 1000 w1)
    | (Inl en, w1) \<Rightarrow> Some (Inr (), w1))"

definition stop_or_reload :: "'w daemon_sys \<Rightarrow> string \<Rightarrow> bool \<Rightarrow> ('w, unit) act" where
  "stop_or_reload D pidfile stop = (\<lambda>w. case read_file D pidfile w of
      None \<Rightarrow> (Inl (Err (''can't open pid-file: '' @ pidfile)), w)
    | Some t \<Rightarrow> (case stream_int t of
        None \<Rightarrow> (Inl UB, w)
      | Some pid \<Rightarrow> (case kill D pid (if stop then SIGTERM else SIGHUP) w of
          (Inr u, w1) \<Rightarrow> (if stop then or_hang (wait_gone D pid) w1 else (Inr (), w1))
        | (Inl en, w1) \<Rightarrow> if en = ESRCH then (Inr (), remove_file D pidfile w1)
            else (Inl (Err (''can't stop device_d process '' @ dec_int pid @ '': '' @ sys_error D en)), w1))))"

definition check_pid :: "'w daemon_sys \<Rightarrow> string \<Rightarrow> ('w, unit) act" where
  "check_pid D pidfile = (\<lambda>w. case read_file D pidfile w of
      None \<Rightarrow> (Inr (), w)
    | Some t \<Rightarrow> (case stream_int t of
        None \<Rightarrow> (Inl UB, w)
      | Some pid \<Rightarrow> (case kill D pid 0 w of
          (Inr u, w1) \<Rightarrow> (Inl (Err (''device_d already running (pid-file exists): '' @ dec_int pid)), w1)
        | (Inl en, w1) \<Rightarrow> (Inr (), remove_file D pidfile w1))))"

text \<open>The answer says whether this is the parent, which returns from \<^verbatim>\<open>main\<close> at once.\<close>

definition daemonize :: "'w daemon_sys \<Rightarrow> ('w, bool) act" where
  "daemonize D = bind_act (call_check ''can't do fork'' (fork D)) (\<lambda>pid.
     if 0 < pid then ok True
     else (\<lambda>w. bind_act (call_check ''can't get SID'' (setsid D))
             (\<lambda>_ w1. (Inr False, close_fd D 2 (close_fd D 1 (close_fd D 0 w1)))) (umask D 18 w)))"

definition set_signals :: "'w daemon_sys \<Rightarrow> ('w, unit) act" where
  "set_signals D = (let chk = (\<lambda>n. call_check ''can't set signal handler'' (sigaction D n)) in
     bind_act (chk SIGTERM) (\<lambda>_. bind_act (chk SIGQUIT) (\<lambda>_. bind_act (chk SIGINT) (\<lambda>_. chk SIGHUP))))"

section \<open>The main loop\<close>

text \<open>
  The handlers run in the thread that sleeps: what they throw leaves the loop. An exception in
  a callback of the HTTP library ends the program, which is \<open>Aborted\<close>.
\<close>

datatype daemon_event =
    Stop_func
  | Reload_func
  | Conn_start nat
  | Conn_end nat
  | Conn_request nat request "nat list"

datatype loop_end = Running | Stopped | Threw string | Aborted

fun main_loop :: "('d, 'w) env \<Rightarrow> daemon_event list \<Rightarrow> ('d, 'w) server \<Rightarrow> loop_end \<times> ('d, 'w) server" where
  "main_loop E [] s = (Running, s)"
| "main_loop E (Stop_func # evs) s = (Stopped, s)"
| "main_loop E (Reload_func # evs) s = (case read_conf E (dman s) of
      (Inr u, dm) \<Rightarrow> main_loop E evs (s\<lparr>dman := dm\<rparr>)
    | (Inl (Err m), dm) \<Rightarrow> (Threw m, s\<lparr>dman := dm\<rparr>)
    | (Inl x, dm) \<Rightarrow> (Aborted, s\<lparr>dman := dm\<rparr>))"
| "main_loop E (Conn_start h # evs) s = (case conn_started h s of
      (Inr u, s1) \<Rightarrow> main_loop E evs s1 | (Inl x, s1) \<Rightarrow> (Aborted, s1))"
| "main_loop E (Conn_end h # evs) s = (case conn_closed h s of
      (Inr u, s1) \<Rightarrow> main_loop E evs s1 | (Inl x, s1) \<Rightarrow> (Aborted, s1))"
| "main_loop E (Conn_request h q chunks # evs) s = (case conn_request E h q chunks s of
      (Inr (Crash x), s1) \<Rightarrow> (if x = Hang then Running else Aborted, s1)
    | (Inr r, s1) \<Rightarrow> main_loop E evs s1
    | (Inl x, s1) \<Rightarrow> (Aborted, s1))"

text \<open>
  The destructor of the server: \<^verbatim>\<open>MHD_stop_daemon\<close> closes what is open and calls \<^verbatim>\<open>ConnFunc\<close>
  for each. Then the manager is destroyed.
\<close>

definition http_stop :: "'w daemon_sys \<Rightarrow> nat \<Rightarrow> ('d, 'w) server \<Rightarrow> ('d, 'w) server" where
  "http_stop D d s = (let s1 = foldl (\<lambda>s h. snd (conn_closed h s)) s (map fst (socket_context s))
     in s1\<lparr>dman := (dman s1)\<lparr>world := mhd_stop D d (world (dman s1))\<rparr>\<rparr>)"

definition shut_down :: "'w daemon_sys \<Rightarrow> ('d, 'w) env \<Rightarrow> nat \<Rightarrow> ('d, 'w) server \<Rightarrow> 'w" where
  "shut_down D E d s = delete_manager E (dman (http_stop D d s))"

text \<open>How \<^verbatim>\<open>main\<close> is left: by \<^verbatim>\<open>return\<close> inside the \<^verbatim>\<open>try\<close> block, or at its end.\<close>

datatype main_end = Returned int | Ended int | Still_running | Killed

definition run_server :: "'w daemon_sys \<Rightarrow> ('d, 'w) env \<Rightarrow> string \<Rightarrow> string \<Rightarrow> int \<Rightarrow> bool \<Rightarrow>
    daemon_event list \<Rightarrow> ('w, main_end) act" where
  "run_server D E file addr port test evs = (\<lambda>w.
     let dm = new_manager E file w; server = (\<lambda>w. \<lparr>dman = dm\<lparr>world := w\<rparr>, cmax = 0, socket_context = []\<rparr>) in
     case http_server (ip4 D) (mhd_start D) addr port test (world dm) of
       (Inl e, w1) \<Rightarrow> (Inl e, delete_manager E (dm\<lparr>world := w1\<rparr>))
     | (Inr d, w1) \<Rightarrow>
         let w2 = log_line D 1 (''HTTP server is running at '' @ addr @ '':'' @ dec_int port) w1;
             w3 = (if test then log_line D 1 ''TESTING MODE'' w2 else w2)
         in (case set_signals D w3 of
               (Inl e, w4) \<Rightarrow> (Inl e, shut_down D E d (server w4))
             | (Inr u, w4) \<Rightarrow> (case main_loop E evs (server w4) of
                   (Running, s) \<Rightarrow> (Inr Still_running, world (dman s))
                 | (Aborted, s) \<Rightarrow> (Inr Killed, world (dman s))
                 | (Threw m, s) \<Rightarrow> (Inl (Err m), shut_down D E d s)
                 | (Stopped, s) \<Rightarrow> (Inr (Ended 0), shut_down D E d
                     (s\<lparr>dman := (dman s)\<lparr>world := log_line D 1 ''Stopping HTTP server'' (world (dman s))\<rparr>\<rparr>)))))"

section \<open>The program\<close>

text \<open>The variables of \<^verbatim>\<open>main\<close> that outlive the \<^verbatim>\<open>try\<close> block.\<close>

record 'w main_vars =
  mypid :: bool
  pidfile :: string
  outer :: 'w

definition outside :: "('w, 'a) act \<Rightarrow> ('w main_vars, 'a) act" where
  "outside f = (\<lambda>s. case f (outer s) of (r, w) \<Rightarrow> (r, s\<lparr>outer := w\<rparr>))"

definition write_pidfile :: "'w daemon_sys \<Rightarrow> bool \<Rightarrow> ('w main_vars, unit) act" where
  "write_pidfile D dofork = (\<lambda>s. let pid = dec (getpid D (outer s)) in
     case open_out D (pidfile s) (outer s) of
       (False, w1) \<Rightarrow> (Inl (Err (''can't open pid-file: '' @ pidfile s)), s\<lparr>outer := w1\<rparr>)
     | (True, w1) \<Rightarrow>
         let w2 = log_line D 1 (''Starting device_d in '' @ (if dofork then ''daemon'' else ''console'') @
                    '' mode, pid='' @ pid) w1
         in (Inr (), s\<lparr>mypid := True, outer := write_out D (pidfile s) pid w2\<rparr>))"

definition conf_names :: "string list" where
  "conf_names = [''addr'', ''port'', ''logfile'', ''pidfile'', ''devfile'', ''user'', ''verbose'']"

text \<open>The help message goes to the output, then an exception with an empty message is thrown.\<close>

definition server_usage :: "'w daemon_sys \<Rightarrow> bool \<Rightarrow> ('w, 'a) act" where
  "server_usage D pod = (\<lambda>w. (Inl (Err []), daemon_print D pod server_options ''device_d'' server_help w))"

text \<open>What follows once the parameters are known.\<close>

definition start_server :: "'w daemon_sys \<Rightarrow> ('d, 'w) env \<Rightarrow> bool \<Rightarrow> string \<Rightarrow> string \<Rightarrow> int \<Rightarrow> bool \<Rightarrow>
    daemon_event list \<Rightarrow> ('w main_vars, main_end) act" where
  "start_server D E dofork file addr port test evs =
     bind_act (\<lambda>s. outside (check_pid D (pidfile s)) s) (\<lambda>_.
     bind_act (outside (if dofork then daemonize D else ok False)) (\<lambda>parent.
       if parent then ok (Returned 0)
       else bind_act (write_pidfile D dofork) (\<lambda>_. outside (run_server D E file addr port test evs))))"

definition device_body :: "'w daemon_sys \<Rightarrow> ('d, 'w) env \<Rightarrow> 'f conv \<Rightarrow> opt \<Rightarrow> string list \<Rightarrow>
    daemon_event list \<Rightarrow> ('w main_vars, main_end) act" where
  "device_body D E F opts0 nonopt evs =
     (if nonopt \<noteq> [] then throw (''unexpected argument: '' @ nonopt ! 0)
      else if opt_exists opts0 ''help'' then outside (server_usage D False)
      else if opt_exists opts0 ''pod'' then outside (server_usage D True)
      else bind_act (outside (err_call (daemon_conf D (opt_get opts0 ''cfgfile'' ''/etc/device2/device_d.cfg'') conf_names))) (\<lambda>optsf.
        let opts = put_missing_all opts0 optsf; addr = opt_get opts ''addr'' ''127.0.0.1'' in
        bind_act (lift_res (opt_get_as (p_int F) opts ''port'' 8082)) (\<lambda>port.
        let dofork = opt_exists opts ''dofork''; stop = opt_exists opts ''stop'';
            reload = opt_exists opts ''reload'' in
        bind_act (lift_res (opt_get_as (p_int F) opts ''verbose'' 1)) (\<lambda>verb.
        let logfile = opt_get opts ''logfile'' [];
            file = opt_get opts ''devfile'' ''/etc/device2/devices.cfg'' in
        bind_act (\<lambda>s. (Inr (), s\<lparr>pidfile := opt_get opts ''pidfile'' ''/var/run/device_d.pid''\<rparr>)) (\<lambda>_.
        bind_act (lift_res (opt_get_as (p_bool F) opts ''test'' False)) (\<lambda>test.
        let user = opt_get opts ''user'' [] in
        bind_act (outside (if user \<noteq> [] then switch_user D user else ok ())) (\<lambda>_.
        let log = (if logfile = [] then if dofork then ''/var/log/device_d.log'' else ''-'' else logfile) in
        bind_act (outside (err_call (set_log_file D log))) (\<lambda>_.
        bind_act (outside (\<lambda>w. (Inr (), set_log_level D verb w))) (\<lambda>_.
        if stop \<or> reload
        then bind_act (\<lambda>s. outside (stop_or_reload D (pidfile s) stop) s) (\<lambda>_. ok (Returned 0))
        else start_server D E dofork file addr port test evs)))))))))"

text \<open>The end of \<^verbatim>\<open>main\<close>, after the \<^verbatim>\<open>try\<close> block and its \<^verbatim>\<open>catch\<close>.\<close>

definition finish_main :: "'w daemon_sys \<Rightarrow> int \<Rightarrow> 'w main_vars \<Rightarrow> main_end result \<times> 'w" where
  "finish_main D ret s = (Inr (Returned ret),
     if mypid s \<and> pidfile s \<noteq> [] then remove_file D (pidfile s) (outer s) else outer s)"

definition device_main :: "'w daemon_sys \<Rightarrow> ('d, 'w) env \<Rightarrow> 'f conv \<Rightarrow> string list \<Rightarrow>
    daemon_event list \<Rightarrow> ('w, main_end) act" where
  "device_main D E F argv evs = (\<lambda>w.
     case bind_act (lift_res (daemon_parse D server_options argv))
         (\<lambda>(opts, nonopt). device_body D E F opts nonopt evs) \<lparr>mypid = False, pidfile = [], outer = w\<rparr> of
       (Inl (Err e), s) \<Rightarrow>
         finish_main D 1 (if e \<noteq> [] then s\<lparr>outer := log_line D 0 (''Error: '' @ e) (outer s)\<rparr> else s)
     | (Inl x, s) \<Rightarrow> (Inl x, outer s)
     | (Inr (Ended ret), s) \<Rightarrow> finish_main D ret s
     | (Inr e, s) \<Rightarrow> (Inr e, outer s))"

end
