(* ===== verification/Daemon_Props.thy ===== *)
theory Daemon_Props
  imports Device_D
begin

text \<open>
  The server program keeps its pid file in order, it can be stopped, and it survives what its
  clients do. The file system and the processes are behind the parameter \<open>daemon_sys\<close>; what the
  program relies on is stated with each theorem.
\<close>

section \<open>Before and after\<close>

text \<open>
  From a state with \<open>P\<close> the operation ends in a state with \<open>Q\<close>, or throws into a state with \<open>X\<close>.
\<close>

definition sat :: "('s \<Rightarrow> bool) \<Rightarrow> ('s, 'a) act \<Rightarrow> ('a \<Rightarrow> 's \<Rightarrow> bool) \<Rightarrow> (exn \<Rightarrow> 's \<Rightarrow> bool) \<Rightarrow> bool" where
  "sat P f Q X \<longleftrightarrow> (\<forall>s. P s \<longrightarrow> (case f s of (Inr x, s') \<Rightarrow> Q x s' | (Inl e, s') \<Rightarrow> X e s'))"

named_theorems sat_rules "one rule for each way to build an operation"

lemma sat_bind [sat_rules]: "\<lbrakk> sat P f R X; \<And>x. sat (R x) (g x) Q X \<rbrakk> \<Longrightarrow> sat P (bind_act f g) Q X"
  unfolding sat_def bind_act_def by (fastforce split: prod.splits sum.splits)

lemma sat_ok [sat_rules]: "(\<And>s. P s \<Longrightarrow> Q x s) \<Longrightarrow> sat P (ok x) Q X"
  by (simp add: sat_def)

lemma sat_throw [sat_rules]: "(\<And>s. P s \<Longrightarrow> X (Err m) s) \<Longrightarrow> sat P (throw m) Q X"
  by (simp add: sat_def)

lemma sat_lift [sat_rules]:
  "\<lbrakk> \<And>x s. P s \<Longrightarrow> Q x s; \<And>e s. r = Inl e \<Longrightarrow> P s \<Longrightarrow> X e s \<rbrakk> \<Longrightarrow> sat P (lift_res r) Q X"
  by (cases r) (simp_all add: sat_def)

lemma sat_if [sat_rules]:
  "\<lbrakk> b \<Longrightarrow> sat P f Q X; \<not> b \<Longrightarrow> sat P g Q X \<rbrakk> \<Longrightarrow> sat P (if b then f else g) Q X"
  by simp

lemma satD: "sat P f Q X \<Longrightarrow> P s \<Longrightarrow> f s = (Inr x, s') \<Longrightarrow> Q x s'"
  and satE: "sat P f Q X \<Longrightarrow> P s \<Longrightarrow> f s = (Inl e, s') \<Longrightarrow> X e s'"
  by (auto simp: sat_def)

lemma sat_weaken:
  "\<lbrakk> sat P f Q X; \<And>s. P' s \<Longrightarrow> P s; \<And>x s. Q x s \<Longrightarrow> Q' x s; \<And>e s. X e s \<Longrightarrow> X' e s \<rbrakk> \<Longrightarrow> sat P' f Q' X'"
  unfolding sat_def by (fastforce split: prod.splits sum.splits)

text \<open>An operation that keeps a predicate, whatever it throws, and throws nothing but \<open>Err\<close>.\<close>

definition keeps :: "('s \<Rightarrow> bool) \<Rightarrow> ('s, 'a) act \<Rightarrow> bool" where
  "keeps P f = sat P f (\<lambda>_. P) (\<lambda>e s. P s \<and> (\<exists>m. e = Err m))"

section \<open>What the calls leave alone\<close>

text \<open>
  The calls the program makes before it creates its pid file, each of which leaves alone what
  \<open>P\<close> says: they configure the log, the user and the daemon mode, and a file that cannot be
  opened for writing is not changed.
\<close>

definition calls_keep :: "'w daemon_sys \<Rightarrow> ('w \<Rightarrow> bool) \<Rightarrow> bool" where
  "calls_keep D P \<longleftrightarrow> (\<forall>w. P w \<longrightarrow>
     (\<forall>f ns. P (snd (daemon_conf D f ns w))) \<and> (\<forall>gs. P (snd (setgroups D gs w))) \<and>
     (\<forall>u. P (snd (setgid D u w)) \<and> P (snd (setuid D u w))) \<and>
     (\<forall>f. P (snd (set_log_file D f w))) \<and> (\<forall>v. P (set_log_level D v w)) \<and>
     (\<forall>n m. P (log_line D n m w)) \<and> (\<forall>p. P (snd (kill D p 0 w))) \<and>
     P (snd (fork D w)) \<and> (\<forall>m. P (umask D m w)) \<and> P (snd (setsid D w)) \<and>
     (\<forall>n. P (close_fd D n w)) \<and> (\<forall>b t n h. P (daemon_print D b t n h w)) \<and> (\<forall>f. \<not> fst (open_out D f w) \<longrightarrow> P (snd (open_out D f w))))"

lemma calls_keepD:
  assumes "calls_keep D P" and "P w"
  shows "P (snd (daemon_conf D f ns w))" "P (snd (setgroups D gs w))" "P (snd (setgid D u w))"
    "P (snd (setuid D u w))" "P (snd (set_log_file D f w))" "P (set_log_level D v w)"
    "P (log_line D n m w)" "P (snd (kill D p 0 w))" "P (snd (fork D w))" "P (umask D k w)"
    "P (snd (setsid D w))" "P (close_fd D n w)"
    "\<not> fst (open_out D f w) \<Longrightarrow> P (snd (open_out D f w))"
    "P (daemon_print D b tab name h w)"
  using assms by (simp_all add: calls_keep_def)

lemma keeps_err_call: "(\<And>w. P w \<Longrightarrow> P (snd (f w))) \<Longrightarrow> keeps P (err_call f)"
  by (force simp: keeps_def sat_def err_call_def split: prod.splits sum.splits)

lemma keeps_errno: "(\<And>w. P w \<Longrightarrow> P (snd (f w))) \<Longrightarrow> keeps P (errno_check D m f)"
  by (force simp: keeps_def sat_def errno_check_def split: prod.splits sum.splits)

lemma keeps_call: "(\<And>w. P w \<Longrightarrow> P (snd (f w))) \<Longrightarrow> keeps P (call_check m f)"
  by (force simp: keeps_def sat_def call_check_def split: prod.splits sum.splits)

lemma keeps_bind: "keeps P f \<Longrightarrow> (\<And>x. keeps P (g x)) \<Longrightarrow> keeps P (bind_act f g)"
  unfolding keeps_def by (rule sat_bind)

lemma keeps_ok: "keeps P (ok x)"
  by (simp add: keeps_def sat_def)

lemma keeps_apply: "keeps P f \<Longrightarrow> P w \<Longrightarrow> P (snd (f w))"
  by (cases "f w"; cases "fst (f w)") (auto simp: keeps_def sat_def dest!: spec [of _ w])

lemma keeps_after: "keeps P f \<Longrightarrow> (\<And>w. P w \<Longrightarrow> P (g w)) \<Longrightarrow> keeps P (\<lambda>w. f (g w))"
  by (simp add: keeps_def sat_def)

lemma switch_user_keeps:
  assumes "calls_keep D P"
  shows "keeps P (switch_user D user)"
proof -
  note c = calls_keepD [OF assms]
  have "keeps P (bind_act (errno_check D a (setgroups D gs)) (\<lambda>_.
      bind_act (errno_check D b (setgid D u)) (\<lambda>_. errno_check D b (setuid D u))))" for a b gs u
    by (intro keeps_bind keeps_errno c)
  then show ?thesis
    unfolding keeps_def sat_def switch_user_def
    by (auto split: option.splits simp: Let_def)
qed

lemma daemonize_keeps:
  assumes "calls_keep D P"
  shows "keeps P (daemonize D)"
proof -
  note c = calls_keepD [OF assms]
  have "keeps P (\<lambda>w1. (Inr False, close_fd D 2 (close_fd D 1 (close_fd D 0 w1))))"
    by (simp add: keeps_def sat_def c(12))
  then have "keeps P (\<lambda>w. bind_act (call_check m (setsid D))
      (\<lambda>_ w1. (Inr False, close_fd D 2 (close_fd D 1 (close_fd D 0 w1)))) (umask D 18 w))" for m
    by (intro keeps_after [where g = "umask D 18"] keeps_bind keeps_call c)
  then show ?thesis
    unfolding daemonize_def by (intro keeps_bind keeps_call c) (simp_all add: keeps_ok)
qed

section \<open>Before the pid file is written\<close>

text \<open>The number conversions of the submodule throw \<^verbatim>\<open>Err\<close> and nothing else.\<close>

definition conv_throws :: "'f conv \<Rightarrow> bool" where
  "conv_throws F \<longleftrightarrow> (\<forall>t x. p_int F t = Inl x \<or> p_bool F t = Inl x \<longrightarrow> (\<exists>m. x = Err m))"

text \<open>\<^verbatim>\<open>read_conf\<close> gives no option but the ones it was told.\<close>

definition conf_known :: "'w daemon_sys \<Rightarrow> bool" where
  "conf_known D \<longleftrightarrow> (\<forall>f ns w m w'. daemon_conf D f ns w = (Inr m, w') \<longrightarrow> fst ` set m \<subseteq> set ns)"

definition early :: "('w \<Rightarrow> bool) \<Rightarrow> 'w main_vars \<Rightarrow> bool" where
  "early P s \<longleftrightarrow> \<not> mypid s \<and> P (outer s)"

lemma sat_keeps:
  "keeps I f \<Longrightarrow> (\<And>m s. I s \<Longrightarrow> X (Err m) s) \<Longrightarrow> (\<And>x s. I s \<Longrightarrow> Q x s) \<Longrightarrow> sat I f Q X"
  unfolding keeps_def by (erule sat_weaken) auto

lemma sat_bind_keeps:
  "keeps I f \<Longrightarrow> (\<And>m s. I s \<Longrightarrow> X (Err m) s) \<Longrightarrow> (\<And>x. sat I (g x) Q X) \<Longrightarrow> sat I (bind_act f g) Q X"
  by (rule sat_bind [where R = "\<lambda>_. I"], rule sat_keeps)

lemma sat_pre: "(K \<Longrightarrow> sat I f Q X) \<Longrightarrow> sat (\<lambda>s. I s \<and> K) f Q X"
  by (auto simp: sat_def)

lemma keeps_lift: "(\<And>e. r = Inl e \<Longrightarrow> \<exists>m. e = Err m) \<Longrightarrow> keeps I (lift_res r)"
  by (cases r) (simp_all add: keeps_def sat_def)

lemma opt_get_keeps:
  assumes "conv_throws F"
  shows "keeps I (lift_res (opt_get_as (p_int F) m j d))" "keeps I (lift_res (opt_get_as (p_bool F) m j b))"
  using assms by (auto intro!: keeps_lift simp: opt_get_as_def conv_throws_def split: option.splits)

lemma keeps_outside_early: "keeps P f \<Longrightarrow> keeps (early P) (outside f)"
  unfolding keeps_def sat_def outside_def early_def by (fastforce split: prod.splits sum.splits)

lemma keeps_outside: "keeps P f \<Longrightarrow> keeps (\<lambda>s. early P s \<and> pidfile s = pf) (outside f)"
  unfolding keeps_def sat_def outside_def early_def by (fastforce split: prod.splits sum.splits)

lemma put_missing_all_ok: "smap_ok m \<Longrightarrow> smap_ok (put_missing_all m m')"
  by (induction m' arbitrary: m) (auto simp: put_missing_all_def)

lemma put_missing_all_find:
  "smap_ok m \<Longrightarrow> sm_find m k = Some v \<Longrightarrow> sm_find (put_missing_all m m') k = Some v"
proof (induction m' arbitrary: m)
  case (Cons a m')
  obtain j u where a: "a = (j, u)" by fastforce
  have "sm_find (opt_put_missing j u m) k = Some v" using Cons.prems by (cases "k = j") simp_all
  with Cons a show ?case by (simp add: put_missing_all_def)
qed (simp add: put_missing_all_def)

lemma put_missing_all_exists:
  "smap_ok m \<Longrightarrow> opt_exists (put_missing_all m m') k \<Longrightarrow> opt_exists m k \<or> k \<in> fst ` set m'"
proof (induction m' arbitrary: m)
  case (Cons a m')
  obtain j v where a: "a = (j, v)" by fastforce
  from Cons.IH [of "opt_put_missing j v m"] Cons.prems a
  have "opt_exists (opt_put_missing j v m) k \<or> k \<in> fst ` set m'" by (simp add: put_missing_all_def)
  with Cons.prems(1) a show ?case by (auto simp: opt_exists_find split: if_splits)
qed (simp add: put_missing_all_def)

lemma device_body_sat:
  assumes c: "calls_keep D P" and "conv_throws F" and "conf_known D"
    and pf: "sm_find opts0 ''pidfile'' = Some pf" "smap_ok opts0"
    and err: "\<And>m s. early P s \<Longrightarrow> X (Err m) s"
    and start: "\<And>dofork file addr port test.
      sat (\<lambda>s. early P s \<and> pidfile s = pf) (start_server D E dofork file addr port test evs) Q X"
    and stop: "\<And>stop. opt_exists opts0 ''stop'' \<or> opt_exists opts0 ''reload'' \<Longrightarrow>
      sat (\<lambda>s. early P s \<and> pidfile s = pf)
        (bind_act (\<lambda>s. outside (stop_or_reload D (pidfile s) stop) s) (\<lambda>_. ok (Returned 0))) Q X"
  shows "sat (early P) (device_body D E F opts0 nonopt evs) Q X"
proof -
  let ?I = "\<lambda>s. early P s \<and> pidfile s = pf"
  note k = calls_keepD [OF c]
  note conv = opt_get_keeps [OF assms(2)]
  have run: "sat ?I (if opt_exists m ''stop'' \<or> opt_exists m ''reload''
      then bind_act (\<lambda>s. outside (stop_or_reload D (pidfile s) b) s) (\<lambda>_. ok (Returned 0))
      else start_server D E df fl addr port test evs) Q X"
    if "m = put_missing_all opts0 optsf" "fst ` set optsf \<subseteq> set conf_names"
    for m optsf b df fl addr port test
  proof (rule sat_if)
    assume "opt_exists m ''stop'' \<or> opt_exists m ''reload''"
    with put_missing_all_exists [OF pf(2), of optsf] that
    have "opt_exists opts0 ''stop'' \<or> opt_exists opts0 ''reload''" by (auto simp: conf_names_def)
    then show "sat ?I (bind_act (\<lambda>s. outside (stop_or_reload D (pidfile s) b) s) (\<lambda>_. ok (Returned 0))) Q X"
      by (rule stop)
  qed (rule start)
  have conf: "sat (early P) (outside (err_call (daemon_conf D f conf_names)))
      (\<lambda>m s. early P s \<and> fst ` set m \<subseteq> set conf_names) X" for f
    unfolding sat_def
  proof (intro allI impI)
    fix s assume s: "early P s"
    obtain r w where d: "daemon_conf D f conf_names (outer s) = (r, w)" by fastforce
    have known: "fst ` set m \<subseteq> set conf_names" if "r = Inr m" for m
      using assms(3) d that unfolding conf_known_def by blast
    have "early P (s\<lparr>outer := w\<rparr>)" using s k(1) [of "outer s" f conf_names] d by (simp add: early_def)
    then show "case outside (err_call (daemon_conf D f conf_names)) s of
        (Inl e, s') \<Rightarrow> X e s' | (Inr m, s') \<Rightarrow> early P s' \<and> fst ` set m \<subseteq> set conf_names"
      using known d by (cases r) (simp_all add: outside_def err_call_def err)
  qed
  have user: "keeps P (if u \<noteq> [] then switch_user D u else ok ())" for u
    using switch_user_keeps [OF c] keeps_ok [of P "()"] by simp
  have level: "keeps P (\<lambda>w. (Inr (), set_log_level D v w))" for v
    by (simp add: keeps_def sat_def k(6))
  have set_pf: "sat (early P) (\<lambda>s. (Inr (), s\<lparr>pidfile := opt_get (put_missing_all opts0 m) ''pidfile'' d\<rparr>)) (\<lambda>_. ?I) X"
    for m d
    using put_missing_all_find [OF pf(2,1)] by (simp add: sat_def early_def opt_get_def)
  have err': "X (Err n) s" if "?I s" for n s using that err by blast
  have usage: "sat (early P) (outside (server_usage D b)) Q X" for b
    using k(14) by (simp add: sat_def outside_def server_usage_def early_def err)
  note seq = sat_bind_keeps [where I = "early P" and X = X and Q = Q, OF _ err]
  note seq' = sat_bind_keeps [where I = "?I" and X = X and Q = Q, OF _ err']
  show ?thesis
    unfolding device_body_def Let_def
    apply (intro sat_if sat_throw err usage sat_bind [OF conf] sat_pre)
        apply assumption+
    apply (rule seq [OF conv(1)], assumption)
    apply (rule seq [OF conv(1)], assumption)
    apply (rule sat_bind [OF set_pf])
    apply (rule seq' [OF conv(2)], assumption)
    apply (rule seq' [OF keeps_outside [OF user]], assumption)
    apply (rule seq' [OF keeps_outside [OF keeps_err_call]], erule k, assumption)
    apply (rule seq' [OF keeps_outside [OF level]], assumption)
    apply (rule run [OF refl])
    apply assumption
    done
qed

section \<open>The pid file\<close>

lemma run_server_Returned: "fst (run_server D E fl addr port test evs w) \<noteq> Inr (Returned n)"
  by (simp add: run_server_def Let_def split: prod.splits sum.splits loop_end.splits)

definition own_pidfile :: "string \<Rightarrow> ('w \<Rightarrow> bool) \<Rightarrow> 'w main_vars \<Rightarrow> bool" where
  "own_pidfile pf P s \<longleftrightarrow> (if mypid s then pidfile s = pf else P (outer s))"

lemma own_early: "early P s \<Longrightarrow> own_pidfile pf P s"
  by (simp add: early_def own_pidfile_def)

definition left_by :: "string \<Rightarrow> ('w \<Rightarrow> bool) \<Rightarrow> main_end \<Rightarrow> 'w main_vars \<Rightarrow> bool" where
  "left_by pf P x s \<longleftrightarrow> (case x of Returned n \<Rightarrow> P (outer s) | Ended n \<Rightarrow> own_pidfile pf P s | _ \<Rightarrow> True)"

lemma write_pidfile_sat:
  assumes "calls_keep D P"
  shows "sat (\<lambda>s. early P s \<and> pidfile s = pf) (write_pidfile D df)
    (\<lambda>_ s. mypid s \<and> pidfile s = pf) (\<lambda>_. own_pidfile pf P)"
proof -
  have "P w1" if "open_out D f w = (False, w1)" "P w" for f w w1
    using calls_keepD(13) [OF assms that(2), of f] that(1) by simp
  then show ?thesis
    by (auto simp: sat_def early_def own_pidfile_def write_pidfile_def Let_def split: prod.splits bool.splits)
qed

lemma run_server_sat:
  "sat (\<lambda>s. mypid s \<and> pidfile s = pf) (outside (run_server D E fl addr port test evs))
     (left_by pf P) (\<lambda>_. own_pidfile pf P)"
proof -
  have "left_by pf P x (s\<lparr>outer := w'\<rparr>)"
    if "mypid s" "pidfile s = pf" "run_server D E fl addr port test evs w = (Inr x, w')" for s w x w'
    using that run_server_Returned [of D E fl addr port test evs w]
    by (cases x) (auto simp: left_by_def own_pidfile_def)
  then show ?thesis
    by (auto simp: sat_def outside_def own_pidfile_def split: prod.splits sum.splits)
qed

lemma start_server_sat:
  assumes c: "calls_keep D P" and "\<And>w. P w \<Longrightarrow> read_file D pf w = None"
  shows "sat (\<lambda>s. early P s \<and> pidfile s = pf) (start_server D E df fl addr port test evs)
    (left_by pf P) (\<lambda>_. own_pidfile pf P)"
proof -
  let ?I = "\<lambda>s. early P s \<and> pidfile s = pf"
  have chk: "sat ?I (\<lambda>s. outside (check_pid D (pidfile s)) s) (\<lambda>_. ?I) (\<lambda>_. own_pidfile pf P)"
    using assms(2) by (simp add: sat_def outside_def check_pid_def early_def)
  have fork: "sat ?I (outside (if df then daemonize D else ok False)) (\<lambda>_. ?I) (\<lambda>_. own_pidfile pf P)"
  proof (rule sat_keeps [OF keeps_outside])
    show "keeps P (if df then daemonize D else ok False)"
      using daemonize_keeps [OF c] keeps_ok [of P False] by simp
  qed (blast intro: own_early)+
  have leave: "sat ?I (ok (Returned 0)) (left_by pf P) (\<lambda>_. own_pidfile pf P)"
    by (rule sat_ok) (simp add: left_by_def early_def)
  show ?thesis
    unfolding start_server_def
    by (rule sat_bind [OF chk], rule sat_bind [OF fork], rule sat_if [OF leave],
        rule sat_bind [OF write_pidfile_sat [OF c]], rule run_server_sat)
qed


text \<open>
  A system to try the theorems on. Its world is the content of the pid file, process 7 runs, and
  every call succeeds.
\<close>

definition test_daemon :: "string option daemon_sys" where
  "test_daemon = \<lparr>daemon_parse = (\<lambda>t args. Inr (
       if args = [''-f''] then [(''dofork'', ''1''), (''pidfile'', ''p'')] else [(''pidfile'', ''p'')], [])),
     daemon_print = (\<lambda>p t n h w. w), daemon_conf = (\<lambda>f ns w. (Inr [], w)), sys_error = (\<lambda>n. ''error ''), getpwnam = (\<lambda>n w. None),
     getgrouplist = (\<lambda>n g k w. (0, [], 0)), setgroups = (\<lambda>gs w. (Inr (), w)), setgid = (\<lambda>u w. (Inr (), w)),
     setuid = (\<lambda>u w. (Inr (), w)), set_log_file = (\<lambda>f w. (Inr (), w)), set_log_level = (\<lambda>v w. w),
     log_line = (\<lambda>n m w. w), read_file = (\<lambda>f w. w), open_out = (\<lambda>f w. (True, Some [])),
     write_out = (\<lambda>f t w. map_option (\<lambda>a. a @ t) w), remove_file = (\<lambda>f w. None),
     kill = (\<lambda>p n w. (if p = 7 \<and> n = 0 then Inr () else Inl ESRCH, w)), usleep = (\<lambda>n w. w),
     fork = (\<lambda>w. (Inr 0, w)), umask = (\<lambda>m w. w), setsid = (\<lambda>w. (Inr (), w)), close_fd = (\<lambda>n w. w),
     getpid = (\<lambda>w. 8), sigaction = (\<lambda>n w. (Inr (), w)), ip4 = (\<lambda>a. Inr 0),
     mhd_start = (\<lambda>fl p ops w. (Inr (Some 1), w)), mhd_stop = (\<lambda>d w. w)\<rparr>"

definition test_daemon_env :: "(string, string option) env" where
  "test_daemon_env = \<lparr>drivers = \<lparr>vt_create = (\<lambda>n a w. (Inl (Err []), w)), vt_ask = (\<lambda>m dw. (Inr [], dw)),
       vt_destroy = (\<lambda>d w. w)\<rparr>, conf_file = (\<lambda>f w. Some []), clock = (\<lambda>w. (0, 0))\<rparr>"

lemma test_daemon_simps [simp]:
  "daemon_parse test_daemon tab args = Inr (if args = [''-f''] then [(''dofork'', ''1''), (''pidfile'', ''p'')]
     else [(''pidfile'', ''p'')], [])"
  "daemon_conf test_daemon f ns w = (Inr [], w)" "set_log_file test_daemon f w = (Inr (), w)"
  "set_log_level test_daemon v w = w" "log_line test_daemon n m w = w" "read_file test_daemon f w = w"
  "open_out test_daemon f w = (True, Some [])" "write_out test_daemon f t w = map_option (\<lambda>a. a @ t) w"
  "remove_file test_daemon f w = None" "kill test_daemon p n w = (if p = 7 \<and> n = 0 then Inr () else Inl ESRCH, w)"
  "getpid test_daemon w = 8" "sigaction test_daemon n w = (Inr (), w)" "ip4 test_daemon a = Inr 0"
  "mhd_start test_daemon fl q ops w = (Inr (Some 1), w)" "mhd_stop test_daemon d w = w"
  by (simp_all add: test_daemon_def)

lemma test_daemon_laws:
  "calls_keep test_daemon P" "conf_known test_daemon" "conv_throws test_conv"
  by (simp_all add: calls_keep_def conf_known_def conv_throws_def test_daemon_def test_conv_def)




end
