(* ===== verification/Daemon_Run.thy ===== *)
theory Daemon_Run
  imports Daemon_Props
begin

text \<open>
  The running server: its pid file leads back to it, it can be waited for, its clients cannot
  bring it down, but a bad configuration file can.
\<close>

section \<open>The pid that is written and read\<close>

lemma digit_is_digit: "n < 10 \<Longrightarrow> is_digit (digit n)"
  by (simp add: is_digit_def digit_def less_eq_char_def)

lemma dec_digits: "c \<in> set (dec n) \<Longrightarrow> is_digit c"
proof (induction n rule: dec.induct)
  case (1 n)
  then show ?case
    by (cases "n < 10") (auto simp: dec.simps [of n] digit_is_digit)
qed

lemma digit_no_space: "is_digit c \<Longrightarrow> \<not> is_space c \<and> c \<noteq> CHR ''-'' \<and> c \<noteq> CHR ''+''"
  by (auto simp: is_digit_def is_space_def less_eq_char_def)

lemma stream_int_dec: "n \<le> 2147483647 \<Longrightarrow> stream_int (dec n) = Some (int n)"
proof -
  assume n: "n \<le> 2147483647"
  obtain c r where d: "dec n = c # r" by (cases "dec n") simp_all
  have c: "is_digit c" and all: "\<forall>x \<in> set (c # r). is_digit x" using dec_digits [of _ n] d by auto
  have "dropWhile is_space (dec n) = c # r" using digit_no_space [OF c] by (simp add: d)
  moreover have "takeWhile is_digit (c # r) = dec n" using all by (simp add: d takeWhile_eq_all_conv)
  ultimately show ?thesis
    using digit_no_space [OF c] n by (simp add: stream_int_def clamp32_def)
qed

text \<open>
  The number a server writes to its pid file is the one \<^verbatim>\<open>--stop\<close>, \<^verbatim>\<open>--reload\<close> and a second
  server read from it: when \<^verbatim>\<open>device_d\<close> has written the file, the file holds its process number,
  and it will remove the file at its end.
\<close>

theorem pidfile_roundtrip:
  assumes "write_pidfile D df s = (Inr (), s')" and "getpid D (outer s) \<le> 2147483647"
    and "\<And>w w1. open_out D (pidfile s) w = (True, w1) \<Longrightarrow> read_file D (pidfile s) w1 = Some []"
    and "\<And>w n m. read_file D (pidfile s) (log_line D n m w) = read_file D (pidfile s) w"
    and "\<And>w t a. read_file D (pidfile s) w = Some a \<Longrightarrow>
      read_file D (pidfile s) (write_out D (pidfile s) t w) = Some (a @ t)"
  shows "map_option stream_int (read_file D (pidfile s) (outer s')) = Some (Some (int (getpid D (outer s)))) \<and>
    mypid s' \<and> pidfile s' = pidfile s"
proof -
  obtain w1 where o: "open_out D (pidfile s) (outer s) = (True, w1)"
    using assms(1) by (auto simp: write_pidfile_def Let_def split: prod.splits bool.splits)
  have "read_file D (pidfile s) (outer s') = Some (dec (getpid D (outer s)))"
    using assms(1) assms(5) [of _ "[]"] assms(3) [OF o] assms(4) o by (auto simp: write_pidfile_def Let_def)
  then show ?thesis
    using assms(1,2) o by (auto simp: write_pidfile_def Let_def stream_int_dec)
qed

theorem pidfile_roundtrip_witness:
  "map_option stream_int (read_file test_daemon ''p''
     (outer (snd (write_pidfile test_daemon True \<lparr>mypid = False, pidfile = ''p'', outer = Some ''junk''\<rparr>)))) = Some (Some 8)"
proof -
  let ?s = "\<lparr>mypid = False, pidfile = ''p'', outer = Some ''junk''\<rparr>"
  have "write_pidfile test_daemon True ?s = (Inr (), snd (write_pidfile test_daemon True ?s))"
    by (simp add: write_pidfile_def)
  from pidfile_roundtrip [OF this] show ?thesis by (auto simp: test_daemon_def)
qed

section \<open>Stopping a server\<close>

text \<open>One turn of the loop that waits.\<close>

definition poll :: "'w daemon_sys \<Rightarrow> int \<Rightarrow> 'w \<Rightarrow> 'w" where
  "poll D p w = usleep D 1000 (snd (kill D p 0 w))"

definition gone :: "'w daemon_sys \<Rightarrow> int \<Rightarrow> 'w \<Rightarrow> bool" where
  "gone D p w \<longleftrightarrow> fst (kill D p 0 w) \<noteq> Inr ()"

lemma wait_gone_step:
  "wait_gone D p w = (if gone D p w then Some (Inr (), snd (kill D p 0 w)) else wait_gone D p (poll D p w))"
  by (subst wait_gone.simps) (auto simp: gone_def poll_def split: prod.splits sum.splits)

lemma wait_gone_polls:
  "\<lbrakk> \<And>i. i < k \<Longrightarrow> \<not> gone D p ((poll D p ^^ i) w); gone D p ((poll D p ^^ k) w) \<rbrakk> \<Longrightarrow>
     wait_gone D p w = Some (Inr (), snd (kill D p 0 ((poll D p ^^ k) w)))"
proof (induction k arbitrary: w)
  case 0
  then show ?case by (simp add: wait_gone_step)
next
  case (Suc k)
  have "\<not> gone D p w" using Suc.prems(1) [of 0] by simp
  moreover have "\<not> gone D p ((poll D p ^^ i) (poll D p w))" if "i < k" for i
    using Suc.prems(1) [of "Suc i"] that by (simp add: funpow_Suc_right del: funpow.simps)
  then have "wait_gone D p (poll D p w) = Some (Inr (), snd (kill D p 0 ((poll D p ^^ k) (poll D p w))))"
    using Suc.prems(2) by (intro Suc.IH) (simp_all add: funpow_Suc_right del: funpow.simps)
  ultimately show ?case by (simp add: wait_gone_step [of D p w] funpow_Suc_right del: funpow.simps)
qed

lemma wait_gone_alive: "wait_gone D p w = Some x \<Longrightarrow> \<exists>k. gone D p ((poll D p ^^ k) w)"
proof (induction rule: wait_gone.raw_induct [where P = "\<lambda>D p w x. \<exists>k. gone D p ((poll D p ^^ k) w)", rotated, consumes 1])
  case (1 g D p w x)
  show ?case
  proof (cases "gone D p w")
    case True
    then show ?thesis by (intro exI [of _ 0]) simp
  next
    case False
    with 1(2) have "g D p (poll D p w) = Some x"
      by (auto simp: gone_def poll_def split: prod.splits sum.splits)
    from 1(1) [OF this] obtain k where "gone D p ((poll D p ^^ k) (poll D p w))" by blast
    then show ?thesis by (intro exI [of _ "Suc k"]) (simp add: funpow_Suc_right del: funpow.simps)
  qed
qed

text \<open>
  C36. \<^verbatim>\<open>device_d --stop\<close> waits for the server: after the signal it returns exactly if the process
  is gone at some time, and then with the process gone; it waits for ever for one that ignores
  the signal.
\<close>

theorem stop_waits:
  assumes "read_file D pf w = Some t" and "stream_int t = Some p" and "kill D p SIGTERM w = (Inr (), w1)"
  shows "if \<exists>k. gone D p ((poll D p ^^ k) w1)
    then \<exists>k. gone D p ((poll D p ^^ k) w1) \<and> (\<forall>i<k. \<not> gone D p ((poll D p ^^ i) w1)) \<and>
      stop_or_reload D pf True w = (Inr (), snd (kill D p 0 ((poll D p ^^ k) w1)))
    else stop_or_reload D pf True w = (Inl Hang, w1)"
proof -
  have run: "stop_or_reload D pf True w = or_hang (wait_gone D p) w1"
    using assms by (simp add: stop_or_reload_def)
  show ?thesis
  proof (cases "\<exists>k. gone D p ((poll D p ^^ k) w1)")
    case True
    then obtain k where k: "gone D p ((poll D p ^^ k) w1)" "\<And>i. i < k \<Longrightarrow> \<not> gone D p ((poll D p ^^ i) w1)"
      using exists_least_iff [of "\<lambda>k. gone D p ((poll D p ^^ k) w1)"] by blast
    from wait_gone_polls [OF k(2,1)] k True run show ?thesis by auto
  next
    case False
    then have "wait_gone D p w1 = None" using wait_gone_alive [of D p w1] by (cases "wait_gone D p w1") auto
    with False run show ?thesis by (simp add: or_hang_def)
  qed
qed

theorem stop_waits_witness:
  "stop_or_reload (test_daemon\<lparr>kill := \<lambda>p n w. if n = SIGTERM then (Inr (), None)
     else if w = None then (Inl ESRCH, w) else (Inr (), w)\<rparr>) ''p'' True (Some ''7'') = (Inr (), None)"
proof -
  let ?D = "test_daemon\<lparr>kill := \<lambda>p n w. if n = SIGTERM then (Inr (), None)
     else if w = None then (Inl ESRCH, w) else (Inr (), w)\<rparr>"
  have gone: "gone ?D 7 None" by (simp add: gone_def SIGTERM_def)
  have poll: "(poll ?D 7 ^^ k) None = None" for k
    by (induction k) (simp_all add: poll_def SIGTERM_def test_daemon_def)
  have s: "stream_int ''7'' = Some 7"
    by (simp add: stream_int_def is_space_def is_digit_def undec_def clamp32_def)
  have read: "read_file ?D ''p'' (Some ''7'') = Some ''7''" by (simp add: test_daemon_def)
  show ?thesis
    using stop_waits [OF read s, of None] gone poll by (auto simp: SIGTERM_def)
qed

section \<open>Reloading\<close>

text \<open>
  C35. The same bad configuration file, two outcomes: asked by a client, the server answers status
  400 and goes on as it was; asked by \<^verbatim>\<open>SIGHUP\<close>, as \<^verbatim>\<open>device_d --reload\<close> does, it leaves its main
  loop with the error, and the program ends.
\<close>

theorem bad_reload_by_signal:
  assumes "read_conf E (dman s) = (Inl (Err m), dm)" and "sm_find (socket_context s) h = Some c"
    and "q = \<lparr>req_method = ''GET'', req_url = url, req_args = []\<rparr>" and "parse_url url ! 0 = ''reload''"
  shows "conn_request E h q [] s = (Inr (Response 400 m (Some (c_str m))), s) \<and>
    main_loop E (Conn_request h q [] # evs) s = main_loop E evs s \<and>
    main_loop E (Reload_func # evs) s = (Threw m, s)"
proof -
  from assms(1) have dm: "dm = dman s" by (cases rule: read_conf_cases) simp_all
  have "dm_run E url c (dman s) = (Inl (Err m), dman s)"
    using assms(1) by (simp add: dm_run_defs assms(4) Let_def dm)
  then have req: "conn_request E h q [] s = (Inr (Response 400 m (Some (c_str m))), s)"
    using assms(2) by (simp add: conn_request_def serve_def process_request_def assms(3))
  then show ?thesis using assms(1) by (simp add: dm)
qed

theorem bad_reload_by_signal_witness:
  "main_loop ((test_env [])\<lparr>conf_file := \<lambda>f w. None\<rparr>) [Reload_func]
     \<lparr>dman = demo_manager, cmax = 7, socket_context = [(1, 5)]\<rparr> =
   (Threw (''can't open configuration: '' @ devfile demo_manager),
     \<lparr>dman = demo_manager, cmax = 7, socket_context = [(1, 5)]\<rparr>)"
proof -
  let ?E = "(test_env [])\<lparr>conf_file := \<lambda>f w. None\<rparr>"
  let ?s = "\<lparr>dman = demo_manager, cmax = 7, socket_context = [(1, 5)]\<rparr>"
  have bad: "read_conf ?E (dman ?s) = (Inl (Err (''can't open configuration: '' @ devfile demo_manager)), demo_manager)"
    by (simp add: read_conf_def)
  have url: "parse_url ''/reload'' ! 0 = ''reload''"
    using parse_url_parts1 [of "''reload''"] by (simp add: npos_def)
  have h: "sm_find (socket_context ?s) 1 = Some 5" by (simp add: sm_find_def)
  from bad_reload_by_signal [OF bad h refl url] show ?thesis by blast
qed

section \<open>The clients cannot bring the server down\<close>

definition valued :: "request \<Rightarrow> bool" where
  "valued q \<longleftrightarrow> (\<forall>(k, v) \<in> set (req_args q). v \<noteq> None)"

text \<open>The events the HTTP library can send, when the connections \<open>H\<close> are open.\<close>

fun possible :: "nat set \<Rightarrow> daemon_event list \<Rightarrow> bool" where
  "possible H [] \<longleftrightarrow> True"
| "possible H (Conn_start h # evs) \<longleftrightarrow> h \<notin> H \<and> possible (insert h H) evs"
| "possible H (Conn_end h # evs) \<longleftrightarrow> h \<in> H \<and> possible (H - {h}) evs"
| "possible H (Conn_request h q chunks # evs) \<longleftrightarrow> h \<in> H \<and> valued q \<and> possible H evs"
| "possible H (e # evs) \<longleftrightarrow> possible H evs"

definition handles :: "('d, 'w) server \<Rightarrow> nat set" where
  "handles s = {h. sm_find (socket_context s) h \<noteq> None}"

lemma process_request_crash:
  assumes "dm_inv m" and "c \<in> open_conns m" and "safe_vtable (drivers E)" and "valued q"
    and "process_request E c q u seen m = ((Crash x, b), m')"
  shows "x = Hang"
proof -
  obtain o1 where o1: "append_to_opt (req_args q) [] = Inr o1"
    using append_to_opt_values assms(4) unfolding valued_def by blast
  obtain r m1 where run: "dm_run E (req_url q) c m = (r, m1)" by fastforce
  with dm_run_UB_free [OF assms(1-3), of "req_url q"] have "r \<noteq> Inl UB" by simp
  with run o1 assms(5) show ?thesis
    by (cases x) (auto simp: process_request_def bind_act_def split: if_splits sum.splits exn.splits)
qed

lemma rounds_crash:
  assumes "dm_inv m" and "c \<in> open_conns m" and "safe_vtable (drivers E)" and "valued q"
    and "rounds E c q ups seen m = (Crash x, m')"
  shows "x = Hang"
  using assms
proof (induction ups arbitrary: seen m)
  case (Cons u ups)
  obtain r seen1 m1 where p: "process_request E c q u seen m = ((r, seen1), m1)" by (metis prod.exhaust)
  have inv: "dm_inv m1" "c \<in> open_conns m1"
    using process_request_inv [OF Cons.prems(1,2), of E q u seen] p Cons.prems(2) by simp_all
  show ?case
  proof (cases "r = MHD_YES")
    case True
    with p Cons.prems(5) have "rounds E c q ups seen1 m1 = (Crash x, m')" by simp
    with Cons.IH inv Cons.prems(3,4) show ?thesis by blast
  next
    case False
    with p Cons.prems(5) have "r = Crash x" by (cases r) simp_all
    with process_request_crash [OF Cons.prems(1-4)] p show ?thesis by blast
  qed
qed simp

lemma conn_started_handles:
  "smap_ok (socket_context s) \<Longrightarrow> conn_started h s = (r, s') \<Longrightarrow> handles s' = insert h (handles s)"
  by (auto simp: conn_started_def handles_def Let_def smap.look_put split: prod.splits)

lemma conn_closed_handles:
  "sm_find (socket_context s) h = Some c \<Longrightarrow> conn_closed h s = (r, s') \<Longrightarrow> handles s' = handles s - {h}"
  by (auto simp: conn_closed_def handles_def sm_find_erase split: if_splits)

lemma conn_request_crash:
  assumes "http_inv n s" and "sm_find (socket_context s) h = Some c" and "safe_vtable (drivers E)"
    and "valued q" and "conn_request E h q chunks s = (r, s')"
  shows "\<exists>a. r = Inr a \<and> (\<forall>x. a = Crash x \<longrightarrow> x = Hang) \<and> handles s' = handles s"
proof -
  obtain a m where run: "rounds E c q (0 # chunks @ [0]) False (dman s) = (a, m)" by fastforce
  have inv: "dm_inv (dman s)" "c \<in> open_conns (dman s)" using assms(1,2) by (auto simp: http_inv_def)
  have "r = Inr a" "s' = s\<lparr>dman := m\<rparr>"
    using assms(2,5) run by (simp_all add: conn_request_def serve_def del: rounds.simps)
  with rounds_crash [OF inv assms(3,4)] run show ?thesis by (auto simp: handles_def simp del: rounds.simps)
qed

lemma reload_http_inv:
  assumes "http_inv n s" and "read_conf E (dman s) = (r, dm)"
  shows "http_inv n (s\<lparr>dman := dm\<rparr>) \<and> handles (s\<lparr>dman := dm\<rparr>) = handles s \<and> (r = Inr () \<or> (\<exists>m. r = Inl (Err m)))"
proof -
  have "dm_inv (dman s)" using assms(1) by (simp add: http_inv_def)
  from read_conf_inv [OF this assms(2)] have "dm_inv dm" "open_conns dm = open_conns (dman s)"
    by (simp_all add: open_conns_def)
  moreover have "r = Inr () \<or> (\<exists>m. r = Inl (Err m))" using assms(2) by (cases rule: read_conf_cases) simp_all
  ultimately show ?thesis using http_inv_dman [OF assms(1)] by (simp add: handles_def)
qed

lemma main_loop_survives:
  assumes "safe_vtable (drivers E)" and "possible (handles s) evs" and "http_inv n s"
    and "n + length evs < 2 ^ 64" and "main_loop E evs s = (e, s')"
  shows "e \<noteq> Aborted \<and> (\<exists>k. http_inv k s')"
  using assms(2-5)
proof (induction evs arbitrary: n s)
  case Nil
  then show ?case by auto
next
  case (Cons ev evs)
  show ?case
  proof (cases ev)
    case Stop_func
    with Cons.prems show ?thesis by auto
  next
    case Reload_func
    obtain r dm where rc: "read_conf E (dman s) = (r, dm)" by fastforce
    note inv = reload_http_inv [OF Cons.prems(2) rc]
    from inv consider "r = Inr ()" | m where "r = Inl (Err m)" by blast
    then show ?thesis
    proof cases
      case 1
      with rc Reload_func Cons.prems inv Cons.IH [of "s\<lparr>dman := dm\<rparr>" n] show ?thesis by simp
    next
      case 2
      with rc Reload_func Cons.prems(4) inv show ?thesis by auto
    qed
  next
    case (Conn_start h)
    obtain r s1 where st: "conn_started h s = (r, s1)" by fastforce
    have "sm_find (socket_context s) h = None" "smap_ok (socket_context s)"
      using Cons.prems(1,2) Conn_start by (simp_all add: handles_def http_inv_def)
    with http_inv_started [OF Cons.prems(2) _ _ st] Cons.prems(3)
    have "http_inv (Suc n) s1 \<and> r = Inr ()" by simp
    moreover have "handles s1 = insert h (handles s)"
      using conn_started_handles st \<open>smap_ok _\<close> by blast
    ultimately show ?thesis
      using st Conn_start Cons.prems Cons.IH [of s1 "Suc n"] by simp
  next
    case (Conn_end h)
    obtain r s1 where cl: "conn_closed h s = (r, s1)" by fastforce
    obtain c where c: "sm_find (socket_context s) h = Some c"
      using Cons.prems(1) Conn_end by (auto simp: handles_def)
    from http_inv_closed [OF Cons.prems(2) c cl] conn_closed_handles [OF c cl]
    show ?thesis using cl Conn_end Cons.prems Cons.IH [of s1 n] by simp
  next
    case (Conn_request h q chunks)
    obtain r s1 where rq: "conn_request E h q chunks s = (r, s1)" by fastforce
    obtain c where c: "sm_find (socket_context s) h = Some c"
      using Cons.prems(1) Conn_request by (auto simp: handles_def)
    have v: "valued q" using Cons.prems(1) Conn_request by simp
    note inv = http_inv_request [OF Cons.prems(2) c rq]
    obtain a where a: "r = Inr a" "\<And>x. a = Crash x \<Longrightarrow> x = Hang" "handles s1 = handles s"
      using conn_request_crash [OF Cons.prems(2) c assms(1) v rq] by blast
    show ?thesis
    proof (cases "a = Crash Hang")
      case True
      with rq a(1) Conn_request Cons.prems(4) inv show ?thesis by auto
    next
      case False
      with a(2) have "main_loop E (ev # evs) s = main_loop E evs s1"
        using rq a(1) Conn_request by (cases a) auto
      with Cons.prems a(3) inv Conn_request Cons.IH [of s1 n] show ?thesis by simp
    qed
  qed
qed



end
