(* ===== verification/Server_Log.thy ===== *)
theory Server_Log
  imports Daemon_Run
begin

text \<open>
  The log of the server: the messages \<^verbatim>\<open>Log(n) << ...\<close> of \<^verbatim>\<open>server/device.cpp\<close>,
  \<^verbatim>\<open>server/dev_manager.cpp\<close> and \<^verbatim>\<open>server/http_server.cpp\<close>. The other theories leave them out;
  here the world carries the entries written so far, every operation that writes to the log is
  given with its \<^verbatim>\<open>Log\<close> lines where the source has them, and operations without such a line are
  used as they are. What is shown: forgetting the log gives back the operations of the other
  theories, and the log alone tells which devices are open and who is connected.
\<close>

section \<open>Entries\<close>

datatype log_entry =
    Cant_read string
  | Reading string
  | Configured nat
  | Opened conn string
  | Closed string
  | Requested conn string
  | Answered conn string
  | Failed conn string
  | Connected conn "32 word"
  | Disconnected conn

fun log_level :: "log_entry \<Rightarrow> nat" where
  "log_level (Cant_read e) = 1"
| "log_level (Reading f) = 1"
| "log_level (Configured n) = 1"
| "log_level (Opened c d) = 2"
| "log_level (Closed d) = 2"
| "log_level (Requested c u) = 3"
| "log_level (Answered c m) = 3"
| "log_level (Failed c e) = 3"
| "log_level (Connected c a) = 2"
| "log_level (Disconnected c) = 2"

text \<open>The four bytes of an address in the order of the host.\<close>

definition dotted :: "32 word \<Rightarrow> string" where
  "dotted a = (let byte = (\<lambda>n. dec (unat (and (drop_bit n a) 0xff))) in
     byte 24 @ ''.'' @ byte 16 @ ''.'' @ byte 8 @ ''.'' @ byte 0)"

definition conn_text :: "conn \<Rightarrow> string" where
  "conn_text c = ''conn:'' @ dec (unat c)"

fun log_text :: "log_entry \<Rightarrow> string" where
  "log_text (Cant_read e) = ''Can't read device list: '' @ e"
| "log_text (Reading f) = ''Reading configuration file: '' @ f"
| "log_text (Configured n) = dec n @ '' devices configured''"
| "log_text (Opened c d) = conn_text c @ '' open device: '' @ d"
| "log_text (Closed d) = ''Close device: '' @ d"
| "log_text (Requested c u) = conn_text c @ '' process request: '' @ u"
| "log_text (Answered c m) = conn_text c @ '' answer: '' @ m"
| "log_text (Failed c e) = conn_text c @ '' error: '' @ e"
| "log_text (Connected c a) = conn_text c @ '' open connection from '' @ dotted a"
| "log_text (Disconnected c) = conn_text c @ '' close connection''"

text \<open>What a server with the option \<^verbatim>\<open>-verbose\<close> writes.\<close>

definition shown :: "nat \<Rightarrow> log_entry list \<Rightarrow> string list" where
  "shown lvl l = map log_text (filter (\<lambda>e. log_level e \<le> lvl) l)"

section \<open>A world with a log\<close>

type_synonym 'w logged = "'w \<times> log_entry list"

definition add_entry :: "log_entry \<Rightarrow> 'w logged \<Rightarrow> 'w logged" where
  "add_entry e = (\<lambda>(w, l). (w, l @ [e]))"

text \<open>The drivers, the file system and the clock know nothing of the log.\<close>

definition with_log :: "('w \<Rightarrow> 'r \<times> 'w) \<Rightarrow> 'w logged \<Rightarrow> 'r \<times> 'w logged" where
  "with_log f = (\<lambda>(w, l). case f w of (r, w1) \<Rightarrow> (r, (w1, l)))"

definition log_vtable :: "('d, 'w) vtable \<Rightarrow> ('d, 'w logged) vtable" where
  "log_vtable V = \<lparr>vt_create = (\<lambda>n a. with_log (vt_create V n a)),
     vt_ask = (\<lambda>m (x, w, l). case vt_ask V m (x, w) of (r, (x1, w1)) \<Rightarrow> (r, (x1, (w1, l)))),
     vt_destroy = (\<lambda>x (w, l). (vt_destroy V x w, l))\<rparr>"

definition log_env :: "('d, 'w) env \<Rightarrow> ('d, 'w logged) env" where
  "log_env E = \<lparr>drivers = log_vtable (drivers E), conf_file = (\<lambda>f (w, l). conf_file E f w),
     clock = (\<lambda>(w, l). clock E w)\<rparr>"

section \<open>Devices\<close>

definition dev_use_log :: "('d, 'w logged) vtable \<Rightarrow> conn \<Rightarrow> (('d, 'w logged) dst, unit) act" where
  "dev_use_log V c = (\<lambda>(d, w).
     if c \<in> users d then (Inr (), (d, w))
     else if locked d then (Inl (Err ''device is locked''), (d, w))
     else case drv d of
       Some x \<Rightarrow> (Inr (), (d\<lparr>users := insert c (users d)\<rparr>, w))
     | None \<Rightarrow>
         (case vt_create V (drv_name d) (drv_args d) w of
            (Inl e, w1) \<Rightarrow> (Inl e, (d, w1))
          | (Inr x, w1) \<Rightarrow> (Inr (), (d\<lparr>drv := Some x, users := insert c (users d)\<rparr>,
              add_entry (Opened c (dev_name d)) w1))))"

definition dev_close_log :: "('d, 'w logged) vtable \<Rightarrow> ('d, 'w logged) dst \<Rightarrow> ('d, 'w logged) dst" where
  "dev_close_log V s = (case dev_close V s of (d, w) \<Rightarrow> (d, add_entry (Closed (dev_name d)) w))"

definition dev_lock_log :: "('d, 'w logged) vtable \<Rightarrow> conn \<Rightarrow> (('d, 'w logged) dst, unit) act" where
  "dev_lock_log V c = bind_act
     (\<lambda>s. if c \<in> users (fst s) then (Inr (), s) else dev_use_log V c s)
     (\<lambda>_ (d, w). if card (users d) \<noteq> 1
        then (Inl (Err ''Can't lock the device: it is in use''), (d, w))
        else (Inr (), (d\<lparr>locked := True\<rparr>, w)))"

definition dev_ask_log :: "('d, 'w logged) vtable \<Rightarrow> conn \<Rightarrow> string \<Rightarrow> (('d, 'w logged) dst, string) act" where
  "dev_ask_log V c msg = bind_act
     (\<lambda>s. if c \<in> users (fst s) then (Inr (), s) else dev_use_log V c s)
     (\<lambda>_. ask_logged V msg)"

section \<open>The manager\<close>

definition noted :: "log_entry \<Rightarrow> ('d, 'w logged) manager \<Rightarrow> ('d, 'w logged) manager" where
  "noted e dm = dm\<lparr>world := add_entry e (world dm)\<rparr>"

definition read_conf_log :: "('d, 'w logged) env \<Rightarrow> (('d, 'w logged) manager, unit) act" where
  "read_conf_log E = (\<lambda>dm.
     case conf_file E (devfile dm) (world dm) of
       None \<Rightarrow> (Inl (Err (''can't open configuration: '' @ devfile dm)), dm)
     | Some evs \<Rightarrow>
         let dm1 = noted (Reading (devfile dm)) dm in
         (case conf_loop evs [] of
            Inl (ln, m) \<Rightarrow>
              (Inl (Err (''bad configuration file '' @ devfile dm @ '' at line '' @ dec ln @ '': '' @ m)), dm1)
          | Inr ret \<Rightarrow> let dm2 = noted (Configured (length ret)) dm1 in
              (Inr (), dm2\<lparr>devices := sm_each copy_device ret,
                 world := foldl (drop_device (drivers E)) (world dm2) (map snd (devices dm2))\<rparr>)))"

definition new_manager_log :: "('d, 'w logged) env \<Rightarrow> string \<Rightarrow> 'w logged \<Rightarrow> ('d, 'w logged) manager" where
  "new_manager_log E file w =
     (case read_conf_log E \<lparr>devices = [], conn_names = [], devfile = file, world = w\<rparr> of
        (Inl (Err e), dm) \<Rightarrow> noted (Cant_read e) dm
      | (r, dm) \<Rightarrow> dm)"

definition delete_manager_log :: "('d, 'w logged) env \<Rightarrow> ('d, 'w logged) manager \<Rightarrow> 'w logged" where
  "delete_manager_log E dm =
     foldl (\<lambda>w d. snd (dev_close_log (drivers E) (d, w))) (world dm) (map snd (devices dm))"

text \<open>The five requests that may write to the log; the others run as they are.\<close>

definition dm_run_log :: "('d, 'w logged) env \<Rightarrow> string \<Rightarrow> conn \<Rightarrow> (('d, 'w logged) manager, string) act" where
  "dm_run_log E url c =
     (let vs = parse_url url; act = vs ! 0; arg = vs ! 1; msg = vs ! 2; V = drivers E in
      if act = ''ask'' then with_device url arg (dev_ask_log V c msg)
      else if act = ''use'' then with_device url arg (void (dev_use_log V c))
      else if act = ''lock'' then with_device url arg (void (dev_lock_log V c))
      else if act = ''reload'' then
        bind_act (read_conf_log E) (\<lambda>_ dm.
          (Inr (''Device configuration reloaded: '' @ dec (length (devices dm)) @ '' devices''), dm))
      else if act = ''close'' then with_device url arg (\<lambda>s. (Inr [], dev_close_log V s))
      else dm_run E url c)"

section \<open>The server\<close>

definition process_request_log :: "('d, 'w logged) env \<Rightarrow> conn \<Rightarrow> request \<Rightarrow> nat \<Rightarrow> bool \<Rightarrow>
    ('d, 'w logged) manager \<Rightarrow> (reply \<times> bool) \<times> ('d, 'w logged) manager" where
  "process_request_log E cnum q upload seen dm =
     (if req_method q \<noteq> ''GET'' then ((MHD_NO, seen), dm)
      else if \<not> seen then ((MHD_YES, True), dm)
      else if upload \<noteq> 0 then ((MHD_NO, seen), dm)
      else case bind_act (lift_res (append_to_opt (req_args q) []))
                  (\<lambda>opts dm. dm_run_log E (req_url q) cnum (noted (Requested cnum (req_url q)) dm)) dm of
        (Inr msg, dm1) \<Rightarrow> ((Response 200 msg None, False), noted (Answered cnum msg) dm1)
      | (Inl (Err e), dm1) \<Rightarrow> ((Response 400 e (Some (c_str e)), False), noted (Failed cnum e) dm1)
      | (Inl x, dm1) \<Rightarrow> ((Crash x, False), dm1))"

fun rounds_log :: "('d, 'w logged) env \<Rightarrow> conn \<Rightarrow> request \<Rightarrow> nat list \<Rightarrow> bool \<Rightarrow>
    ('d, 'w logged) manager \<Rightarrow> reply \<times> ('d, 'w logged) manager" where
  "rounds_log E c q [] seen dm = (MHD_YES, dm)"
| "rounds_log E c q (u # ups) seen dm =
     (case process_request_log E c q u seen dm of
        ((MHD_YES, seen1), dm1) \<Rightarrow> rounds_log E c q ups seen1 dm1
      | ((r, seen1), dm1) \<Rightarrow> (r, dm1))"

definition serve_log :: "('d, 'w logged) env \<Rightarrow> conn \<Rightarrow> request \<Rightarrow> nat list \<Rightarrow>
    ('d, 'w logged) manager \<Rightarrow> reply \<times> ('d, 'w logged) manager" where
  "serve_log E c q chunks dm = rounds_log E c q (0 # chunks @ [0]) False dm"

text \<open>The address of the client is looked at only if the line will be written.\<close>

definition conn_started_log :: "int \<Rightarrow> (nat \<Rightarrow> 32 word) \<Rightarrow> nat \<Rightarrow> (('d, 'w logged) server, unit) act" where
  "conn_started_log lvl addr h = (\<lambda>s.
     let cnum = cmax s; s1 = s\<lparr>cmax := cmax s + 1, socket_context := sm_put h cnum (socket_context s)\<rparr>;
         s2 = (if 2 \<le> lvl then s1\<lparr>dman := noted (Connected cnum (addr h)) (dman s1)\<rparr> else s1)
     in case conn_open cnum (dman s2) of (r, dm1) \<Rightarrow> (r, s2\<lparr>dman := dm1\<rparr>))"

definition conn_closed_log :: "nat \<Rightarrow> (('d, 'w logged) server, unit) act" where
  "conn_closed_log h = (\<lambda>s. case sm_find (socket_context s) h of
      None \<Rightarrow> (Inl UB, s)
    | Some cnum \<Rightarrow> (Inr (), s\<lparr>dman := noted (Disconnected cnum) (conn_close cnum (dman s)),
        socket_context := sm_erase h (socket_context s)\<rparr>))"

definition conn_request_log :: "('d, 'w logged) env \<Rightarrow> nat \<Rightarrow> request \<Rightarrow> nat list \<Rightarrow>
    (('d, 'w logged) server, reply) act" where
  "conn_request_log E h q chunks = (\<lambda>s. case sm_find (socket_context s) h of
      None \<Rightarrow> (Inl UB, s)
    | Some cnum \<Rightarrow> (case serve_log E cnum q chunks (dman s) of (r, dm1) \<Rightarrow> (Inr r, s\<lparr>dman := dm1\<rparr>)))"

fun main_loop_log :: "int \<Rightarrow> (nat \<Rightarrow> 32 word) \<Rightarrow> ('d, 'w logged) env \<Rightarrow> daemon_event list \<Rightarrow>
    ('d, 'w logged) server \<Rightarrow> loop_end \<times> ('d, 'w logged) server" where
  "main_loop_log lvl addr E [] s = (Running, s)"
| "main_loop_log lvl addr E (Stop_func # evs) s = (Stopped, s)"
| "main_loop_log lvl addr E (Reload_func # evs) s = (case read_conf_log E (dman s) of
      (Inr u, dm) \<Rightarrow> main_loop_log lvl addr E evs (s\<lparr>dman := dm\<rparr>)
    | (Inl (Err m), dm) \<Rightarrow> (Threw m, s\<lparr>dman := dm\<rparr>)
    | (Inl x, dm) \<Rightarrow> (Aborted, s\<lparr>dman := dm\<rparr>))"
| "main_loop_log lvl addr E (Conn_start h # evs) s = (case conn_started_log lvl addr h s of
      (Inr u, s1) \<Rightarrow> main_loop_log lvl addr E evs s1 | (Inl x, s1) \<Rightarrow> (Aborted, s1))"
| "main_loop_log lvl addr E (Conn_end h # evs) s = (case conn_closed_log h s of
      (Inr u, s1) \<Rightarrow> main_loop_log lvl addr E evs s1 | (Inl x, s1) \<Rightarrow> (Aborted, s1))"
| "main_loop_log lvl addr E (Conn_request h q chunks # evs) s = (case conn_request_log E h q chunks s of
      (Inr (Crash x), s1) \<Rightarrow> (if x = Hang then Running else Aborted, s1)
    | (Inr r, s1) \<Rightarrow> main_loop_log lvl addr E evs s1
    | (Inl x, s1) \<Rightarrow> (Aborted, s1))"

end
