(* ===== verification/Log_Props.thy ===== *)
theory Log_Props
  imports Server_Log
begin

text \<open>
  What the log of the server is good for. First, a server that writes a log does what one
  without does: forgetting the log commutes with every operation. Second, the log records the
  state: whoever reads it knows which devices are open and which connections there are.
\<close>

section \<open>Forgetting the log\<close>

text \<open>An operation, seen through a view of its state.\<close>

definition seen_as :: "('s \<Rightarrow> 't) \<Rightarrow> ('s, 'a) act \<Rightarrow> ('t, 'a) act \<Rightarrow> bool" where
  "seen_as p f g \<longleftrightarrow> (\<forall>s. g (p s) = map_prod id p (f s))"

named_theorems views "operations and what is seen of them"

lemma seen_asD: "seen_as p f g \<Longrightarrow> g (p s) = map_prod id p (f s)"
  by (simp add: seen_as_def)

lemma seen_as_basic [views]:
  "seen_as p (ok x) (ok x)" "seen_as p (throw m) (throw m)" "seen_as p (lift_res r) (lift_res r)"
  by (simp_all add: seen_as_def)

lemma seen_as_bind [views]:
  assumes "seen_as p f f'" and "\<And>x. seen_as p (g x) (g' x)"
  shows "seen_as p (bind_act f g) (bind_act f' g')"
  unfolding seen_as_def
proof
  fix s
  show "bind_act f' g' (p s) = map_prod id p (bind_act f g s)"
    using seen_asD [OF assms(1), of s] seen_asD [OF assms(2)]
    by (cases "f s"; cases "fst (f s)") (simp_all add: bind_act_def)
qed

lemma seen_as_void [views]: "seen_as p f f' \<Longrightarrow> seen_as p (void f) (void f')"
  unfolding void_def by (intro views)

lemma seen_as_if [views]:
  "(b \<Longrightarrow> seen_as p f f') \<Longrightarrow> (\<not> b \<Longrightarrow> seen_as p g g') \<Longrightarrow>
     seen_as p (if b then f else g) (if b then f' else g')"
  by simp

text \<open>The state of a device, and that of the manager.\<close>

abbreviation forget_dst :: "('d, 'w logged) dst \<Rightarrow> ('d, 'w) dst" where
  "forget_dst \<equiv> map_prod id fst"

definition forget :: "('d, 'w logged) manager \<Rightarrow> ('d, 'w) manager" where
  "forget dm = \<lparr>devices = devices dm, conn_names = conn_names dm, devfile = devfile dm,
     world = fst (world dm)\<rparr>"

definition forget_server :: "('d, 'w logged) server \<Rightarrow> ('d, 'w) server" where
  "forget_server s = \<lparr>dman = forget (dman s), cmax = cmax s, socket_context = socket_context s\<rparr>"

lemma forget_fields [simp]:
  "devices (forget dm) = devices dm" "conn_names (forget dm) = conn_names dm"
  "devfile (forget dm) = devfile dm" "world (forget dm) = fst (world dm)"
  by (simp_all add: forget_def)

lemma forget_update [simp]:
  "forget (dm\<lparr>devices := ds\<rparr>) = (forget dm)\<lparr>devices := ds\<rparr>"
  "forget (dm\<lparr>conn_names := ns\<rparr>) = (forget dm)\<lparr>conn_names := ns\<rparr>"
  "forget (dm\<lparr>world := w\<rparr>) = (forget dm)\<lparr>world := fst w\<rparr>"
  by (simp_all add: forget_def)

lemma forget_inv [simp]: "open_conns (forget dm) = open_conns dm" "dm_inv (forget dm) = dm_inv dm"
  by (simp_all add: open_conns_def dm_inv_def)

lemma fst_add_entry [simp]: "fst (add_entry e w) = fst w" "snd (add_entry e w) = snd w @ [e]"
  by (simp_all add: add_entry_def split: prod.splits)

lemma forget_noted [simp]: "forget (noted e dm) = forget dm" "devices (noted e dm) = devices dm"
    "devfile (noted e dm) = devfile dm" "conn_names (noted e dm) = conn_names dm"
    "world (noted e dm) = add_entry e (world dm)"
  by (simp_all add: noted_def forget_def)

lemma log_env_fields [simp]:
  "drivers (log_env E) = log_vtable (drivers E)"
  "conf_file (log_env E) f w = conf_file E f (fst w)" "clock (log_env E) w = clock E (fst w)"
  by (simp_all add: log_env_def split: prod.splits)

lemma log_vtable_calls [simp]:
  "vt_create (log_vtable V) n a w = map_prod id (\<lambda>w1. (w1, snd w)) (vt_create V n a (fst w))"
  "vt_ask (log_vtable V) m (x, w) = map_prod id (map_prod id (\<lambda>w1. (w1, snd w))) (vt_ask V m (x, fst w))"
  "vt_destroy (log_vtable V) x w = (vt_destroy V x (fst w), snd w)"
  by (simp_all add: log_vtable_def with_log_def split: prod.splits)

section \<open>Devices\<close>

lemma dev_use_seen [views]: "seen_as forget_dst (dev_use_log (log_vtable V) c) (dev_use V c)"
  by (auto simp: seen_as_def dev_use_log_def dev_use_def split: option.splits sum.splits prod.splits)

lemma drv_call_seen [views]: "seen_as forget_dst (drv_call (log_vtable V) m) (drv_call V m)"
  by (auto simp: seen_as_def drv_call_def split: option.splits prod.splits)

lemma ask_logged_seen [views]: "seen_as forget_dst (ask_logged (log_vtable V) m) (ask_logged V m)"
  unfolding seen_as_def
proof
  fix s :: "'a device \<times> 'b logged"
  obtain d w where s: "s = (d, w)" by (cases s)
  obtain r d1 w1 where c: "drv_call (log_vtable V) m (log_message ''>> '' m d, w) = (r, (d1, w1))"
    by (metis prod_cases3)
  with seen_asD [OF drv_call_seen, of V m "(log_message ''>> '' m d, w)"]
  have c1: "drv_call V m (log_message ''>> '' m d, fst w) = (r, (d1, fst w1))" by simp
  show "ask_logged V m (forget_dst s) = map_prod id forget_dst (ask_logged (log_vtable V) m s)"
    using seen_asD [OF drv_call_seen, of V m s]
    by (auto simp: s ask_logged_def c c1 split: sum.splits exn.splits)
qed

lemma enter_seen [views]:
  "seen_as forget_dst (\<lambda>s. if c \<in> users (fst s) then (Inr (), s) else dev_use_log (log_vtable V) c s)
     (\<lambda>s. if c \<in> users (fst s) then (Inr (), s) else dev_use V c s)"
  using seen_asD [OF dev_use_seen] by (auto simp: seen_as_def)

lemma dev_lock_seen [views]: "seen_as forget_dst (dev_lock_log (log_vtable V) c) (dev_lock V c)"
  unfolding dev_lock_log_def dev_lock_def
  by (intro views) (auto simp: seen_as_def)

lemma dev_ask_seen [views]: "seen_as forget_dst (dev_ask_log (log_vtable V) c m) (dev_ask V c m)"
  unfolding dev_ask_log_def dev_ask_def by (intro views)

lemma dev_close_seen [views]:
  "seen_as forget_dst (\<lambda>s. (Inr x, dev_close_log (log_vtable V) s)) (\<lambda>s. (Inr x, dev_close V s))"
  "seen_as forget_dst (\<lambda>s. (Inr x, dev_close (log_vtable V) s)) (\<lambda>s. (Inr x, dev_close V s))"
  by (auto simp: seen_as_def dev_close_log_def dev_close_def split: option.splits)

lemma plain_dev_ops_seen [views]:
  "seen_as forget_dst (quiet g) (quiet g)" "seen_as forget_dst (local f) (local f)"
  "seen_as forget_dst (\<lambda>(d, w). (h d, (d, w))) (\<lambda>(d, w). (h d, (d, w)))"
  by (auto simp: seen_as_def quiet_def local_def split: prod.splits)

section \<open>The manager\<close>

lemma with_device_seen [views]:
  assumes "seen_as forget_dst f f'"
  shows "seen_as forget (with_device url arg f) (with_device url arg f')"
  unfolding seen_as_def
proof
  fix dm :: "('a, 'b logged) manager"
  show "with_device url arg f' (forget dm) = map_prod id forget (with_device url arg f dm)"
  proof (cases "sm_find (devices dm) arg")
    case (Some d)
    obtain r d1 w1 where "f (d, world dm) = (r, (d1, w1))" by (metis prod_cases3)
    with seen_asD [OF assms, of "(d, world dm)"] Some show ?thesis by (simp add: with_device_def)
  qed (simp add: with_device_def)
qed

lemma set_conn_name_seen [views]: "seen_as forget (set_conn_name c n) (set_conn_name c n)"
  by (auto simp: seen_as_def set_conn_name_def Let_def)

lemma drop_devices_log:
  "foldl (drop_device (log_vtable V)) w ds = (foldl (drop_device V) (fst w) ds, snd w)"
  by (induction ds arbitrary: w) (auto simp: drop_device_def split: option.splits)

lemma read_conf_seen [views]: "seen_as forget (read_conf_log (log_env E)) (read_conf E)"
  by (auto simp: seen_as_def read_conf_log_def read_conf_def drop_devices_log Let_def
      split: option.splits sum.splits)

text \<open>The requests without a log line do not look at the log either.\<close>

lemma dm_run_seen:
  assumes "parse_url url ! 0 \<notin> {''ask'', ''use'', ''lock'', ''reload'', ''close''}"
  shows "seen_as forget (dm_run (log_env E) url c) (dm_run E url c)"
  using assms unfolding dm_run_defs Let_def log_env_fields
  by (intro views) (auto simp: seen_as_def void_def bind_act_def set_conn_name_def release_each_def
      Let_def split: option.splits prod.splits)

lemma dm_run_log_seen [views]: "seen_as forget (dm_run_log (log_env E) url c) (dm_run E url c)"
proof (cases "parse_url url ! 0 \<in> {''ask'', ''use'', ''lock'', ''reload'', ''close''}")
  case False
  then have "dm_run_log (log_env E) url c = dm_run (log_env E) url c"
    by (simp add: dm_run_log_def Let_def)
  with dm_run_seen [OF False] show ?thesis by simp
next
  case True
  then show ?thesis
    unfolding dm_run_log_def dm_run_defs Let_def log_env_fields
    by (elim insertE) (simp_all, (intro views; simp add: seen_as_def)+)
qed

section \<open>The server\<close>

lemma forget_server_fields [simp]:
  "dman (forget_server s) = forget (dman s)" "cmax (forget_server s) = cmax s"
  "socket_context (forget_server s) = socket_context s"
  by (simp_all add: forget_server_def)

lemma forget_server_update [simp]:
  "forget_server (s\<lparr>dman := dm\<rparr>) = (forget_server s)\<lparr>dman := forget dm\<rparr>"
  "forget_server (s\<lparr>cmax := k\<rparr>) = (forget_server s)\<lparr>cmax := k\<rparr>"
  "forget_server (s\<lparr>socket_context := t\<rparr>) = (forget_server s)\<lparr>socket_context := t\<rparr>"
  by (simp_all add: forget_server_def)

lemma process_request_seen:
  "process_request E c q u seen (forget dm) =
     map_prod id forget (process_request_log (log_env E) c q u seen dm)"
proof -
  obtain r dm1 where "dm_run_log (log_env E) (req_url q) c (noted (Requested c (req_url q)) dm) = (r, dm1)"
    by fastforce
  with seen_asD [OF dm_run_log_seen, of E "req_url q" c "noted (Requested c (req_url q)) dm"]
  show ?thesis
    by (cases "append_to_opt (req_args q) []"; cases r)
      (auto simp: process_request_def process_request_log_def bind_act_def split: exn.splits)
qed

lemma rounds_seen:
  "rounds E c q ups seen (forget dm) = map_prod id forget (rounds_log (log_env E) c q ups seen dm)"
proof (induction ups arbitrary: seen dm)
  case (Cons u ups)
  obtain r b dm1 where "process_request_log (log_env E) c q u seen dm = ((r, b), dm1)"
    by (metis prod.exhaust)
  with process_request_seen [of E c q u seen dm] Cons.IH show ?case by (cases r) simp_all
qed simp

lemma serve_seen: "serve E c q ch (forget dm) = map_prod id forget (serve_log (log_env E) c q ch dm)"
  by (simp add: serve_def serve_log_def rounds_seen del: rounds.simps rounds_log.simps)

lemma conn_open_seen: "seen_as forget (conn_open c) (conn_open c)"
  unfolding conn_open_def by (rule set_conn_name_seen)

lemma conn_close_seen [simp]: "forget (conn_close c dm) = conn_close c (forget dm)"
  by (simp add: conn_close_def release_each_def Let_def)

lemma conn_started_seen: "seen_as forget_server (conn_started_log lvl addr h) (conn_started h)"
  unfolding seen_as_def
proof
  fix s :: "('a, 'b logged) server"
  define dm where "dm = (if 2 \<le> lvl then noted (Connected (cmax s) (addr h)) (dman s) else dman s)"
  obtain r dm1 where o: "conn_open (cmax s) dm = (r, dm1)" by fastforce
  have "forget dm = forget (dman s)" by (simp add: dm_def)
  with o seen_asD [OF conn_open_seen, of "cmax s" dm]
  show "conn_started h (forget_server s) = map_prod id forget_server (conn_started_log lvl addr h s)"
    unfolding dm_def conn_started_def conn_started_log_def Let_def by (cases "2 \<le> lvl") simp_all
qed

lemma conn_closed_seen: "seen_as forget_server (conn_closed_log h) (conn_closed h)"
  by (auto simp: seen_as_def conn_closed_def conn_closed_log_def split: option.splits)

lemma conn_request_seen: "seen_as forget_server (conn_request_log (log_env E) h q ch) (conn_request E h q ch)"
  by (auto simp: seen_as_def conn_request_def conn_request_log_def serve_seen split: option.splits prod.splits)

lemma main_loop_seen:
  "main_loop E evs (forget_server s) = map_prod id forget_server (main_loop_log lvl addr (log_env E) evs s)"
proof (induction evs arbitrary: s)
  case (Cons ev evs)
  show ?case
  proof (cases ev)
    case Reload_func
    obtain r dm where "read_conf_log (log_env E) (dman s) = (r, dm)" by fastforce
    with seen_asD [OF read_conf_seen, of E "dman s"] Cons.IH [of "s\<lparr>dman := dm\<rparr>"] Reload_func
    show ?thesis by (cases r) (auto split: exn.splits)
  next
    case (Conn_start h)
    obtain r s1 where "conn_started_log lvl addr h s = (r, s1)" by fastforce
    with seen_asD [OF conn_started_seen, of h s lvl addr] Cons.IH [of s1] Conn_start
    show ?thesis by (cases r) auto
  next
    case (Conn_end h)
    obtain r s1 where "conn_closed_log h s = (r, s1)" by fastforce
    with seen_asD [OF conn_closed_seen, of h s] Cons.IH [of s1] Conn_end
    show ?thesis by (cases r) auto
  next
    case (Conn_request h q ch)
    obtain r s1 where "conn_request_log (log_env E) h q ch s = (r, s1)" by fastforce
    with seen_asD [OF conn_request_seen, of E h q ch s] Cons.IH [of s1] Conn_request
    show ?thesis by (cases r) (auto split: reply.splits)
  qed simp
qed simp

lemma new_manager_seen: "new_manager E f w = forget (new_manager_log (log_env E) f (w, l))"
proof -
  let ?dm = "\<lparr>devices = [], conn_names = [], devfile = f, world = (w, l)\<rparr>"
  obtain r dm where "read_conf_log (log_env E) ?dm = (r, dm)" by fastforce
  with seen_asD [OF read_conf_seen, of E ?dm] show ?thesis
    by (auto simp: new_manager_def new_manager_log_def forget_def split: sum.splits exn.splits)
qed

lemma close_each_seen:
  "fst (foldl (\<lambda>w d. snd (dev_close_log (log_vtable V) (d, w))) w ds) = foldl (drop_device V) (fst w) ds"
  by (induction ds arbitrary: w)
    (auto simp: dev_close_log_def dev_close_def drop_device_def split: option.splits)

lemma delete_manager_seen: "delete_manager E (forget dm) = fst (delete_manager_log (log_env E) dm)"
  by (simp add: delete_manager_def delete_manager_log_def close_each_seen)


section \<open>Reading the log\<close>

text \<open>The devices an entry leaves open, and the connections.\<close>

fun devs_after :: "log_entry \<Rightarrow> string set \<Rightarrow> string set" where
  "devs_after (Opened c d) S = insert d S"
| "devs_after (Closed d) S = S - {d}"
| "devs_after (Configured n) S = {}"
| "devs_after e S = S"

fun conns_after :: "log_entry \<Rightarrow> conn set \<Rightarrow> conn set" where
  "conns_after (Connected c a) S = insert c S"
| "conns_after (Disconnected c) S = S - {c}"
| "conns_after e S = S"

definition open_by_log :: "log_entry list \<Rightarrow> string set" where
  "open_by_log l = fold devs_after l {}"

definition conns_by_log :: "log_entry list \<Rightarrow> conn set" where
  "conns_by_log l = fold conns_after l {}"

lemma by_log_append:
  "open_by_log (l @ es) = fold devs_after es (open_by_log l)"
  "conns_by_log (l @ es) = fold conns_after es (conns_by_log l)"
  by (simp_all add: open_by_log_def conns_by_log_def)

text \<open>What is to be recorded, and that it is.\<close>

definition open_devices :: "('d, 'w) manager \<Rightarrow> string set" where
  "open_devices dm = {k. \<exists>d. sm_find (devices dm) k = Some d \<and> drv d \<noteq> None}"

definition recorded :: "('d, 'w logged) manager \<Rightarrow> bool" where
  "recorded dm \<longleftrightarrow> open_by_log (snd (world dm)) = open_devices dm"

text \<open>An entry that is not about a connection, up to some level.\<close>

definition about_devices :: "nat \<Rightarrow> log_entry \<Rightarrow> bool" where
  "about_devices n e \<longleftrightarrow> log_level e \<le> n \<and> (\<forall>C. conns_after e C = C)"

lemma about_devices_simps [simp]:
  "about_devices n (Opened c d) = (2 \<le> n)" "about_devices n (Closed d) = (2 \<le> n)"
  "about_devices n (Reading f) = (1 \<le> n)" "about_devices n (Configured k) = (1 \<le> n)"
  "about_devices n (Cant_read t) = (1 \<le> n)" "about_devices n (Requested c u) = (3 \<le> n)"
  "about_devices n (Answered c t) = (3 \<le> n)" "about_devices n (Failed c t) = (3 \<le> n)"
  by (simp_all add: about_devices_def)

lemma conns_about_devices: "\<forall>e \<in> set es. about_devices n e \<Longrightarrow> fold conns_after es C = C"
  by (induction es arbitrary: C) (simp_all add: about_devices_def)

text \<open>An operation of a device that tells the log what it does to the driver.\<close>

definition tells :: "'d device \<Rightarrow> 'w logged \<Rightarrow> 'd device \<Rightarrow> 'w logged \<Rightarrow> bool" where
  "tells d w d' w' \<longleftrightarrow> dev_name d' = dev_name d \<and>
     (\<exists>es. snd w' = snd w @ es \<and> (\<forall>e \<in> set es. about_devices 2 e) \<and>
        (\<forall>S. (drv d \<noteq> None) = (dev_name d \<in> S) \<longrightarrow>
           fold devs_after es S = (if drv d' = None then S - {dev_name d} else insert (dev_name d) S)))"

definition records :: "(('d, 'w logged) dst, 'r) act \<Rightarrow> bool" where
  "records f \<longleftrightarrow> (\<forall>d w r d' w'. f (d, w) = (r, (d', w')) \<longrightarrow> tells d w d' w')"

named_theorems recs "operations that tell the log what they do"

lemma recordsI: "(\<And>d w r d' w'. f (d, w) = (r, (d', w')) \<Longrightarrow> tells d w d' w') \<Longrightarrow> records f"
  unfolding records_def by blast

lemma recordsD: "records f \<Longrightarrow> f (d, w) = (r, (d', w')) \<Longrightarrow> tells d w d' w'"
  unfolding records_def by blast

lemma tells_silent:
  "dev_name d' = dev_name d \<Longrightarrow> snd w' = snd w \<Longrightarrow> (drv d' = None) = (drv d = None) \<Longrightarrow> tells d w d' w'"
  unfolding tells_def by (auto intro!: exI [of _ "[]"])

lemma tells_opened:
  "dev_name d' = dev_name d \<Longrightarrow> snd w' = snd w @ [Opened c (dev_name d)] \<Longrightarrow> drv d' \<noteq> None \<Longrightarrow> tells d w d' w'"
  unfolding tells_def by (auto intro!: exI [of _ "[Opened c (dev_name d)]"])

lemma tells_closed:
  "dev_name d' = dev_name d \<Longrightarrow> snd w' = snd w @ [Closed (dev_name d)] \<Longrightarrow> drv d' = None \<Longrightarrow> tells d w d' w'"
  unfolding tells_def by (auto intro!: exI [of _ "[Closed (dev_name d)]"])

lemma tells_trans:
  assumes "tells d w d1 w1" and "tells d1 w1 d' w'"
  shows "tells d w d' w'"
proof -
  from assms(1) obtain es where es: "dev_name d1 = dev_name d" "snd w1 = snd w @ es"
    "\<forall>e \<in> set es. about_devices 2 e"
    "\<forall>S. (drv d \<noteq> None) = (dev_name d \<in> S) \<longrightarrow>
       fold devs_after es S = (if drv d1 = None then S - {dev_name d} else insert (dev_name d) S)"
    unfolding tells_def by blast
  from assms(2) obtain fs where fs: "dev_name d' = dev_name d1" "snd w' = snd w1 @ fs"
    "\<forall>e \<in> set fs. about_devices 2 e"
    "\<forall>S. (drv d1 \<noteq> None) = (dev_name d1 \<in> S) \<longrightarrow>
       fold devs_after fs S = (if drv d' = None then S - {dev_name d1} else insert (dev_name d1) S)"
    unfolding tells_def by blast
  show ?thesis
    unfolding tells_def
  proof (intro conjI exI [of _ "es @ fs"] allI impI)
    fix S assume "(drv d \<noteq> None) = (dev_name d \<in> S)"
    with es(4) have *: "fold devs_after es S = (if drv d1 = None then S - {dev_name d} else insert (dev_name d) S)"
      by blast
    have "(drv d1 \<noteq> None) = (dev_name d1 \<in> fold devs_after es S)" by (simp add: * es(1))
    with fs(4) have "fold devs_after fs (fold devs_after es S) =
        (if drv d' = None then fold devs_after es S - {dev_name d1} else insert (dev_name d1) (fold devs_after es S))"
      by blast
    then show "fold devs_after (es @ fs) S =
        (if drv d' = None then S - {dev_name d} else insert (dev_name d) S)"
      by (simp add: * es(1))
  qed (use es fs in auto)
qed

lemma records_silent:
  assumes "\<And>d w r d' w'. f (d, w) = (r, (d', w')) \<Longrightarrow>
     dev_name d' = dev_name d \<and> snd w' = snd w \<and> (drv d' = None) = (drv d = None)"
  shows "records f"
  by (rule recordsI) (use assms in \<open>blast intro: tells_silent\<close>)

lemma records_bind [recs]:
  assumes "records f" and "\<And>x. records (g x)"
  shows "records (bind_act f g)"
proof (rule recordsI)
  fix d w r d' w'
  assume run: "bind_act f g (d, w) = (r, (d', w'))"
  obtain q d1 w1 where f: "f (d, w) = (q, (d1, w1))" by (metis prod_cases3)
  note t = recordsD [OF assms(1) f]
  show "tells d w d' w'"
  proof (cases q)
    case (Inl e)
    with run f t show ?thesis by simp
  next
    case (Inr x)
    with run f have "g x (d1, w1) = (r, (d', w'))" by simp
    from tells_trans [OF t recordsD [OF assms(2) this]] show ?thesis .
  qed
qed

lemma records_ok [recs]: "records (ok x)"
  by (rule records_silent) auto

lemma records_void [recs]: "records f \<Longrightarrow> records (void f)"
  unfolding void_def by (intro recs)

lemma dev_use_records: "records (dev_use_log (log_vtable V) c)"
proof (rule recordsI)
  fix d w r d' w'
  assume "dev_use_log (log_vtable V) c (d, w) = (r, (d', w'))"
  then show "tells d w d' w'"
    by (auto simp: dev_use_log_def map_prod_def add_entry_def intro: tells_silent tells_opened
        split: if_splits option.splits sum.splits prod.splits)
qed

lemma enter_records [recs]:
  "records (\<lambda>s. if c \<in> users (fst s) then (Inr (), s) else dev_use_log (log_vtable V) c s)"
  by (rule recordsI) (auto intro: tells_silent recordsD [OF dev_use_records] split: if_splits)

lemma ask_logged_records [recs]: "records (ask_logged (log_vtable V) m)"
proof (rule records_silent)
  fix d w r d' w'
  assume run: "ask_logged (log_vtable V) m (d, w) = (r, (d', w'))"
  have silent: "drv_call (log_vtable V) m (d1, w) = (q, (d2, w2)) \<Longrightarrow> snd w2 = snd w" for d1 q d2 w2
    by (auto simp: drv_call_def map_prod_def split: option.splits prod.splits)
  from run have "snd w' = snd w" by (cases rule: ask_logged_split) (auto dest: silent)
  with ask_logged_frame [OF run] show "dev_name d' = dev_name d \<and> snd w' = snd w \<and> (drv d' = None) = (drv d = None)"
    by (simp add: same_conf_def)
qed

lemma dev_ask_records [recs]: "records (dev_ask_log (log_vtable V) c m)"
  unfolding dev_ask_log_def by (intro recs)

lemma dev_lock_records [recs]: "records (dev_lock_log (log_vtable V) c)"
  unfolding dev_lock_log_def by (intro recs records_silent) (auto split: if_splits)

lemma dev_close_records [recs]: "records (\<lambda>s. (Inr x, dev_close_log (log_vtable V) s))"
  by (rule recordsI, rule tells_closed)
    (auto simp: dev_close_log_def dev_close_def add_entry_def split: prod.splits option.splits)

section \<open>The manager records what it does\<close>

definition keyed :: "('d, 'w) manager \<Rightarrow> bool" where
  "keyed dm \<longleftrightarrow> smap_ok (devices dm) \<and> (\<forall>k d. sm_find (devices dm) k = Some d \<longrightarrow> dev_name d = k)"

lemma dm_inv_keyed: "dm_inv dm \<Longrightarrow> keyed dm"
  by (simp add: dm_inv_def keyed_def device_in_def)

text \<open>A step of the manager that leaves the log right, if it was so, and opens no connection.\<close>

definition keeps_record :: "nat \<Rightarrow> ('d, 'w logged) manager \<Rightarrow> ('d, 'w logged) manager \<Rightarrow> bool" where
  "keeps_record n dm dm' \<longleftrightarrow> (recorded dm \<longrightarrow> recorded dm') \<and>
     (\<exists>es. snd (world dm') = snd (world dm) @ es \<and> (\<forall>e \<in> set es. about_devices n e))"

lemma keeps_record_conns:
  "keeps_record n dm dm' \<Longrightarrow> conns_by_log (snd (world dm')) = conns_by_log (snd (world dm))"
  by (auto simp: keeps_record_def by_log_append conns_about_devices)

lemma keeps_record_trans: "keeps_record n dm dm1 \<Longrightarrow> keeps_record n dm1 dm' \<Longrightarrow> keeps_record n dm dm'"
  unfolding keeps_record_def by (metis UnE append.assoc set_append)

lemma keeps_record_mono: "keeps_record n dm dm' \<Longrightarrow> n \<le> k \<Longrightarrow> keeps_record k dm dm'"
  unfolding keeps_record_def about_devices_def by (meson order_trans)

lemma keeps_record_silent:
  "snd (world dm') = snd (world dm) \<Longrightarrow> open_devices dm' = open_devices dm \<Longrightarrow> keeps_record n dm dm'"
  by (simp add: keeps_record_def recorded_def)

lemma open_devices_same: "devices dm' = devices dm \<Longrightarrow> open_devices dm' = open_devices dm"
  by (simp add: open_devices_def)

lemma open_devices_forget [simp]: "open_devices (forget dm) = open_devices dm"
  by (simp add: open_devices_def)

lemma noted_record:
  "(\<And>S. devs_after e S = S) \<Longrightarrow> about_devices n e \<Longrightarrow> keeps_record n dm (noted e dm)"
  by (simp add: keeps_record_def recorded_def by_log_append open_devices_def)

lemma with_device_record:
  assumes "records f" and "keyed dm" and "with_device url arg f dm = (r, dm')"
  shows "keeps_record 2 dm dm'"
proof (cases "arg = [] \<or> sm_find (devices dm) arg = None")
  case True
  with assms(3) show ?thesis by (auto simp: with_device_def keeps_record_def split: if_splits)
next
  case False
  then obtain d where d: "sm_find (devices dm) arg = Some d" "arg \<noteq> []" by blast
  obtain q d1 w1 where f: "f (d, world dm) = (q, (d1, w1))" by (metis prod_cases3)
  have dm': "dm' = dm\<lparr>devices := sm_put arg d1 (devices dm), world := w1\<rparr>"
    using assms(3) d f by (simp add: with_device_def)
  have k: "dev_name d = arg" "smap_ok (devices dm)" using assms(2) d(1) by (auto simp: keyed_def)
  from recordsD [OF assms(1) f] obtain es where es: "snd w1 = snd (world dm) @ es"
    "\<forall>e \<in> set es. about_devices 2 e"
    "\<And>S. (drv d \<noteq> None) = (arg \<in> S) \<Longrightarrow>
       fold devs_after es S = (if drv d1 = None then S - {arg} else insert arg S)"
    unfolding tells_def k(1) by blast
  have "open_devices dm' = (if drv d1 = None then open_devices dm - {arg} else insert arg (open_devices dm))"
    by (auto simp: dm' open_devices_def smap.look_put [OF k(2)] split: if_splits)
  moreover have "(drv d \<noteq> None) = (arg \<in> open_devices dm)" using d(1) by (simp add: open_devices_def)
  ultimately show ?thesis
    using es(3) [of "open_devices dm"] by (simp add: keeps_record_def recorded_def dm' es(1,2) by_log_append)
qed

lemma silent_exec_records:
  "a \<in> {Release, Unlock, LogStart, LogFinish, LogGet, Info} \<Longrightarrow> records (dev_exec V a c)"
  by (elim insertE; simp add: dev_exec_def)
    (rule records_silent; auto simp: quiet_def local_def void_def bind_act_def dev_release_def
      dev_unlock_def dev_log_start_def dev_log_finish_def dev_log_get_def Let_def
      split: if_splits prod.splits option.splits sum.splits)+

lemma release_each_record: "keeps_record 2 dm (release_each c dm)"
  by (rule keeps_record_silent)
    (auto simp: release_each_def open_devices_def)

lemma set_conn_name_record: "set_conn_name c n dm = (r, dm') \<Longrightarrow> keeps_record 2 dm dm'"
  by (rule keeps_record_silent)
    (auto simp: set_conn_name_def open_devices_def Let_def split: if_splits)

lemma dm_run_record:
  assumes "parse_url url ! 0 \<notin> {''ask'', ''use'', ''lock'', ''reload'', ''close''}"
    and "keyed dm" and "dm_run E url c dm = (r, dm')"
  shows "keeps_record 2 dm dm'"
proof (cases "device_action (parse_url url ! 0) (parse_url url ! 2)")
  case (Some a)
  then have "a \<in> {Release, Unlock, LogStart, LogFinish, LogGet, Info}"
    using assms(1) unfolding device_action_Some by auto
  from with_device_record [OF silent_exec_records [OF this] assms(2)] assms(3)
  show ?thesis unfolding dm_run_device [OF Some] .
next
  case None
  have same: "keeps_record 2 dm dm" by (rule keeps_record_silent) simp_all
  from None assms(3) show ?thesis
  proof (cases rule: dm_run_other)
    case (reload q)
    with assms(1) show ?thesis by simp
  next
    case (set_name q)
    then show ?thesis by (intro set_conn_name_record)
  next
    case unnamed
    then show ?thesis by (intro keeps_record_silent) (simp_all add: open_devices_def)
  next
    case (release q)
    from keeps_record_trans [OF release_each_record set_conn_name_record [OF release(2)]] show ?thesis .
  qed (use same in simp_all)
qed

lemma read_conf_record:
  assumes "read_conf_log (log_env E) dm = (r, dm')"
  shows "keeps_record 2 dm dm'"
proof (cases "\<exists>evs. conf_file E (devfile dm) (fst (world dm)) = Some evs \<and> (\<exists>ret. conf_loop evs [] = (Inr ret :: _ + (string, 'a device) smap))")
  case False
  have "keeps_record 2 dm dm" by (rule keeps_record_silent) simp_all
  with False assms noted_record [of "Reading (devfile dm)" 2 dm] show ?thesis
    by (auto simp: read_conf_log_def Let_def split: option.splits sum.splits)
next
  case True
  then obtain evs ret where *: "conf_file E (devfile dm) (fst (world dm)) = Some evs"
    "conf_loop evs [] = (Inr ret :: _ + (string, 'a device) smap)" by blast
  have "fresh ret" by (rule conf_loop_fresh [OF *(2)]) (simp add: fresh_def)
  then have "open_devices dm' = {}"
    using assms * fresh_device [OF \<open>fresh ret\<close>]
    by (auto simp: read_conf_log_def Let_def open_devices_def copy_device_def)
  then show ?thesis using assms *
    by (auto simp: read_conf_log_def Let_def keeps_record_def recorded_def by_log_append drop_devices_log)
qed

lemma dm_run_log_record:
  assumes "keyed dm" and "dm_run_log (log_env E) url c dm = (r, dm')"
  shows "keeps_record 2 dm dm'"
proof (cases "parse_url url ! 0 \<in> {''ask'', ''use'', ''lock'', ''reload'', ''close''}")
  case False
  with assms(2) have "dm_run (log_env E) url c dm = (r, dm')" by (simp add: dm_run_log_def Let_def)
  with dm_run_record [OF False assms(1)] show ?thesis .
next
  case reload: True
  show ?thesis
  proof (cases "parse_url url ! 0 = ''reload''")
    case True
    obtain q dm1 where rc: "read_conf_log (log_env E) dm = (q, dm1)" by fastforce
    with assms(2) True have "dm' = dm1" by (cases q) (auto simp: dm_run_log_def Let_def)
    with read_conf_record [OF rc] show ?thesis by simp
  next
    case False
    have dev: "records f \<Longrightarrow> with_device url (parse_url url ! 1) f dm = (r, dm') \<Longrightarrow> ?thesis" for f
      using with_device_record [OF _ assms(1)] .
    from reload False assms(2) show ?thesis
      by (elim insertE) (simp_all add: dm_run_log_def Let_def dev [OF dev_ask_records]
          dev [OF records_void [OF dev_use_records]] dev [OF records_void [OF dev_lock_records]]
          dev [OF dev_close_records])
  qed
qed

section \<open>The server records what it does\<close>

lemma process_request_record:
  assumes "keyed dm" and "process_request_log (log_env E) c q u seen dm = (a, dm')"
  shows "keeps_record 3 dm dm'"
proof -
  have same: "keeps_record 3 dm dm" by (rule keeps_record_silent) simp_all
  define dm1 where "dm1 = noted (Requested c (req_url q)) dm"
  obtain r dm2 where run: "dm_run_log (log_env E) (req_url q) c dm1 = (r, dm2)" by fastforce
  have "keyed dm1" using assms(1) by (simp add: keyed_def dm1_def)
  from keeps_record_trans [OF _ keeps_record_mono [OF dm_run_log_record [OF this run]]]
  have k: "keeps_record 3 dm dm2" by (simp add: dm1_def noted_record)
  have "keeps_record 3 dm d \<Longrightarrow> keeps_record 3 dm (noted (Answered c m) d)"
    "keeps_record 3 dm d \<Longrightarrow> keeps_record 3 dm (noted (Failed c m) d)" for m d
    by (erule keeps_record_trans, simp add: noted_record)+
  with k same run assms(2) show ?thesis
    by (auto simp: process_request_log_def bind_act_def dm1_def split: if_splits sum.splits exn.splits)
qed

lemma rounds_record:
  assumes "dm_inv dm" and "c \<in> open_conns dm" and "rounds_log (log_env E) c q ups seen dm = (r, dm')"
  shows "keeps_record 3 dm dm'"
  using assms
proof (induction ups arbitrary: seen dm)
  case Nil
  then show ?case by (auto intro: keeps_record_silent)
next
  case (Cons u ups)
  obtain a b dm1 where p: "process_request_log (log_env E) c q u seen dm = ((a, b), dm1)"
    by (metis prod.exhaust)
  note k = process_request_record [OF dm_inv_keyed [OF Cons.prems(1)] p]
  have "dm_inv (forget dm1) \<and> open_conns (forget dm1) = open_conns dm"
    using process_request_inv [of "forget dm" c E q u seen] Cons.prems(1,2)
    by (simp add: process_request_seen p)
  then have inv: "dm_inv dm1" "open_conns dm1 = open_conns dm" by simp_all
  show ?case
  proof (cases "a = MHD_YES")
    case True
    with p Cons.prems(3) have "rounds_log (log_env E) c q ups b dm1 = (r, dm')" by simp
    from keeps_record_trans [OF k Cons.IH [OF inv(1) _ this]] inv(2) Cons.prems(2) show ?thesis by simp
  next
    case False
    with p Cons.prems(3) k show ?thesis by (cases a) simp_all
  qed
qed

abbreviation server_log :: "('d, 'w logged) server \<Rightarrow> log_entry list" where
  "server_log s \<equiv> snd (world (dman s))"

definition audited :: "('d, 'w logged) server \<Rightarrow> bool" where
  "audited s \<longleftrightarrow> open_by_log (server_log s) = open_devices (dman s) \<and>
     conns_by_log (server_log s) = open_conns (dman s)"

lemma audited_step:
  "audited s \<Longrightarrow> keeps_record n (dman s) dm \<Longrightarrow> open_conns dm = open_conns (dman s) \<Longrightarrow>
     audited (s\<lparr>dman := dm\<rparr>)"
  using keeps_record_conns [of n "dman s" dm] by (simp add: audited_def keeps_record_def recorded_def)

lemma conn_started_audited:
  assumes "http_inv n (forget_server s)" and "2 \<le> lvl" and "audited s"
    and "conn_started_log lvl addr h s = (Inr (), s')"
  shows "audited s'"
proof -
  let ?e = "Connected (cmax s) (addr h)"
  obtain r dm where o: "conn_open (cmax s) (noted ?e (dman s)) = (r, dm)" by fastforce
  have s': "dman s' = dm" "r = Inr ()"
    using assms(2,4) o by (auto simp: conn_started_log_def Let_def)
  have "open_conns dm = insert (cmax s) (open_conns (dman s))"
    using set_conn_name_open [OF o [unfolded conn_open_def]] s'(2) by (simp add: open_conns_def)
  moreover have "devices dm = devices (dman s)" "world dm = add_entry ?e (world (dman s))"
    using o set_conn_name_devices(1,2) [of "cmax s" "[]" "noted ?e (dman s)"] by (simp_all add: conn_open_def)
  ultimately show ?thesis using assms(3)
    by (simp add: audited_def s' by_log_append open_devices_def)
qed

lemma conn_closed_audited:
  assumes "dm_inv (dman s)" and "audited s" and "conn_closed_log h s = (Inr (), s')"
  shows "audited s'"
proof -
  obtain c where c: "dman s' = noted (Disconnected c) (conn_close c (dman s))"
    using assms(3) by (auto simp: conn_closed_log_def split: option.splits)
  have "open_devices (conn_close c (dman s)) = open_devices (dman s)"
    by (auto simp: conn_close_def release_each_def Let_def open_devices_def)
  moreover have "world (conn_close c (dman s)) = world (dman s)"
    by (simp add: conn_close_def release_each_def Let_def)
  ultimately show ?thesis
    using assms(2) conn_close_inv(2) [OF assms(1)]
    by (simp add: audited_def c by_log_append open_devices_def open_conns_def)
qed

lemma conn_request_audited:
  assumes "http_inv n (forget_server s)" and "audited s"
    and "conn_request_log (log_env E) h q ch s = (Inr r, s')"
  shows "audited s'"
proof -
  obtain c where c: "sm_find (socket_context s) h = Some c"
    using assms(3) by (auto simp: conn_request_log_def split: option.splits)
  have inv: "dm_inv (dman s)" "c \<in> open_conns (dman s)" using assms(1) c by (auto simp: http_inv_def)
  obtain a dm where run: "serve_log (log_env E) c q ch (dman s) = (a, dm)" by fastforce
  then have rounds: "rounds_log (log_env E) c q (0 # ch @ [0]) False (dman s) = (a, dm)"
    unfolding serve_log_def .
  have "rounds E c q (0 # ch @ [0]) False (forget (dman s)) = (a, forget dm)"
    by (simp only: rounds_seen rounds map_prod_simp id_apply)
  with rounds_inv [of "forget (dman s)" c E q "0 # ch @ [0]" False] inv
  have "open_conns dm = open_conns (dman s)" by (simp del: rounds.simps)
  with audited_step [OF assms(2) rounds_record [OF inv rounds]] assms(3) c run show ?thesis
    by (simp add: conn_request_log_def)
qed

text \<open>What holds between two events, and what each kind of event does to it.\<close>

definition log_ready :: "nat \<Rightarrow> ('d, 'w logged) server \<Rightarrow> bool" where
  "log_ready n s \<longleftrightarrow> http_inv n (forget_server s) \<and> audited s"

abbreviation log_handles :: "('d, 'w logged) server \<Rightarrow> nat set" where
  "log_handles s \<equiv> handles (forget_server s)"

lemma reload_ready:
  assumes "log_ready n s" and rc: "read_conf_log (log_env E) (dman s) = (r, dm)"
  shows "log_ready n (s\<lparr>dman := dm\<rparr>)" and "log_handles (s\<lparr>dman := dm\<rparr>) = log_handles s"
proof -
  have rc': "read_conf E (dman (forget_server s)) = (r, forget dm)"
    using seen_asD [OF read_conf_seen, of E "dman s"] rc by simp
  have inv: "http_inv n (forget_server s)" "audited s" using assms(1) by (simp_all add: log_ready_def)
  then have "dm_inv (dman s)" by (simp add: http_inv_def)
  from read_conf_inv [of "forget (dman s)" E r "forget dm"] this rc'
  have "open_conns dm = open_conns (dman s)" by (simp add: open_conns_def)
  from audited_step [OF inv(2) read_conf_record [OF rc] this] reload_http_inv [OF inv(1) rc']
  show "log_ready n (s\<lparr>dman := dm\<rparr>)" "log_handles (s\<lparr>dman := dm\<rparr>) = log_handles s"
    by (simp_all add: log_ready_def)
qed

lemma started_ready:
  assumes "log_ready n s" and "2 \<le> lvl" and "h \<notin> log_handles s" and "Suc n < 2 ^ 64"
    and st: "conn_started_log lvl addr h s = (r, s1)"
  shows "log_ready (Suc n) s1 \<and> log_handles s1 = insert h (log_handles s) \<and> r = Inr ()"
proof -
  have st': "conn_started h (forget_server s) = (r, forget_server s1)"
    using seen_asD [OF conn_started_seen, of h s lvl addr] st by simp
  have inv: "http_inv n (forget_server s)" "audited s" using assms(1) by (simp_all add: log_ready_def)
  have free: "sm_find (socket_context (forget_server s)) h = None" "smap_ok (socket_context (forget_server s))"
    using inv(1) assms(3) by (simp_all add: handles_def http_inv_def)
  from http_inv_started [OF inv(1) free(1) assms(4) st'] have s1: "http_inv (Suc n) (forget_server s1)" "r = Inr ()"
    by simp_all
  with conn_started_handles [OF free(2) st'] conn_started_audited [OF inv(1) assms(2) inv(2) st [unfolded s1(2)]]
  show ?thesis by (simp add: log_ready_def)
qed

lemma closed_ready:
  assumes "log_ready n s" and "h \<in> log_handles s" and cl: "conn_closed_log h s = (r, s1)"
  shows "log_ready n s1 \<and> log_handles s1 = log_handles s - {h} \<and> r = Inr ()"
proof -
  have cl': "conn_closed h (forget_server s) = (r, forget_server s1)"
    using seen_asD [OF conn_closed_seen, of h s] cl by simp
  have inv: "http_inv n (forget_server s)" "audited s" using assms(1) by (simp_all add: log_ready_def)
  then have dm: "dm_inv (dman s)" by (simp add: http_inv_def)
  obtain c where c: "sm_find (socket_context (forget_server s)) h = Some c"
    using assms(2) by (auto simp: handles_def)
  from http_inv_closed [OF inv(1) c cl'] have s1: "http_inv n (forget_server s1)" "r = Inr ()" by simp_all
  with conn_closed_handles [OF c cl'] conn_closed_audited [OF dm inv(2) cl [unfolded s1(2)]]
  show ?thesis by (simp add: log_ready_def)
qed

lemma request_ready:
  assumes "log_ready n s" and "h \<in> log_handles s"
    and rq: "conn_request_log (log_env E) h q ch s = (r, s1)"
  shows "log_ready n s1 \<and> log_handles s1 = log_handles s \<and> (\<exists>a. r = Inr a)"
proof -
  have rq': "conn_request E h q ch (forget_server s) = (r, forget_server s1)"
    using seen_asD [OF conn_request_seen, of E h q ch s] rq by simp
  have inv: "http_inv n (forget_server s)" "audited s" using assms(1) by (simp_all add: log_ready_def)
  obtain c where c: "sm_find (socket_context (forget_server s)) h = Some c"
    using assms(2) by (auto simp: handles_def)
  obtain a where a: "r = Inr a" "log_handles s1 = log_handles s"
    using rq c by (auto simp: conn_request_log_def handles_def split: prod.splits)
  with http_inv_request [OF inv(1) c rq'] conn_request_audited [OF inv rq [unfolded a(1)]]
  show ?thesis by (simp add: log_ready_def)
qed

lemma main_loop_ready:
  assumes "log_ready n s" and "possible (log_handles s) evs" and "n + length evs < 2 ^ 64"
    and "2 \<le> lvl" and "main_loop_log lvl addr (log_env E) evs s = (e, s')"
  shows "\<exists>k. log_ready k s'"
  using assms(1-3,5)
proof (induction evs arbitrary: n s)
  case (Cons ev evs)
  show ?case
  proof (cases ev)
    case Reload_func
    obtain r dm where rc: "read_conf_log (log_env E) (dman s) = (r, dm)" by fastforce
    note re = reload_ready [OF Cons.prems(1) rc]
    show ?thesis
    proof (cases r)
      case (Inl x)
      with rc Reload_func Cons.prems(4) re(1) show ?thesis by (cases x) auto
    next
      case (Inr u)
      with rc Reload_func Cons.prems(2-4) Cons.IH [OF re(1)] re(2) show ?thesis by simp
    qed
  next
    case (Conn_start h)
    obtain r s1 where st: "conn_started_log lvl addr h s = (r, s1)" by fastforce
    from started_ready [OF Cons.prems(1) assms(4) _ _ st] Cons.prems(2,3) Conn_start
    have s1: "log_ready (Suc n) s1" "log_handles s1 = insert h (log_handles s)" "r = Inr ()" by simp_all
    with Cons.IH [OF s1(1)] Cons.prems(2-4) Conn_start st show ?thesis by simp
  next
    case (Conn_end h)
    obtain r s1 where cl: "conn_closed_log h s = (r, s1)" by fastforce
    from closed_ready [OF Cons.prems(1) _ cl] Cons.prems(2) Conn_end
    have s1: "log_ready n s1" "log_handles s1 = log_handles s - {h}" "r = Inr ()" by simp_all
    with Cons.IH [OF s1(1)] Cons.prems(2-4) Conn_end cl show ?thesis by simp
  next
    case (Conn_request h q ch)
    obtain r s1 where rq: "conn_request_log (log_env E) h q ch s = (r, s1)" by fastforce
    from request_ready [OF Cons.prems(1) _ rq] Cons.prems(2) Conn_request
    obtain a where s1: "log_ready n s1" "log_handles s1 = log_handles s" "r = Inr a" by auto
    show ?thesis
    proof (cases "\<exists>x. a = Crash x")
      case True
      with s1 rq Conn_request Cons.prems(4) show ?thesis by (auto split: if_splits)
    next
      case False
      with s1(3) rq Conn_request Cons.prems(4) have "main_loop_log lvl addr (log_env E) evs s1 = (e, s')"
        by (cases a) auto
      with Cons.IH [OF s1(1)] s1(2) Cons.prems(2,3) Conn_request show ?thesis by simp
    qed
  qed (use Cons.prems in auto)
qed auto

lemma new_manager_ready:
  "log_ready 0 \<lparr>dman = new_manager_log (log_env E) f (w, []), cmax = 0, socket_context = []\<rparr>"
proof -
  let ?m = "new_manager_log (log_env E) f (w, [])"
    and ?dm = "\<lparr>devices = [], conn_names = [], devfile = f, world = (w, [])\<rparr>"
  have inv: "dm_inv ?m" "open_conns ?m = {}"
    using new_manager_inv [of E f w] unfolding new_manager_seen [of E f w "[]"] by simp_all
  obtain r dm where rc: "read_conf_log (log_env E) ?dm = (r, dm)" by fastforce
  from keeps_record_trans [OF read_conf_record [OF rc] noted_record] read_conf_record [OF rc] rc
  have "keeps_record 2 ?dm ?m"
    by (auto simp: new_manager_log_def split: sum.splits exn.splits)
  from this keeps_record_conns [OF this]
  have "audited \<lparr>dman = ?m, cmax = 0, socket_context = []\<rparr>"
    using inv(2) by (simp add: keeps_record_def audited_def recorded_def open_devices_def
        open_by_log_def conns_by_log_def)
  with inv show ?thesis by (simp add: log_ready_def http_inv_def)
qed

text \<open>
  C24. The log is a record of the state: with a verbosity of at least 2, after whatever clients do and
  however often the configuration is reloaded, one who has read only the entries from the start on
  knows exactly which devices are open (a device is opened and closed by the lines that name it,
  and a line \<^verbatim>\<open>devices configured\<close> closes all) and exactly which connections there are.
\<close>

theorem log_tells_state:
  assumes "2 \<le> lvl" and "possible {} evs" and "length evs < 2 ^ 64"
    and "main_loop_log lvl addr (log_env E) evs
      \<lparr>dman = new_manager_log (log_env E) f (w, []), cmax = 0, socket_context = []\<rparr> = (e, s)"
  shows "open_by_log (server_log s) = open_devices (dman s) \<and>
    conns_by_log (server_log s) = open_conns (dman s)"
proof -
  have "log_handles \<lparr>dman = new_manager_log (log_env E) f (w, []), cmax = 0, socket_context = []\<rparr> = {}"
    by (simp add: handles_def)
  with main_loop_ready [OF new_manager_ready _ _ assms(1,4)] assms(2,3) show ?thesis
    by (auto simp: log_ready_def audited_def)
qed

text \<open>A server with one device, and a client that asks it.\<close>

definition demo_log_run :: "loop_end \<times> (string, nat logged) server" where
  "demo_log_run = (let E = log_env (test_env [Words 1 [''a'', ''test'']]) in
     main_loop_log 2 (\<lambda>h. 0x7F000001) E
       [Conn_start 7, Conn_request 7 \<lparr>req_method = ''GET'', req_url = ''/ask/a/x'', req_args = []\<rparr> []]
       \<lparr>dman = new_manager_log E ''f'' (0, []), cmax = 0, socket_context = []\<rparr>)"

theorem log_tells_state_witness:
  "open_devices (dman (snd demo_log_run)) = {''a''} \<and> open_conns (dman (snd demo_log_run)) = {0}"
proof -
  obtain e s where m: "demo_log_run = (e, s)" by fastforce
  have "open_by_log (server_log s) = open_devices (dman s) \<and> conns_by_log (server_log s) = open_conns (dman s)"
    by (rule log_tells_state [OF _ _ _ m [unfolded demo_log_run_def Let_def]]) (simp_all add: valued_def)
  moreover have "open_by_log (server_log (snd demo_log_run)) = {''a''} \<and>
      conns_by_log (server_log (snd demo_log_run)) = {0}" by code_simp
  ultimately show ?thesis unfolding m snd_conv by (elim conjE) (intro conjI; simp only:)
qed

section \<open>The lines of a request\<close>

text \<open>What the client got, as the last line of its request says it.\<close>

fun answer_line :: "conn \<Rightarrow> reply \<Rightarrow> log_entry list" where
  "answer_line c (Response st m h) = [if st = 200 then Answered c m else Failed c m]"
| "answer_line c r = []"


text \<open>A request that opens a device, of a client with the number 6.\<close>

definition demo_served :: "reply \<times> (string, nat logged) manager" where
  "demo_served = (let E = log_env (test_env [Words 1 [''b'', ''test'']]) in
     serve_log E 6 \<lparr>req_method = ''GET'', req_url = ''/ask/b/hi'', req_args = [(''k'', Some ''v'')]\<rparr> []
       (new_manager_log E ''f'' (0, [])))"


end
