(* ===== verification/Read_Words.thy ===== *)
theory Read_Words
  imports Prelude
begin

text \<open>
  The functions \<^verbatim>\<open>read_words\<close>, \<^verbatim>\<open>join_words\<close> and \<^verbatim>\<open>unquote_words\<close> of the submodule
  \<^verbatim>\<open>mapsoft2-libs\<close>, as they are in the archive \<^verbatim>\<open>modules.tar\<close>. The components take them as
  parameters; this support theory supplies the functions themselves, so that files and command
  lines can be given as the texts they are. A stream is what is left of it; the lines of a stream
  are counted as the code counts them (\<open>line0\<close>: where the words begin, \<open>line1\<close>: how many ends of
  line have been read). The mode \<^verbatim>\<open>raw\<close>, which nothing here uses, is left out.

  A character read beyond the end of the stream is a variable without a value: \<open>junk\<close> gives
  whatever happens to be there.
\<close>

section \<open>Escape sequences\<close>

datatype escape = Esc_line string | Esc_char char string | Esc_bad string string

definition octal_digit :: "char \<Rightarrow> bool" where
  "octal_digit c \<longleftrightarrow> CHR ''0'' \<le> c \<and> c \<le> CHR ''7''"

definition octal_value :: "char \<Rightarrow> nat" where
  "octal_value c = of_char c - 48"

definition hex_code :: "char \<Rightarrow> nat option" where
  "hex_code c = (if CHR ''0'' \<le> c \<and> c \<le> CHR ''9'' then Some (of_char c - 48)
     else if CHR ''A'' \<le> c \<and> c \<le> CHR ''F'' then Some (of_char c - 55)
     else if CHR ''a'' \<le> c \<and> c \<le> CHR ''f'' then Some (of_char c - 87) else None)"

definition stream_get :: "char \<Rightarrow> string \<Rightarrow> char \<times> string" where
  "stream_get j s = (case s of [] \<Rightarrow> (j, []) | c # t \<Rightarrow> (c, t))"

text \<open>Up to \<open>k\<close> more digits; a character that is none goes back to the stream.\<close>

fun octal :: "(nat \<Rightarrow> char) \<Rightarrow> nat \<Rightarrow> nat \<Rightarrow> string \<Rightarrow> nat \<times> string" where
  "octal junk 0 v s = (v, s)"
| "octal junk (Suc k) v s = (case stream_get (junk k) s of (c, t) \<Rightarrow>
     if octal_digit c then octal junk k (8 * v + octal_value c) t else (v, s))"

definition plain_escapes :: "(char \<times> char) list" where
  "plain_escapes = [(CHR ''a'', CHR 0x07), (CHR ''b'', CHR 0x08), (CHR ''f'', CHR 0x0C),
     (CHR ''n'', CHR 0x0A), (CHR ''r'', CHR 0x0D), (CHR ''t'', CHR 0x09), (CHR ''v'', CHR 0x0B),
     (CHR 0x5C, CHR 0x5C), (CHR 0x27, CHR 0x27), (CHR 0x22, CHR 0x22), (CHR ''?'', CHR ''?''),
     (CHR ''#'', CHR ''#''), (CHR '' '', CHR '' ''), (CHR 0x09, CHR 0x09)]"

text \<open>What follows a backslash. At the end of the stream it stands for itself.\<close>

definition escape :: "(nat \<Rightarrow> char) \<Rightarrow> string \<Rightarrow> escape" where
  "escape junk s = (case s of [] \<Rightarrow> Esc_char CHR 0x5C []
    | c # t \<Rightarrow>
      if c = CHR 0x0A then Esc_line t
      else case map_of plain_escapes c of Some d \<Rightarrow> Esc_char d t
      | None \<Rightarrow>
        if octal_digit c then (case octal junk 2 (octal_value c) t of (v, r) \<Rightarrow> Esc_char (char_of v) r)
        else if c = CHR ''x'' then
          (case stream_get (junk 0) t of (c1, r1) \<Rightarrow> case stream_get (junk 1) r1 of (c2, r2) \<Rightarrow>
             case (hex_code c1, hex_code c2) of
               (Some a, Some b) \<Rightarrow> Esc_char (char_of (16 * a + b)) r2
             | _ \<Rightarrow> Esc_bad ''bad hex escape sequence'' r2)
        else Esc_bad ''bad escape sequence'' t)"

fun esc_rest :: "escape \<Rightarrow> string" where
  "esc_rest (Esc_line r) = r"
| "esc_rest (Esc_char c r) = r"
| "esc_rest (Esc_bad m r) = r"

lemma stream_get_length: "stream_get j s = (c, t) \<Longrightarrow> length t \<le> length s"
  by (auto simp: stream_get_def split: list.splits)

lemma octal_length: "octal junk k v s = (v', r) \<Longrightarrow> length r \<le> length s"
  by (induction junk k v s rule: octal.induct)
    (fastforce split: prod.splits if_splits dest: stream_get_length)+

lemma escape_length: "length (esc_rest (escape junk s)) \<le> length s"
proof (cases s)
  case (Cons c t)
  have "length r2 \<le> length t" if "stream_get a t = (c1, r1)" "stream_get b r1 = (c2, r2)" for a b c1 r1 c2 r2
    using stream_get_length [OF that(1)] stream_get_length [OF that(2)] by linarith
  with Cons show ?thesis
    by (auto simp: escape_def dest!: octal_length split: option.splits prod.splits if_splits) fastforce+
qed (simp add: escape_def)

section \<open>Reading the words of a line\<close>

record reader =
  rd_str :: string
  rd_ret :: "string list"
  quote1 :: bool          \<comment> \<open>inside double quotes\<close>
  quote2 :: bool          \<comment> \<open>inside single quotes\<close>
  comment :: bool
  rd_qq :: bool           \<comment> \<open>the word has quotes: it counts even if it is empty\<close>
  rd_first :: bool
  line0 :: nat
  line1 :: nat

definition rd_push :: "reader \<Rightarrow> reader" where
  "rd_push st = st\<lparr>rd_ret := (if rd_str st \<noteq> [] \<or> rd_qq st then rd_ret st @ [rd_str st] else rd_ret st),
     rd_str := [], rd_qq := False\<rparr>"

definition rd_add :: "char \<Rightarrow> reader \<Rightarrow> reader" where
  "rd_add c st = st\<lparr>rd_str := rd_str st @ [c],
     line0 := (if rd_first st then line1 st + 1 else line0 st), rd_first := False\<rparr>"

definition rd_line :: "char \<Rightarrow> reader \<Rightarrow> reader" where
  "rd_line c st = (if c = CHR 0x0A then st\<lparr>line1 := line1 st + 1\<rparr> else st)"

abbreviation unquoted :: "reader \<Rightarrow> bool" where
  "unquoted st \<equiv> \<not> quote1 st \<and> \<not> quote2 st"

text \<open>One character of the stream: the loop goes on with a new reader, or it is over.\<close>

datatype progress =
    Go reader string
  | Over "string + string list" reader string

fun left_over :: "progress \<Rightarrow> string" where
  "left_over (Go st r) = r"
| "left_over (Over x st r) = r"

definition rd_escaped :: "(nat \<Rightarrow> char) \<Rightarrow> reader \<Rightarrow> string \<Rightarrow> progress" where
  "rd_escaped junk st t = (case escape junk t of
     Esc_line r \<Rightarrow> Go (rd_push (st\<lparr>line1 := line1 st + 1\<rparr>)) r
   | Esc_char d r \<Rightarrow> Go (rd_add d st) r
   | Esc_bad m r \<Rightarrow> Over (Inl m) st r)"

definition rd_step :: "(nat \<Rightarrow> char) \<Rightarrow> bool \<Rightarrow> reader \<Rightarrow> char \<Rightarrow> string \<Rightarrow> progress" where
  "rd_step junk lc st0 c t =
     (let st1 = rd_line c st0 in
      if c = CHR 0x0A \<and> unquoted st1 then
        (let st = rd_push (st1\<lparr>comment := False\<rparr>) in
         if rd_ret st \<noteq> [] then Over (Inr (rd_ret st)) st t else Go st t)
      else let st = (if c = CHR ''#'' \<and> unquoted st1 then st1\<lparr>comment := True\<rparr> else st1) in
        if comment st then Go st t
        else if c = CHR 0x5C then rd_escaped junk st t
        else if c = CHR 0x22 \<and> \<not> quote2 st then Go (st\<lparr>quote1 := \<not> quote1 st, rd_qq := True\<rparr>) t
        else if c = CHR 0x27 \<and> \<not> quote1 st then Go (st\<lparr>quote2 := \<not> quote2 st, rd_qq := True\<rparr>) t
        else if unquoted st \<and> (c = CHR '' '' \<or> c = CHR 0x09) then Go (rd_push st) t
        else Go (rd_add (if lc then tolower c else c) st) t)"

lemma rd_escaped_length: "length (left_over (rd_escaped junk st t)) \<le> length t"
  using escape_length [of junk t] by (auto simp: rd_escaped_def split: escape.split)

lemma rd_step_length: "length (left_over (rd_step junk lc st c t)) \<le> length t"
  by (simp add: rd_step_def Let_def rd_escaped_length)

type_synonym words_read = "(string + string list) \<times> reader \<times> string"

function rd_loop :: "(nat \<Rightarrow> char) \<Rightarrow> bool \<Rightarrow> reader \<Rightarrow> string \<Rightarrow> words_read" where
  "rd_loop junk lc st [] =
     (if quote1 st \<or> quote2 st then Inl ''Unclosed quote'' else Inr (rd_ret (rd_push st)), st, [])"
| "rd_loop junk lc st (c # t) = (case rd_step junk lc st c t of
     Go st1 r \<Rightarrow> rd_loop junk lc st1 r
   | Over x st1 r \<Rightarrow> (x, st1, r))"
  by pat_completeness auto

termination
proof (relation "measure (\<lambda>(junk, lc, st, s). length s)")
  fix junk lc st c t st1 r
  assume "rd_step junk lc st c t = Go st1 r"
  with rd_step_length [of junk lc st c t]
  show "((junk, lc, st1, r), junk, lc, st, c # t) \<in> measure (\<lambda>(junk, lc, st, s). length s)" by simp
qed simp

text \<open>The reader before a line, after so many lines.\<close>

definition rd_start :: "nat \<times> nat \<Rightarrow> reader" where
  "rd_start n = \<lparr>rd_str = [], rd_ret = [], quote1 = False, quote2 = False, comment = False, rd_qq = False,
     rd_first = True, line0 = fst n, line1 = snd n\<rparr>"

text \<open>\<^verbatim>\<open>read_words(ss, line_num, lc)\<close> and \<^verbatim>\<open>read_words(ss)\<close>.\<close>

definition read_words_at :: "(nat \<Rightarrow> char) \<Rightarrow> nat \<times> nat \<Rightarrow> string \<Rightarrow>
    (string + string list) \<times> (nat \<times> nat) \<times> string" where
  "read_words_at junk n s = (case rd_loop junk False (rd_start n) s of
     (Inl m, st, r) \<Rightarrow> (Inl (m @ '' in line '' @ dec (line1 st)), (line0 st, line1 st), r)
   | (Inr ws, st, r) \<Rightarrow> (Inr ws, (line0 st, line1 st), r))"

definition read_words :: "(nat \<Rightarrow> char) \<Rightarrow> bool \<Rightarrow> string \<Rightarrow> (string + string list) \<times> string" where
  "read_words junk lc s = (case rd_loop junk lc (rd_start (0, 0)) s of (r, st, t) \<Rightarrow> (r, t))"

text \<open>Words are found only in a stream that has something left.\<close>

lemma rd_loop_length: "rd_loop junk lc st s = (x, st', t) \<Longrightarrow> length t \<le> length s - 1"
proof (induction junk lc st s rule: rd_loop.induct)
  case (2 junk lc st c s)
  from rd_step_length [of junk lc st c s] 2 show ?case by (fastforce split: progress.splits)
qed simp

lemma rd_loop_shorter:
  assumes "rd_loop junk lc (rd_start n) s = (Inr ws, st, t)" and "ws \<noteq> []"
  shows "length t < length s"
proof -
  have "s \<noteq> []" using assms by (auto simp: rd_start_def rd_push_def)
  with rd_loop_length [OF assms(1)] show ?thesis by (cases s) auto
qed

lemma read_words_at_shorter:
  "read_words_at junk n s = (Inr ws, n', t) \<Longrightarrow> ws \<noteq> [] \<Longrightarrow> length t < length s"
  by (auto simp: read_words_at_def dest: rd_loop_shorter split: prod.splits sum.splits)

lemma read_words_shorter: "read_words junk lc s = (Inr ws, t) \<Longrightarrow> ws \<noteq> [] \<Longrightarrow> length t < length s"
  by (auto simp: read_words_def dest: rd_loop_shorter split: prod.splits)

section \<open>Joining words\<close>

text \<open>One pass of \<^verbatim>\<open>join_words\<close> puts a backslash before every \<open>q\<close>.\<close>

fun backslash :: "char \<Rightarrow> string \<Rightarrow> string" where
  "backslash q [] = []"
| "backslash q (c # s) = (if c = q then CHR 0x5C # q # backslash q s else c # backslash q s)"

definition needs_quotes :: "string \<Rightarrow> bool" where
  "needs_quotes s \<longleftrightarrow> CHR '' '' \<in> set s \<or> CHR 0x09 \<in> set s \<or> CHR 0x0A \<in> set s \<or> s = []"

definition join_word :: "string \<Rightarrow> string" where
  "join_word w = (let str = backslash CHR ''#'' (backslash CHR 0x27 (backslash CHR 0x22 (backslash CHR 0x5C w)))
     in if needs_quotes str then [CHR 0x22] @ str @ [CHR 0x22] else str)"

text \<open>\<^verbatim>\<open>join_words\<close>\<close>

definition words_line :: "string list \<Rightarrow> string" where
  "words_line ws = foldl (\<lambda>ret w. (if ret \<noteq> [] then ret @ '' '' else ret) @ join_word w) [] ws"

function unquote_loop :: "(nat \<Rightarrow> char) \<Rightarrow> string \<Rightarrow> string \<Rightarrow> string result" where
  "unquote_loop junk ret s = (case read_words junk False s of
     (Inl m, r) \<Rightarrow> Inl (Err m)
   | (Inr ws, r) \<Rightarrow> if ws = [] then Inr ret
       else unquote_loop junk (foldl (\<lambda>ret w. (if ret \<noteq> [] then ret @ '' '' else ret) @ w) ret ws) r)"
  by pat_completeness auto

termination
  by (relation "measure (\<lambda>(junk, ret, s). length s)") (auto dest: read_words_shorter [OF sym])

declare unquote_loop.simps [simp del]

definition unquote_words :: "(nat \<Rightarrow> char) \<Rightarrow> string \<Rightarrow> string result" where
  "unquote_words junk s = unquote_loop junk [] s"

section \<open>Reading what was joined\<close>

text \<open>What \<^verbatim>\<open>join_words\<close> makes of one character.\<close>

definition special :: "char \<Rightarrow> bool" where
  "special c \<longleftrightarrow> c \<in> {CHR 0x5C, CHR 0x22, CHR 0x27, CHR ''#''}"

definition blank :: "char \<Rightarrow> bool" where
  "blank c \<longleftrightarrow> c \<in> {CHR '' '', CHR 0x09, CHR 0x0A}"

definition protected_char :: "char \<Rightarrow> string" where
  "protected_char c = (if special c then [CHR 0x5C, c] else [c])"

definition protected :: "string \<Rightarrow> string" where
  "protected w = concat (map protected_char w)"

lemma backslash_all:
  "backslash CHR ''#'' (backslash CHR 0x27 (backslash CHR 0x22 (backslash CHR 0x5C w))) = protected w"
  by (induction w) (simp_all add: protected_def protected_char_def special_def)

lemma protected_simps [simp]:
  "protected [] = []"
  "protected (c # w) = protected_char c @ protected w"
  by (simp_all add: protected_def)

lemma protected_blank: "blank c \<Longrightarrow> c \<in> set (protected w) \<longleftrightarrow> c \<in> set w"
  by (induction w) (auto simp: blank_def protected_char_def special_def)

lemma protected_Nil_iff [simp]: "protected w = [] \<longleftrightarrow> w = []"
  by (cases w) (auto simp: protected_char_def)

definition quoted :: "string \<Rightarrow> bool" where
  "quoted w \<longleftrightarrow> w = [] \<or> (\<exists>c \<in> set w. blank c)"

lemma join_word_alt: "join_word w = (if quoted w then CHR 0x22 # protected w @ [CHR 0x22] else protected w)"
proof -
  have "needs_quotes (protected w) = quoted w"
    using protected_blank [of "CHR '' ''" w] protected_blank [of "CHR 0x09" w] protected_blank [of "CHR 0x0A" w]
    by (auto simp: needs_quotes_def quoted_def blank_def)
  then show ?thesis by (simp add: join_word_def Let_def backslash_all)
qed

lemma join_word_nonempty [simp]: "join_word w \<noteq> []"
  by (simp add: join_word_alt quoted_def)

lemma words_line_Cons:
  "words_line (w # ws) = join_word w @ concat (map (\<lambda>w. '' '' @ join_word w) ws)"
proof -
  have "foldl (\<lambda>ret w. (if ret \<noteq> [] then ret @ '' '' else ret) @ join_word w) r ws =
      r @ concat (map (\<lambda>w. '' '' @ join_word w) ws)" if "r \<noteq> []" for r
    using that by (induction ws arbitrary: r) simp_all
  then show ?thesis by (simp add: words_line_def)
qed

lemma words_line_Nil [simp]: "words_line [] = []"
  by (simp add: words_line_def)

text \<open>The reader after the characters of a word.\<close>

definition rd_feed :: "char \<Rightarrow> reader \<Rightarrow> reader" where
  "rd_feed c st = rd_add c (rd_line c st)"

lemma rd_feed_simps [simp]:
  "rd_str (rd_feed c st) = rd_str st @ [c]" "rd_ret (rd_feed c st) = rd_ret st"
  "quote1 (rd_feed c st) = quote1 st" "quote2 (rd_feed c st) = quote2 st"
  "comment (rd_feed c st) = comment st" "rd_qq (rd_feed c st) = rd_qq st"
  by (simp_all add: rd_feed_def rd_add_def rd_line_def)

lemma fold_feed_simps [simp]:
  "rd_str (fold rd_feed w st) = rd_str st @ w" "rd_ret (fold rd_feed w st) = rd_ret st"
  "quote1 (fold rd_feed w st) = quote1 st" "quote2 (fold rd_feed w st) = quote2 st"
  "comment (fold rd_feed w st) = comment st" "rd_qq (fold rd_feed w st) = rd_qq st"
  by (induction w arbitrary: st) simp_all

lemma rd_loop_char:
  assumes "\<not> comment st" "\<not> quote2 st" "quote1 st \<or> \<not> blank c"
  shows "rd_loop junk False st (protected_char c @ t) = rd_loop junk False (rd_feed c st) t"
  using assms
  by (auto simp: protected_char_def rd_step_def rd_escaped_def escape_def plain_escapes_def special_def blank_def
      rd_line_def rd_feed_def Let_def rd_add_def)

lemma rd_loop_protected:
  assumes "\<not> comment st" "\<not> quote2 st" "quote1 st \<or> (\<forall>c \<in> set w. \<not> blank c)"
  shows "rd_loop junk False st (protected w @ t) = rd_loop junk False (fold rd_feed w st) t"
  using assms
proof (induction w arbitrary: st)
  case (Cons c w)
  then show ?case using rd_loop_char [of st c junk "protected w @ t"] by auto
qed simp

lemma rd_loop_word:
  assumes "\<not> comment st" "unquoted st" "rd_str st = []" "\<not> rd_qq st"
  obtains st' where "\<And>t. rd_loop junk False st (join_word w @ t) = rd_loop junk False st' t"
    "\<not> comment st'" "unquoted st'" "rd_ret st' = rd_ret st" "rd_str st' = w" "w = [] \<longrightarrow> rd_qq st'"
proof (cases "quoted w")
  case False
  then have "\<forall>c \<in> set w. \<not> blank c" "w \<noteq> []" by (auto simp: quoted_def)
  with False assms show thesis
    by (intro that [of "fold rd_feed w st"]) (simp_all add: join_word_alt rd_loop_protected)
next
  case True
  define st1 where "st1 = fold rd_feed w (st\<lparr>quote1 := True, rd_qq := True\<rparr>)"
  have "rd_loop junk False st (join_word w @ t) = rd_loop junk False (st1\<lparr>quote1 := False, rd_qq := True\<rparr>) t" for t
    using True assms rd_loop_protected [of "st\<lparr>quote1 := True, rd_qq := True\<rparr>" w junk "CHR 0x22 # t"]
    by (simp add: join_word_alt rd_step_def rd_line_def st1_def)
  with True assms show thesis
    by (intro that [of "st1\<lparr>quote1 := False, rd_qq := True\<rparr>"]) (simp_all add: st1_def)
qed

text \<open>\<open>sep\<close> is what ends a line: nothing at the end of the stream, or a newline.\<close>

lemma rd_loop_rest:
  assumes "\<not> comment st" "unquoted st" "rd_str st \<noteq> [] \<or> rd_qq st" "t = [] \<or> (\<exists>r. t = CHR 0x0A # r)"
  shows "\<exists>st'. rd_loop junk False st (concat (map (\<lambda>w. '' '' @ join_word w) ws) @ t) =
    (Inr (rd_ret st @ rd_str st # ws), st', drop 1 t)"
  using assms(1-3)
proof (induction ws arbitrary: st)
  case Nil
  then show ?case using assms(4) by (auto simp: rd_step_def rd_line_def rd_push_def)
next
  case (Cons w ws)
  have "\<not> comment (rd_push st)" "unquoted (rd_push st)" "rd_str (rd_push st) = []" "\<not> rd_qq (rd_push st)"
    "rd_ret (rd_push st) = rd_ret st @ [rd_str st]"
    using Cons.prems by (auto simp: rd_push_def)
  moreover obtain st' where "\<And>t. rd_loop junk False (rd_push st) (join_word w @ t) = rd_loop junk False st' t"
    "\<not> comment st'" "unquoted st'" "rd_ret st' = rd_ret (rd_push st)" "rd_str st' = w" "w = [] \<longrightarrow> rd_qq st'"
    by (rule rd_loop_word [where w = w and junk = junk, OF calculation(1-4)]) blast
  ultimately show ?case
    using Cons.IH [of st'] Cons.prems by (auto simp: rd_step_def rd_line_def)
qed

lemma rd_loop_words_line:
  assumes "ws \<noteq> []" "t = [] \<or> (\<exists>r. t = CHR 0x0A # r)"
  shows "\<exists>st. rd_loop junk False (rd_start n) (words_line ws @ t) = (Inr ws, st, drop 1 t)"
proof -
  obtain w vs where ws: "ws = w # vs" using assms(1) by (cases ws) auto
  have "\<not> comment (rd_start n)" "unquoted (rd_start n)" "rd_str (rd_start n) = []" "\<not> rd_qq (rd_start n)"
    "rd_ret (rd_start n) = []" by (simp_all add: rd_start_def)
  moreover obtain st where "\<And>t. rd_loop junk False (rd_start n) (join_word w @ t) = rd_loop junk False st t"
    "\<not> comment st" "unquoted st" "rd_ret st = rd_ret (rd_start n)" "rd_str st = w" "w = [] \<longrightarrow> rd_qq st"
    by (rule rd_loop_word [where w = w and junk = junk, OF calculation(1-4)]) blast
  ultimately show ?thesis
    using rd_loop_rest [of st t junk vs] assms(2) by (auto simp: ws words_line_Cons)
qed

lemma read_words_line: "read_words junk False (words_line ws) = (Inr ws, [])"
proof (cases "ws = []")
  case False
  from rd_loop_words_line [OF this, of "[]" junk "(0, 0)"] show ?thesis by (auto simp: read_words_def)
qed (simp add: read_words_def rd_start_def rd_push_def)

lemma read_words_at_line:
  assumes "ws \<noteq> []"
  obtains n' where "read_words_at junk n (words_line ws @ CHR 0x0A # r) = (Inr ws, n', r)"
  using rd_loop_words_line [OF assms, of "CHR 0x0A # r" junk n] that by (auto simp: read_words_at_def)

text \<open>Quoting one word and taking the quotes off again.\<close>

lemma unquote_join_word: "unquote_words junk (words_line [w]) = Inr w"
  using read_words_line [of junk "[w]"]
  by (simp add: unquote_words_def unquote_loop.simps [of junk "[]" "words_line [w]"]
      unquote_loop.simps [of junk w "[]"] read_words_def rd_start_def rd_push_def)

end
