(* ===== verification/Conf_Text.thy ===== *)
theory Conf_Text
  imports Conf_Props Read_Words
begin

text \<open>
  Configuration files as texts: what \<^verbatim>\<open>DevManager::read_conf\<close> makes of the characters of a file
  when it splits them with the \<^verbatim>\<open>read_words\<close> of \<open>Read_Words\<close>, and what becomes of a file that was
  written with \<^verbatim>\<open>join_words\<close>.
\<close>

section \<open>A file as a sequence of lines\<close>

function conf_evs :: "(nat \<Rightarrow> char) \<Rightarrow> nat \<times> nat \<Rightarrow> string \<Rightarrow> conf_ev list" where
  "conf_evs junk n s = (case read_words_at junk n s of
     (Inl m, n1, r) \<Rightarrow> [WErr (fst n1) m]
   | (Inr ws, n1, r) \<Rightarrow> Words (fst n1) ws # (if ws = [] then [] else conf_evs junk n1 r))"
  by pat_completeness auto

termination
  by (relation "measure (\<lambda>(junk, n, s). length s)") (auto dest: read_words_at_shorter [OF sym])

declare conf_evs.simps [simp del]

text \<open>The files the server can open, by their names.\<close>

definition text_files :: "(nat \<Rightarrow> char) \<Rightarrow> ('w \<Rightarrow> string \<Rightarrow> string option) \<Rightarrow> string \<Rightarrow> 'w \<Rightarrow> conf_ev list option" where
  "text_files junk fs f w = map_option (conf_evs junk (0, 0)) (fs w f)"

section \<open>Writing a file\<close>

text \<open>A device by its name, driver and options.\<close>

type_synonym dev_spec = "string \<times> string \<times> opt"

definition spec_words :: "dev_spec \<Rightarrow> string list" where
  "spec_words = (\<lambda>(n, d, o1). n # d # concat (map (\<lambda>(k, v). [''-'' @ k, v]) o1))"

definition conf_text :: "dev_spec list \<Rightarrow> string" where
  "conf_text ds = concat (map (\<lambda>d. words_line (spec_words d) @ nl) ds)"

lemma conf_evs_text:
  "\<exists>ls m. conf_evs junk n (conf_text ds) = map (\<lambda>(n, vs). Words n vs) ls @ [Words m []] \<and>
     map snd ls = map spec_words ds"
proof (induction ds arbitrary: n)
  case Nil
  have "conf_evs junk n [] = [Words (fst n) []]"
    by (simp add: conf_evs.simps [of junk n] read_words_at_def rd_start_def rd_push_def)
  then show ?case by (intro exI [of _ "[]"]) (simp add: conf_text_def)
next
  case (Cons d ds)
  have ne: "spec_words d \<noteq> []" by (cases d) (simp add: spec_words_def)
  obtain n1 where r: "read_words_at junk n (words_line (spec_words d) @ CHR 0x0A # conf_text ds) =
      (Inr (spec_words d), n1, conf_text ds)"
    using read_words_at_line [OF ne] by blast
  obtain ls m where ls: "conf_evs junk n1 (conf_text ds) = map (\<lambda>(n, vs). Words n vs) ls @ [Words m []]"
    "map snd ls = map spec_words ds" using Cons.IH by blast
  have t: "conf_text (d # ds) = words_line (spec_words d) @ CHR 0x0A # conf_text ds"
    by (simp add: conf_text_def nl_def)
  have "conf_evs junk n (conf_text (d # ds)) =
      map (\<lambda>(n, vs). Words n vs) ((fst n1, spec_words d) # ls) @ [Words m []]"
    unfolding t conf_evs.simps [of junk n] r by (simp add: ne ls(1))
  then show ?case using ls(2) by (intro exI [of _ "(fst n1, spec_words d) # ls"]) auto
qed

lemma conf_loop_end:
  "conf_loop (map (\<lambda>(n, vs). Words n vs) ls @ [Words m []]) ret = conf_loop (lines ls) ret"
  by (induction ls arbitrary: ret) (auto simp: lines_def split: sum.split)

definition spec_ok :: "dev_spec \<Rightarrow> bool" where
  "spec_ok = (\<lambda>(n, d, o1). name_ok n \<and> smap_ok o1 \<and> (\<forall>(k, v) \<in> set o1. k \<noteq> []))"

lemma opt_pairs_words: "opt_pairs (concat (map (\<lambda>(k, v). [CHR ''-'' # k, v]) o1)) = map (\<lambda>(k, v). (CHR ''-'' # k, v)) o1"
  by (induction o1) auto

lemma even_words: "even (length (concat (map (\<lambda>(k, v). [CHR ''-'' # k, v]) o1)))"
  by (induction o1) auto

lemma spec_line_ok: "spec_ok d \<Longrightarrow> line_ok (spec_words d)"
  by (cases d) (auto simp: spec_ok_def spec_words_def line_ok_def opt_pairs_words even_words
      simp del: length_concat)

text \<open>Putting the pairs of a sorted map one after the other into an empty one gives the map.\<close>

lemma fold_put_find:
  assumes "smap_ok m" and "distinct (map fst o1)"
  shows "smap_ok (fold (\<lambda>(k, v). opt_put k v) o1 m) \<and>
    sm_find (fold (\<lambda>(k, v). opt_put k v) o1 m) j = (case map_of o1 j of Some v \<Rightarrow> Some v | None \<Rightarrow> sm_find m j)"
  using assms
proof (induction o1 arbitrary: m)
  case (Cons kv o1)
  obtain k v where kv: "kv = (k, v)" by fastforce
  then have "map_of o1 k = None" using Cons.prems(2) by (simp add: map_of_eq_None_iff)
  with Cons.IH [of "opt_put k v m"] Cons.prems kv show ?case by (auto split: option.splits)
qed simp

lemma fold_put_id: "smap_ok o1 \<Longrightarrow> fold (\<lambda>(k, v). opt_put k v) o1 [] = o1"
  using fold_put_find [of "[]" o1] smap_ok_distinct [of o1]
  by (intro smap_eqI) (auto simp: sm_find_def split: option.split)

lemma spec_device:
  assumes "spec_ok (n, d, o1)"
  shows "spec_words (n, d, o1) ! 0 = n" "line_device (spec_words (n, d, o1)) = new_device n d o1"
proof -
  have "fold (\<lambda>(k, v). opt_put (tl k) v) (map (\<lambda>(k, v). (CHR ''-'' # k, v)) o1) [] =
      fold (\<lambda>(k, v). opt_put k v) o1 []"
    unfolding fold_map by (rule arg_cong2 [of _ _ _ _ "\<lambda>f x. fold f x []"]) auto
  also have "\<dots> = o1" using assms by (simp add: spec_ok_def fold_put_id)
  finally show "spec_words (n, d, o1) ! 0 = n" "line_device (spec_words (n, d, o1)) = new_device n d o1"
    by (simp_all add: line_device_def spec_words_def opt_pairs_words del: length_concat)
qed

section \<open>Reading what was written\<close>

definition spec_devices :: "dev_spec list \<Rightarrow> (string \<times> 'd device) list" where
  "spec_devices ds = map (\<lambda>(n, d, o1). (n, new_device n d o1)) ds"

lemma conf_loop_text:
  assumes "distinct (map fst ds)" and "\<forall>d \<in> set ds. spec_ok d"
  obtains ret :: "(string, 'd device) smap" where "conf_loop (conf_evs junk n (conf_text ds)) [] = Inr ret"
    "smap_ok ret" "\<And>k. sm_find ret k = map_of (spec_devices ds) k"
proof -
  obtain ls m where ls: "conf_evs junk n (conf_text ds) = map (\<lambda>(n, vs). Words n vs) ls @ [Words m []]"
    "map snd ls = map spec_words ds" using conf_evs_text by blast
  have snds: "map (\<lambda>(n, vs). f vs) ls = map (\<lambda>d. f (spec_words d)) ds" for f :: "string list \<Rightarrow> 'x"
    using arg_cong [OF ls(2), of "map f"] by (simp add: split_def comp_def)
  have all: "(\<forall>(n, vs) \<in> set ls. P vs) \<longleftrightarrow> (\<forall>d \<in> set ds. P (spec_words d))" for P
    using arg_cong [OF ls(2), of "\<lambda>xs. \<forall>x \<in> set xs. P x"] by (auto simp: case_prod_beta)
  have ne: "\<forall>(n, vs) \<in> set ls. vs \<noteq> []" unfolding all by (auto simp: spec_words_def)
  have names: "map (\<lambda>(n, vs). vs ! 0) ls = map fst ds"
    unfolding snds [of "\<lambda>vs. vs ! 0"] by (auto simp: spec_words_def)
  have ok: "conf_ok ls"
    using assms spec_line_ok unfolding conf_ok_def all names by blast
  have dev: "map (\<lambda>(n, vs). (vs ! 0, line_device vs :: 'd device)) ls = spec_devices ds"
    unfolding snds [of "\<lambda>vs. (vs ! 0, line_device vs)"] spec_devices_def
    using assms(2) spec_device by (fastforce intro: map_cong)
  obtain ret :: "(string, 'd device) smap" where ret: "conf_loop (lines ls) [] = Inr ret" "smap_ok ret"
    "\<And>k. sm_find ret k = map_of (spec_devices ds) k"
    using conf_loop_lines [OF ne, of "[] :: (string, 'd device) smap"] ok
    by (auto simp: dev sm_has_def split: sum.splits option.splits)
  then show thesis by (intro that [of ret]) (simp_all add: ls(1) conf_loop_end)
qed

text \<open>
  C21. A configuration written device by device with \<^verbatim>\<open>join_words\<close> is read back as it was meant:
  whatever characters driver names and option values contain (spaces, quotes, hash signs,
  newlines), a reload answers the number of devices, and the manager has exactly these devices,
  each closed, with its driver and exactly its options.
\<close>

theorem conf_text_reload:
  fixes E :: "('d, 'w) env"
  assumes "distinct (map fst ds)" and "\<forall>d \<in> set ds. spec_ok d"
    and "conf_file E = text_files junk fs" and "fs (world dm) (devfile dm) = Some (conf_text ds)"
    and "parse_url url ! 0 = ''reload''"
  shows "\<exists>dm'. dm_run E url c dm = (Inr (''Device configuration reloaded: '' @ dec (length ds) @ '' devices''), dm') \<and>
    (\<forall>k. sm_find (devices dm') k = map_of (map (\<lambda>(n, d, o1). (n, new_device n d o1)) ds) k)"
proof -
  obtain ret :: "(string, 'd device) smap" where ret: "conf_loop (conf_evs junk (0, 0) (conf_text ds)) [] = Inr ret"
    "smap_ok ret" "\<And>k. sm_find ret k = map_of (spec_devices ds) k"
    using conf_loop_text [OF assms(1,2)] by blast
  have keys: "map fst (spec_devices ds :: (string \<times> 'd device) list) = map fst ds"
    by (simp add: spec_devices_def case_prod_beta comp_def)
  have "copy_device d = d" if "(k, d) \<in> set ret" for k d
  proof -
    have "(k, d) \<in> set (spec_devices ds)"
      using that ret(2,3) by (metis map_of_SomeD sm_find_iff)
    then show ?thesis using copy_new_device by (auto simp: spec_devices_def)
  qed
  then have copied: "sm_each copy_device ret = ret" by (auto intro: sm_each_id)
  have "set (map fst ret) = set (map fst (spec_devices ds :: (string \<times> 'd device) list))"
    using ret(3) by (auto simp: sm_find_def fun_eq_iff dest!: fun_cong simp flip: dom_map_of_conv_image_fst)
  then have "length ret = length ds"
    using assms(1) smap_ok_distinct [OF ret(2)] unfolding keys by (metis distinct_card length_map)
  then show ?thesis
    using assms(3-5) ret(1,3) by (simp add: dm_run_defs Let_def read_conf_def text_files_def copied
        bind_act_def spec_devices_def)
qed

text \<open>A device whose options have quotes, a hash sign and an end of line in their values.\<close>

definition demo_specs :: "dev_spec list" where
  "demo_specs = [(''gen'', ''net'', [(''add_str'', nl), (''addr'', ''10.0.0.7'')]),
     (''dmm'', ''spp'', [(''prog'', ''dmm --id \"#1\"'')])]"

definition demo_fs :: "nat \<Rightarrow> string \<Rightarrow> string option" where
  "demo_fs w f = (if f = ''devices.cfg'' then Some (conf_text demo_specs) else None)"

definition demo_files :: "(string, nat) env" where
  "demo_files = (test_env [])\<lparr>conf_file := text_files (\<lambda>n. CHR ''0'') demo_fs\<rparr>"

theorem conf_text_reload_witness:
  "\<exists>dm'. dm_run demo_files ''/reload'' 3
      \<lparr>devices = [], conn_names = [], devfile = ''devices.cfg'', world = 0\<rparr> =
      (Inr (''Device configuration reloaded: '' @ dec 2 @ '' devices''), dm') \<and>
    sm_find (devices dm') ''dmm'' = Some (new_device ''dmm'' ''spp'' [(''prog'', ''dmm --id \"#1\"'')])"
proof -
  let ?dm = "\<lparr>devices = [], conn_names = [], devfile = ''devices.cfg'', world = 0\<rparr> :: (string, nat) manager"
  have url: "parse_url ''/reload'' ! 0 = ''reload''"
    by (simp add: parse_url_url_parts npos_def url_parts_def cut_slash_def)
  have ok: "\<forall>d \<in> set demo_specs. spec_ok d"
    by (simp add: demo_specs_def spec_ok_def name_ok_def smap_ok_def)
  have "\<exists>dm'. dm_run demo_files ''/reload'' 3 ?dm =
      (Inr (''Device configuration reloaded: '' @ dec (length demo_specs) @ '' devices''), dm') \<and>
    (\<forall>k. sm_find (devices dm') k = map_of (map (\<lambda>(n, d, o1). (n, new_device n d o1)) demo_specs) k)"
    by (rule conf_text_reload [OF _ ok _ _ url, where junk = "\<lambda>n. CHR ''0''" and fs = demo_fs])
      (simp_all add: demo_specs_def demo_files_def demo_fs_def)
  then show ?thesis by (auto simp: demo_specs_def numeral_2_eq_2)
qed

end
