(* ===== verification/Drv_Spp.thy ===== *)
theory Drv_Spp
  imports Driver_Iface
begin

text \<open>
  \<^verbatim>\<open>server/drv_spp.h\<close> and \<^verbatim>\<open>server/drv_spp.cpp\<close>: the driver for programs that speak the
  Simple Pipe Protocol. The program runs behind an \<^verbatim>\<open>IOFilter\<close> of the \<^verbatim>\<open>mapsoft2-libs\<close>
  submodule, which is the parameter \<open>filter_sys\<close>: \<open>'p\<close> is the filter object, \<open>'f\<close> the
  floating-point type and \<open>'w\<close> the outside world. The loop of \<^verbatim>\<open>read_spp\<close> runs as long as the
  program keeps sending lines.
\<close>

record ('p, 'f, 'w) filter_sys =
  flt_new :: "string \<Rightarrow> ('w, 'p) act"
  flt_getline :: "'p \<Rightarrow> 'f \<Rightarrow> ('w, int \<times> string) act"   \<comment> \<open>the result is negative at the end of the file\<close>
  flt_put :: "'p \<Rightarrow> string \<Rightarrow> 'w \<Rightarrow> 'w"                 \<comment> \<open>write and flush\<close>
  flt_close_input :: "'p \<Rightarrow> 'w \<Rightarrow> 'w"
  flt_term :: "'p \<Rightarrow> 'f \<Rightarrow> 'w \<Rightarrow> 'w"

record ('p, 'f) spp_drv =
  flt :: "'p option"
  prog :: string
  ch :: char
  open_timeout :: 'f
  read_timeout :: 'f
  close_timeout :: 'f
  errpref :: string
  idn :: string

section \<open>Reading an answer\<close>

text \<open>What one line does to the answer collected so far.\<close>

datatype spp_step = Done string | More string | Fail string

definition spp_line :: "char \<Rightarrow> string \<Rightarrow> string \<Rightarrow> string \<Rightarrow> spp_step" where
  "spp_line c pr ret l =
     (if 0 < length l \<and> l ! 0 = c then
        (if substr l 1 7 = ''Error: '' then Fail (drop 8 l)
         else if substr l 1 7 = ''Fatal: '' then Fail (drop 8 l)
         else if drop 1 l = ''OK'' then Done ret
         else let ret1 = (if 0 < length ret then ret @ nl else ret) in
           if 1 < length l \<and> l ! 1 = c then More (ret1 @ drop 1 l)
           else Fail (''SPP: symbol '' @ [c] @ '' in the beginning of a line is not protected: '' @ pr))
      else More ((if 0 < length ret then ret @ nl else ret) @ l))"

partial_function (option) spp_loop :: "('p, 'f, 'w) filter_sys \<Rightarrow> 'p \<Rightarrow> 'f \<Rightarrow> char \<Rightarrow> string \<Rightarrow>
    string \<Rightarrow> 'w \<Rightarrow> (string result \<times> 'w) option" where
  "spp_loop I p t c pr ret w =
     (case flt_getline I p t w of
        (Inl e, w1) \<Rightarrow> Some (Inl e, w1)
      | (Inr (res, l), w1) \<Rightarrow>
          if res < 0 then Some (Inl (Err (''SPP: unexpected EOF: '' @ pr)), w1)
          else (case spp_line c pr ret l of
                  Done r \<Rightarrow> Some (Inr r, w1)
                | Fail m \<Rightarrow> Some (Inl (Err m), w1)
                | More r \<Rightarrow> spp_loop I p t c pr r w1))"

declare spp_loop.simps [code]

definition read_spp :: "('p, 'f, 'w) filter_sys \<Rightarrow> ('p, 'f) spp_drv \<Rightarrow> 'f \<Rightarrow> ('w, string) act" where
  "read_spp I d timeout = (\<lambda>w. case flt d of
      None \<Rightarrow> (Inl (Err ''SPP: read from closed device''), w)
    | Some p \<Rightarrow> or_hang (spp_loop I p timeout (ch d) (prog d) []) w)"

section \<open>The driver\<close>

text \<open>The part of the constructor inside \<^verbatim>\<open>try\<close>: it answers the special character.\<close>

definition spp_header :: "('p, 'f, 'w) filter_sys \<Rightarrow> 'f conv \<Rightarrow> ('p, 'f) spp_drv \<Rightarrow> 'p \<Rightarrow>
    ('w, char) act" where
  "spp_header I F d p =
     bind_act (flt_getline I p (open_timeout d)) (\<lambda>(res, l).
       if length l < 5 \<or> l ! 1 \<noteq> CHR ''S'' \<or> l ! 2 \<noteq> CHR ''P'' \<or> l ! 3 \<noteq> CHR ''P''
       then throw (errpref d @ ''not an SPP program, header expected'')
       else bind_act (lift_res (p_int F (drop 4 l))) (\<lambda>ver.
         if ver \<noteq> 1 \<and> ver \<noteq> 2 then throw (errpref d @ ''unsupported SPP version'')
         else bind_act (read_spp I (d\<lparr>flt := Some p, ch := l ! 0\<rparr>) (open_timeout d))
                (\<lambda>_. ok (l ! 0))))"

definition spp_create :: "('p, 'f, 'w) filter_sys \<Rightarrow> 'f conv \<Rightarrow> opt \<Rightarrow> ('w, ('p, 'f) spp_drv) act" where
  "spp_create I F opts =
     bind_act (lift_res (opt_check_unknown
         [''prog'', ''open_timeout'', ''read_timeout'', ''close_timeout'', ''errpref'', ''idn''] opts))
     (\<lambda>_. let ep0 = opt_get opts ''errpref'' ''spp: ''; pr = opt_get opts ''prog'' [] in
       if pr = [] then throw (ep0 @ ''parameter -prog is empty or missing'')
       else let ep = ep0 @ pr @ '': '' in
         bind_act (lift_res (opt_get_as (p_double F) opts ''open_timeout'' (f_lit F ''20.0''))) (\<lambda>ot.
         bind_act (lift_res (opt_get_as (p_double F) opts ''read_timeout'' (f_lit F ''10.0''))) (\<lambda>rt.
         bind_act (lift_res (opt_get_as (p_double F) opts ''close_timeout'' (f_lit F ''5.0''))) (\<lambda>ct.
         bind_act (flt_new I pr) (\<lambda>p w.
           let d = \<lparr>flt = Some p, prog = pr, ch = CHR 0x00, open_timeout = ot,
                    read_timeout = rt, close_timeout = ct, errpref = ep, idn = []\<rparr>
           in case spp_header I F d p w of
                (Inl (Err e), w1) \<Rightarrow> (Inl (Err e), flt_term I p ct (flt_close_input I p w1))
              | (Inl x, w1) \<Rightarrow> (Inl x, w1)
              | (Inr c, w1) \<Rightarrow> (Inr (d\<lparr>ch := c, idn := opt_get opts ''idn'' []\<rparr>), w1))))))"

definition spp_destroy :: "('p, 'f, 'w) filter_sys \<Rightarrow> ('p, 'f) spp_drv \<Rightarrow> 'w \<Rightarrow> 'w" where
  "spp_destroy I d w = (case flt d of
      None \<Rightarrow> w
    | Some p \<Rightarrow> flt_term I p (close_timeout d) (flt_close_input I p w))"

definition spp_read :: "('p, 'f, 'w) filter_sys \<Rightarrow> ('p, 'f) spp_drv \<Rightarrow> ('w, string) act" where
  "spp_read I d = (case flt d of
      None \<Rightarrow> throw (errpref d @ ''device is closed'')
    | Some p \<Rightarrow> read_spp I d (read_timeout d))"

definition spp_write :: "('p, 'f, 'w) filter_sys \<Rightarrow> ('p, 'f) spp_drv \<Rightarrow> string \<Rightarrow> ('w, unit) act" where
  "spp_write I d msg = (\<lambda>w. case flt d of
      None \<Rightarrow> (Inl (Err (errpref d @ ''device is closed'')), w)
    | Some p \<Rightarrow> (Inr (), flt_put I p (msg @ nl) w))"

text \<open>The condition is the result of \<^verbatim>\<open>strcasecmp\<close> itself: it holds when the texts differ.\<close>

definition spp_ask :: "('p, 'f, 'w) filter_sys \<Rightarrow> ('p, 'f) spp_drv \<Rightarrow> string \<Rightarrow> ('w, string) act" where
  "spp_ask I d msg =
     (if idn d \<noteq> [] \<and> \<not> strcaseeq msg ''*idn?'' then ok (idn d)
      else bind_act (spp_write I d msg) (\<lambda>_. spp_read I d))"

section \<open>Lines and answers\<close>

text \<open>The successive lines the program sends.\<close>

fun delivers :: "('p, 'f, 'w) filter_sys \<Rightarrow> 'p \<Rightarrow> 'f \<Rightarrow> string list \<Rightarrow> 'w \<Rightarrow> 'w \<Rightarrow> bool" where
  "delivers I p t [] w w' = (w' = w)"
| "delivers I p t (l # ls) w w' =
     (\<exists>r w1. flt_getline I p t w = (Inr (r, l), w1) \<and> 0 \<le> r \<and> delivers I p t ls w1 w')"

text \<open>How a program writes a line of its answer, and what it means.\<close>

definition protect :: "char \<Rightarrow> string \<Rightarrow> string" where
  "protect c l = (if \<exists>r. l = c # r then c # l else l)"

fun unlines :: "string list \<Rightarrow> string" where
  "unlines [] = []"
| "unlines [l] = l"
| "unlines (l # ls) = l @ nl @ unlines ls"

text \<open>The answer collected from \<open>ls\<close> after \<open>ret\<close>.\<close>

definition collect :: "string \<Rightarrow> string list \<Rightarrow> string" where
  "collect ret ls = foldl (\<lambda>r l. (if r = [] then r else r @ nl) @ l) ret ls"

lemma collect_simps [simp]:
  "collect ret [] = ret"
  "collect ret (l # ls) = collect ((if ret = [] then ret else ret @ nl) @ l) ls"
  by (simp_all add: collect_def)

lemma collect_nonempty:
  "ret \<noteq> [] \<Longrightarrow> collect ret ls = unlines (ret # ls)"
proof (induction ls arbitrary: ret)
  case (Cons l ls)
  then have "collect (ret @ nl @ l) ls = unlines ((ret @ nl @ l) # ls)" by simp
  also have "\<dots> = unlines (ret # l # ls)" by (cases ls) simp_all
  finally show ?case using Cons.prems by simp
qed simp

lemma collect_empty: "collect [] ls = unlines (dropWhile (\<lambda>l. l = []) ls)"
  by (induction ls) (simp_all add: collect_nonempty)

lemma spp_line_protected:
  assumes "c \<notin> {CHR ''O'', CHR ''E'', CHR ''F''}"
  shows "spp_line c pr ret (protect c l) = More ((if ret = [] then ret else ret @ nl) @ l)"
proof (cases "\<exists>r. l = c # r")
  case True
  then obtain r where l: "l = c # r" ..
  have "substr (c # l) 1 7 = c # take 6 r" by (simp add: substr_def l)
  with assms have "substr (c # l) 1 7 \<noteq> ''Error: ''" "substr (c # l) 1 7 \<noteq> ''Fatal: ''" "l \<noteq> ''OK''"
    by (auto simp: l)
  then show ?thesis by (simp add: spp_line_def protect_def l Let_def)
next
  case False
  then have "\<not> (0 < length l \<and> l ! 0 = c)" by (cases l) auto
  with False show ?thesis by (auto simp: spp_line_def protect_def)
qed

lemma spp_line_ok: "spp_line c pr ret (c # ''OK'') = Done ret"
  by (simp add: spp_line_def substr_def)

lemma spp_loop_lines:
  assumes "c \<notin> {CHR ''O'', CHR ''E'', CHR ''F''}"
    and "delivers I p t (map (protect c) ls @ [c # ''OK'']) w w'"
  shows "spp_loop I p t c pr ret w = Some (Inr (collect ret ls), w')"
  using assms(2)
proof (induction ls arbitrary: ret w)
  case Nil
  then show ?case by (auto simp: spp_loop.simps [of I p t c pr ret w] spp_line_ok)
next
  case (Cons l ls)
  then obtain r w1 where g: "flt_getline I p t w = (Inr (r, protect c l), w1)" "0 \<le> r"
    and d: "delivers I p t (map (protect c) ls @ [c # ''OK'']) w1 w'" by auto
  show ?case
    using Cons.IH [OF d] g by (simp add: spp_loop.simps [of I p t c pr ret w] spp_line_protected [OF assms(1)])
qed


text \<open>A program whose output is a list of lines, for the witnesses: the world is what it has
  left to say and what was written to it.\<close>

definition list_filter :: "(unit, nat, string list \<times> string) filter_sys" where
  "list_filter = \<lparr>flt_new = (\<lambda>p. ok ()),
     flt_getline = (\<lambda>p t (ls, o'). case ls of [] \<Rightarrow> (Inr (-1, []), ([], o')) | l # r \<Rightarrow> (Inr (0, l), (r, o'))),
     flt_put = (\<lambda>p s (ls, o'). (ls, o' @ s)), flt_close_input = (\<lambda>p w. w), flt_term = (\<lambda>p t w. w)\<rparr>"

definition list_spp :: "(unit, nat) spp_drv" where
  "list_spp = \<lparr>flt = Some (), prog = ''p'', ch = CHR ''#'', open_timeout = 0, read_timeout = 0,
     close_timeout = 0, errpref = ''spp: p: '', idn = []\<rparr>"


text \<open>
  An \<^verbatim>\<open>Error:\<close> or \<^verbatim>\<open>Fatal:\<close> line ends the answer: whatever lines came before it, the
  driver throws its text and leaves the rest of the output unread.
\<close>

theorem spp_error_line:
  assumes "flt d = Some p" and "ch d \<notin> {CHR ''O'', CHR ''E'', CHR ''F''}"
    and "kind \<in> {''Error: '', ''Fatal: ''}"
    and "delivers I p (read_timeout d) (map (protect (ch d)) ls @ [ch d # kind @ m]) w w'"
  shows "spp_read I d w = (Inl (Err m), w')"
proof -
  have fail: "spp_line (ch d) (prog d) ret (ch d # kind @ m) = Fail m" for ret
    using assms(3) by (auto simp: spp_line_def substr_def)
  have "spp_loop I p (read_timeout d) (ch d) (prog d) ret w = Some (Inl (Err m), w')" for ret
    using assms(4)
  proof (induction ls arbitrary: ret w)
    case Nil
    then show ?case
      by (auto simp: spp_loop.simps [of I p "read_timeout d" "ch d" "prog d" ret w] fail)
  next
    case (Cons l ls)
    then obtain r w1 where g: "flt_getline I p (read_timeout d) w = (Inr (r, protect (ch d) l), w1)"
      "0 \<le> r" and rest: "delivers I p (read_timeout d) (map (protect (ch d)) ls @ [ch d # kind @ m]) w1 w'"
      by auto
    show ?case
      using Cons.IH [OF rest] g
      by (simp add: spp_loop.simps [of I p "read_timeout d" "ch d" "prog d" ret w]
          spp_line_protected [OF assms(2)])
  qed
  then show ?thesis using assms(1) by (simp add: spp_read_def read_spp_def)
qed

theorem spp_error_line_witness:
  "spp_read list_filter list_spp ([''a'', ''#Error: no device'', ''x''], []) =
     (Inl (Err ''no device''), ([''x''], []))"
proof (rule spp_error_line)
  show "delivers list_filter () (read_timeout list_spp)
     (map (protect (ch list_spp)) [''a''] @ [ch list_spp # ''Error: '' @ ''no device''])
     ([''a'', ''#Error: no device'', ''x''], []) ([''x''], [])"
    by (simp add: list_spp_def list_filter_def protect_def)
qed (simp_all add: list_spp_def)

text \<open>
  Reading returns whenever the output of the program ends, in the end of the file or in
  an error of the pipe, however many lines it sent before.
\<close>

theorem spp_read_returns:
  assumes "delivers I p (read_timeout d) ls w w1"
    and "case flt_getline I p (read_timeout d) w1 of (Inl e, w2) \<Rightarrow> e \<noteq> Hang | (Inr (res, l), w2) \<Rightarrow> res < 0"
    and "flt d = Some p"
  shows "fst (spp_read I d w) \<noteq> Inl Hang"
proof -
  have "\<exists>r s. spp_loop I p (read_timeout d) (ch d) (prog d) ret w = Some (r, s) \<and> r \<noteq> Inl Hang" for ret
    using assms(1)
  proof (induction ls arbitrary: ret w)
    case Nil
    with assms(2) show ?case
      by (auto simp: spp_loop.simps [of I p "read_timeout d" "ch d" "prog d" ret w]
          split: prod.splits sum.splits)
  next
    case (Cons l ls)
    then obtain r w2 where g: "flt_getline I p (read_timeout d) w = (Inr (r, l), w2)" "0 \<le> r"
      and rest: "delivers I p (read_timeout d) ls w2 w1" by auto
    show ?case
    proof (cases "spp_line (ch d) (prog d) ret l")
      case (More r)
      with g Cons.IH [OF rest, of r] show ?thesis
        by (simp add: spp_loop.simps [of I p "read_timeout d" "ch d" "prog d" ret w])
    qed (use g in \<open>simp_all add: spp_loop.simps [of I p "read_timeout d" "ch d" "prog d" ret w]\<close>)
  qed
  from this [of "[]"] show ?thesis
    using assms(3) by (auto simp: spp_read_def read_spp_def)
qed

theorem spp_read_returns_witness:
  "fst (spp_read list_filter list_spp ([''a'', ''b''], [])) \<noteq> Inl Hang"
  by (rule spp_read_returns [where ls = "[''a'', ''b'']" and ?w1.0 = "([], [])" and p = "()"])
    (simp_all add: list_filter_def list_spp_def)

text \<open>
  A failing constructor leaves no program behind: either it never started one, or its
  last two actions are to close the input of the program and to terminate it.
\<close>

theorem spp_create_no_leak:
  assumes "spp_create I F opts w = (Inl (Err e), w')"
  shows "w' = w \<or> (\<exists>m. flt_new I (opt_get opts ''prog'' []) w = (Inl m, w')) \<or>
    (\<exists>p w0 w1 t. flt_new I (opt_get opts ''prog'' []) w = (Inr p, w0) \<and>
       w' = flt_term I p t (flt_close_input I p w1))"
  using assms
  by (auto simp: spp_create_def Let_def bind_act_def split: if_splits sum.splits prod.splits exn.splits)

definition list_conv :: "nat conv" where
  "list_conv = \<lparr>p_bool = (\<lambda>s. Inr True), p_int = (\<lambda>s. if s = ''1'' then Inr 1 else Inl (Err s)),
     p_uint = (\<lambda>s. Inr 0), p_double = (\<lambda>s. Inr 0), f_lit = (\<lambda>s. 0), f_less = (<), f_mul = (*),
     f_sub = (-),
     f_pow = (\<lambda>x y. x ^ y), f_trunc = int, f_of_int = nat, f_str = dec\<rparr>"

theorem spp_create_no_leak_witness:
  "\<exists>e w'. spp_create list_filter list_conv [(''prog'', ''p'')] ([''hello''], []) = (Inl (Err e), w')
     \<and> (\<exists>p w0 w1 t. w' = flt_term list_filter p t (flt_close_input list_filter p w1))"
proof -
  have c: "spp_create list_filter list_conv [(''prog'', ''p'')] ([''hello''], []) =
      (Inl (Err ''spp: p: not an SPP program, header expected''), ([], []))"
    by (simp add: spp_create_def opt_check_unknown_def Let_def opt_get_def opt_get_as_def sm_find_def
        bind_act_def list_filter_def list_conv_def spp_header_def)
  from spp_create_no_leak [OF c] show ?thesis
    by (auto simp: c) (auto simp: list_filter_def)
qed

text \<open>
  With a configured identification the driver answers it to every message except the
  identification request: nothing but \<^verbatim>\<open>*idn?\<close> reaches the program.
\<close>

theorem spp_idn_inverted:
  assumes "idn d \<noteq> []"
  shows "spp_ask I d msg w = (if strcaseeq msg ''*idn?''
     then bind_act (spp_write I d msg) (\<lambda>_. spp_read I d) w else (Inr (idn d), w))"
  using assms by (simp add: spp_ask_def)

theorem spp_idn_inverted_witness:
  "spp_ask list_filter (list_spp\<lparr>idn := ''me''\<rparr>) ''volt 1'' ([''#OK''], []) = (Inr ''me'', ([''#OK''], []))"
proof -
  have "\<not> strcaseeq ''volt 1'' ''*idn?''" by code_simp
  then show ?thesis by (subst spp_idn_inverted) (simp_all add: list_spp_def)
qed

end
