(* ===== verification/Unit_Tests.thy ===== *)
theory Unit_Tests
  imports Manager_Run Conf_Text Drv_Spp
begin

text \<open>
  The unit tests of the repository, \<^verbatim>\<open>drv_utils.test.cpp\<close>, \<^verbatim>\<open>dev_manager.test.cpp\<close> and
  \<^verbatim>\<open>drv_spp.test.cpp\<close>, as programs over the model: their \<^verbatim>\<open>main\<close> ends with status 0. Configuration
  files are the texts of \<^verbatim>\<open>server/test_data\<close>, read with the \<^verbatim>\<open>read_words\<close> of \<open>Read_Words\<close>; the shell
  command of an SPP driver is an \<^verbatim>\<open>echo\<close>, whose output is split into lines.
\<close>

section \<open>Assertions\<close>

text \<open>
  The macros of \<^verbatim>\<open>err/assert_err.h\<close>, their messages shortened, and \<^verbatim>\<open>assert\<close>, which ends the program
  without an exception when it fails.
\<close>

definition assert_eq :: "'a \<Rightarrow> 'a \<Rightarrow> ('s, unit) act" where
  "assert_eq a b = (if a = b then ok () else throw ''assert_eq'')"

definition assert_err :: "('s, 'a) act \<Rightarrow> string \<Rightarrow> ('s, unit) act" where
  "assert_err f m = (\<lambda>s. case f s of
     (Inl (Err e), s1) \<Rightarrow> (if e = m then (Inr (), s1) else (Inl (Err ''wrong error message''), s1))
   | (Inl x, s1) \<Rightarrow> (Inl x, s1)
   | (Inr a, s1) \<Rightarrow> (Inl (Err ''error is not thrown''), s1))"

definition assert_that :: "bool \<Rightarrow> ('s, unit) act" where
  "assert_that b = (\<lambda>s. if b then (Inr (), s) else (Inl UB, s))"

fun in_order :: "('s, unit) act list \<Rightarrow> ('s, unit) act" where
  "in_order [] = ok ()"
| "in_order (f # fs) = bind_act f (\<lambda>_. in_order fs)"

text \<open>The status of a test program; \<open>None\<close> if it does not come to its end.\<close>

definition test_status :: "('s, unit) act list \<Rightarrow> 's \<Rightarrow> nat option" where
  "test_status ts s = (case fst (in_order ts s) of
     Inr u \<Rightarrow> Some 0 | Inl (Err e) \<Rightarrow> Some 1 | Inl x \<Rightarrow> None)"

lemma in_order_step: "f s = (Inr (), s1) \<Longrightarrow> in_order (f # fs) s = in_order fs s1"
  by (simp add: bind_act_def)

lemma test_status_step: "f s = (Inr (), s1) \<Longrightarrow> test_status (f # fs) s = test_status fs s1"
  by (simp add: test_status_def bind_act_def)

lemma test_status_Nil: "test_status [] s = Some 0"
  by (simp add: test_status_def)

lemma assert_simps [simp]:
  "assert_eq a a s = (Inr (), s)" "assert_that True s = (Inr (), s)"
  "f s = (Inl (Err m), s1) \<Longrightarrow> assert_err f m s = (Inr (), s1)"
  by (simp_all add: assert_eq_def assert_that_def assert_err_def)

section \<open>drv_utils.test.cpp\<close>

definition drv_utils_test :: "(string, unit) act list" where
  "drv_utils_test =
     [\<lambda>s. case trim_str s ''ij'' of (b, s1) \<Rightarrow> assert_eq b True s1,
      \<lambda>s. assert_eq s ''abcdefgh'' s,
      \<lambda>s. case trim_str s ''gj'' of (b, s1) \<Rightarrow> assert_eq b False s1,
      \<lambda>s. assert_eq s ''abcdefgh'' s,
      assert_eq (str_to_read_cond ''always'') (Inr READCOND_ALWAYS),
      assert_eq (str_to_read_cond ''never'') (Inr READCOND_NEVER),
      assert_eq (str_to_read_cond ''qmark'') (Inr READCOND_QMARK),
      assert_eq (str_to_read_cond ''qmark1w'') (Inr READCOND_QMARK1W),
      assert_err (lift_res (str_to_read_cond ''xxx'')) ''unknown -read_cond value: xxx'',
      assert_eq (check_read_cond ''ABC'' (cond_int READCOND_ALWAYS)) (Inr True),
      assert_eq (check_read_cond ''ABC'' (cond_int READCOND_NEVER)) (Inr False),
      assert_eq (check_read_cond ''ABC'' (cond_int READCOND_QMARK)) (Inr False),
      assert_eq (check_read_cond ''ABC?'' (cond_int READCOND_QMARK)) (Inr True),
      assert_eq (check_read_cond ''DISP:TEXT WHAT?!'' (cond_int READCOND_QMARK1W)) (Inr False),
      assert_eq (check_read_cond ''DISP:TEXT? (1)'' (cond_int READCOND_QMARK1W)) (Inr True)]"

lemma test_trim_str:
  "trim_str ''abcdefghij'' ''ij'' = (True, ''abcdefgh'')"
  "trim_str ''abcdefgh'' ''gj'' = (False, ''abcdefgh'')"
  by (simp_all add: trim_str_def)

lemma test_str_to_read_cond:
  "str_to_read_cond ''always'' = Inr READCOND_ALWAYS"
  "str_to_read_cond ''never'' = Inr READCOND_NEVER"
  "str_to_read_cond ''qmark'' = Inr READCOND_QMARK"
  "str_to_read_cond ''qmark1w'' = Inr READCOND_QMARK1W"
  "str_to_read_cond ''xxx'' = Inl (Err ''unknown -read_cond value: xxx'')"
  by (simp_all add: str_to_read_cond_def)

lemma test_check_read_cond:
  "check_read_cond ''ABC'' (cond_int READCOND_ALWAYS) = Inr True"
  "check_read_cond ''ABC'' (cond_int READCOND_NEVER) = Inr False"
  "check_read_cond ''ABC'' (cond_int READCOND_QMARK) = Inr False"
  "check_read_cond ''ABC?'' (cond_int READCOND_QMARK) = Inr True"
  "check_read_cond ''DISP:TEXT WHAT?!'' (cond_int READCOND_QMARK1W) = Inr False"
  "check_read_cond ''DISP:TEXT? (1)'' (cond_int READCOND_QMARK1W) = Inr True"
  by (simp_all add: check_read_cond_def str_find_def substr_def npos_def)

lemma drv_utils_test_passes: "test_status drv_utils_test ''abcdefghij'' = Some 0"
  by (simp add: drv_utils_test_def test_status_step test_status_Nil test_trim_str test_str_to_read_cond
      test_check_read_cond del: cond_int.simps)

section \<open>dev_manager.test.cpp\<close>

lemma test_parse_url:
  "parse_url '''' = ['''', '''', '''']"
  "parse_url ''a'' = [''a'', '''', '''']"
  "parse_url ''/a'' = [''a'', '''', '''']"
  "parse_url ''//a'' = ['''', ''a'', '''']"
  "parse_url ''a/b'' = [''a'', ''b'', '''']"
  "parse_url ''/a/b'' = [''a'', ''b'', '''']"
  "parse_url ''//a/b'' = ['''', ''a'', ''b'']"
  "parse_url ''a/b/c'' = [''a'', ''b'', ''c'']"
  "parse_url ''/a/b/c'' = [''a'', ''b'', ''c'']"
  "parse_url ''a//c'' = [''a'', '''', ''c'']"
  "parse_url ''/a//c'' = [''a'', '''', ''c'']"
  "parse_url ''a/b/c/d'' = [''a'', ''b'', ''c/d'']"
  "parse_url ''/a/b/c/d'' = [''a'', ''b'', ''c/d'']"
  by (simp_all add: parse_url_url_parts npos_def url_parts_def cut_slash_def)

text \<open>The files of \<^verbatim>\<open>server/test_data\<close>.\<close>

definition test_files :: "string \<Rightarrow> string option" where
  "test_files = map_of
     [(''test_data/e1.txt'', ''a''),
      (''test_data/e3.txt'', ''a test'' @ nl @ ''b b -c'' @ nl @ nl),
      (''test_data/e4.txt'', ''a test'' @ nl @ ''b b c d'' @ nl @ nl),
      (''test_data/e5.txt'', ''a test'' @ nl @ ''d b - b'' @ nl @ nl),
      (''test_data/e6.txt'', ''a test'' @ nl @ ''a test -a b -c d'' @ nl @ nl),
      (''test_data/e7.txt'', ''a test'' @ nl @ ''c test -a b -c d'' @ nl @ ''a test'' @ nl),
      (''test_data/n1.txt'', []),
      (''test_data/n2.txt'', ''a test'' @ nl @ ''b test -a b -c d'' @ nl @ nl)]"

definition files_env :: "(string, nat) env" where
  "files_env = (test_env [])\<lparr>conf_file := text_files (\<lambda>n. CHR 0x00) (\<lambda>w. test_files)\<rparr>"

text \<open>\<^verbatim>\<open>DevManager::size\<close> and \<^verbatim>\<open>DevManager::read_conf(fname)\<close>, which only the test uses.\<close>

definition dm_size :: "('d, 'w) manager \<Rightarrow> nat" where
  "dm_size dm = length (devices dm)"

definition read_conf_from :: "('d, 'w) env \<Rightarrow> string \<Rightarrow> (('d, 'w) manager, unit) act" where
  "read_conf_from E fname = (\<lambda>dm. read_conf E (dm\<lparr>devfile := fname\<rparr>))"

definition dev_manager_test :: "((string, nat) manager, unit) act list" where
  "dev_manager_test = (let E = files_env; pref = ''bad configuration file test_data/'' in
     [assert_that (parse_url '''' = ['''', '''', '''']),
      assert_that (parse_url ''a'' = [''a'', '''', '''']),
      assert_that (parse_url ''/a'' = [''a'', '''', '''']),
      assert_that (parse_url ''//a'' = ['''', ''a'', '''']),
      assert_that (parse_url ''a/b'' = [''a'', ''b'', '''']),
      assert_that (parse_url ''/a/b'' = [''a'', ''b'', '''']),
      assert_that (parse_url ''//a/b'' = ['''', ''a'', ''b'']),
      assert_that (parse_url ''a/b/c'' = [''a'', ''b'', ''c'']),
      assert_that (parse_url ''/a/b/c'' = [''a'', ''b'', ''c'']),
      assert_that (parse_url ''a//c'' = [''a'', '''', ''c'']),
      assert_that (parse_url ''/a//c'' = [''a'', '''', ''c'']),
      assert_that (parse_url ''a/b/c/d'' = [''a'', ''b'', ''c/d'']),
      assert_that (parse_url ''/a/b/c/d'' = [''a'', ''b'', ''c/d'']),
      assert_err (read_conf_from E ''test_data/e0.txt'') ''can't open configuration: test_data/e0.txt'',
      \<lambda>dm. assert_eq (dm_size dm) 0 dm,
      read_conf_from E ''test_data/n1.txt'',
      \<lambda>dm. assert_eq (dm_size dm) 0 dm,
      assert_err (read_conf_from E ''test_data/e1.txt'') (pref @ ''e1.txt at line 1: '' @
        ''expected: <device name> <driver name> [-<parameter> <value>]''),
      assert_err (read_conf_from E ''test_data/e3.txt'') (pref @ ''e3.txt at line 2: '' @
        ''even-size list of [-<parameter> <value>] pairs expected''),
      assert_err (read_conf_from E ''test_data/e4.txt'') (pref @ ''e4.txt at line 2: '' @
        ''parameter name should be prefixed with \"-\" and contain at least one character: c''),
      assert_err (read_conf_from E ''test_data/e5.txt'') (pref @ ''e5.txt at line 2: '' @
        ''parameter name should be prefixed with \"-\" and contain at least one character: -''),
      assert_err (read_conf_from E ''test_data/e6.txt'') (pref @ ''e6.txt at line 2: '' @
        ''duplicated device name: a''),
      \<lambda>dm. assert_eq (dm_size dm) 0 dm,
      read_conf_from E ''test_data/n2.txt'',
      \<lambda>dm. assert_eq (dm_size dm) 2 dm,
      assert_err (read_conf_from E ''test_data/e7.txt'') (pref @ ''e7.txt at line 3: '' @
        ''duplicated device name: a''),
      \<lambda>dm. assert_eq (dm_size dm) 2 dm])"

text \<open>The manager of the test is made for a file with no name.\<close>

lemma dev_manager_test_passes:
  "test_status dev_manager_test (new_manager files_env [] 0) = Some 0"
  by code_simp

section \<open>drv_spp.test.cpp\<close>

text \<open>What \<^verbatim>\<open>echo a\<close> and \<^verbatim>\<open>echo '...'\<close> write, line by line.\<close>

fun split_lines :: "string \<Rightarrow> string list" where
  "split_lines [] = [[]]"
| "split_lines (c # s) = (case split_lines s of [] \<Rightarrow> [[c]]
     | l # ls \<Rightarrow> if c = CHR 0x0A then [] # l # ls else (c # l) # ls)"

definition echo_lines :: "string \<Rightarrow> string list" where
  "echo_lines pr = (let arg = drop 5 pr in
     split_lines (if arg \<noteq> [] \<and> hd arg = CHR 0x27 then butlast (tl arg) else arg))"

text \<open>\<^verbatim>\<open>o.put("prog", pr)\<close> and \<^verbatim>\<open>Driver_spp d(o)\<close>; of the version of the protocol only \<open>1\<close> is a number here.\<close>

definition put_prog :: "string \<Rightarrow> (opt, unit) act" where
  "put_prog pr = (\<lambda>o1. (Inr (), opt_put ''prog'' pr o1))"

definition version_conv :: "nat conv" where
  "version_conv = list_conv\<lparr>p_int := \<lambda>t. if t = ''1'' then Inr 1
     else Inl (Err (''can't parse value: '' @ [CHR 0x22] @ t @ [CHR 0x22]))\<rparr>"

definition new_spp :: "(opt, unit) act" where
  "new_spp = (\<lambda>o1. (map_sum id (\<lambda>d. ())
     (fst (spp_create list_filter version_conv o1 (echo_lines (opt_get o1 ''prog'' []), []))), o1))"

definition spp_test_err :: "string \<Rightarrow> string \<Rightarrow> (opt, unit) act" where
  "spp_test_err pr m = bind_act (put_prog pr) (\<lambda>_. assert_err new_spp m)"

definition drv_spp_test :: "(opt, unit) act list" where
  "drv_spp_test = (let q = [CHR 0x27]; echo = (\<lambda>t. ''echo '' @ q @ t @ q) in
     [spp_test_err ''echo a'' ''spp: echo a: not an SPP program, header expected'',
      spp_test_err (echo ''#SAA1'') (''spp: '' @ echo ''#SAA1'' @ '': not an SPP program, header expected''),
      spp_test_err (echo ''#SPP1a'') ''can't parse value: \"1a\"'',
      spp_test_err (echo ''#SPP1'') (''SPP: unexpected EOF: '' @ echo ''#SPP1''),
      (let t = ''#SPP1'' @ nl @ ''aaa'' @ nl @ ''bbb'' in
         spp_test_err (echo t) (''SPP: unexpected EOF: '' @ echo t)),
      (let t = ''#SPP1'' @ nl @ ''#'' @ nl in spp_test_err (echo t)
         (''SPP: symbol # in the beginning of a line is not protected: '' @ echo t)),
      (let t = ''#SPP1'' @ nl @ ''#xxx'' @ nl in spp_test_err (echo t)
         (''SPP: symbol # in the beginning of a line is not protected: '' @ echo t)),
      spp_test_err (echo (''#SPP1'' @ nl @ ''aaa'' @ nl @ ''bbb'' @ nl @ ''#Error: something wrong''))
        ''something wrong'',
      spp_test_err (echo (''#SPP1'' @ nl @ ''aaa'' @ nl @ ''bbb'' @ nl @ ''#Fatal: something wrong''))
        ''something wrong'',
      bind_act (put_prog (echo (''#SPP1'' @ nl @ ''aaa'' @ nl @ ''bbb'' @ nl @ ''#OK''))) (\<lambda>_. new_spp)])"

lemma list_filter_simps [simp]:
  "flt_new list_filter q = ok ()" "flt_close_input list_filter p w = w" "flt_term list_filter p t w = w"
  "flt_getline list_filter p t ([], o') = (Inr (-1, []), ([], o'))"
  "flt_getline list_filter p t (l # ls, o') = (Inr (0, l), (ls, o'))"
  by (simp_all add: list_filter_def)

lemma list_loop [simp]:
  "spp_loop list_filter () t c pr ret ([], o') = Some (Inl (Err (''SPP: unexpected EOF: '' @ pr)), ([], o'))"
  "spp_loop list_filter () t c pr ret (l # ls, o') = (case spp_line c pr ret l of
     Done r \<Rightarrow> Some (Inr r, (ls, o')) | Fail m \<Rightarrow> Some (Inl (Err m), (ls, o'))
   | More r \<Rightarrow> spp_loop list_filter () t c pr r (ls, o'))"
  by (simp_all add: spp_loop.simps [of list_filter "()" t c pr ret])

lemmas spp_eval = spp_create_def spp_header_def read_spp_def opt_check_unknown_def opt_get_def
  opt_get_as_def sm_find_def bind_act_def version_conv_def list_conv_def spp_line_def substr_def Let_def

definition spp_made :: "string \<Rightarrow> string list \<Rightarrow> unit result" where
  "spp_made pr ls = map_sum id (\<lambda>d. ()) (fst (spp_create list_filter version_conv [(''prog'', pr)] (ls, [])))"

lemma test_spp_no_header:
  "spp_made ''echo a'' [''a''] = Inl (Err ''spp: echo a: not an SPP program, header expected'')"
  by (simp add: spp_made_def spp_eval)

lemma test_spp_header:
  "spp_made p [''#SAA1''] = Inl (Err (''spp: '' @ p @ '': not an SPP program, header expected''))"
  "spp_made p [''#SPP1a''] = Inl (Err ''can't parse value: \"1a\"'')" if "p \<noteq> []"
  using that by (simp_all add: spp_made_def spp_eval)

lemma test_spp_answer:
  "spp_made p [''#SPP1''] = Inl (Err (''SPP: unexpected EOF: '' @ p))"
  "spp_made p [''#SPP1'', ''aaa'', ''bbb''] = Inl (Err (''SPP: unexpected EOF: '' @ p))"
  "spp_made p [''#SPP1'', ''#'', []] =
     Inl (Err (''SPP: symbol # in the beginning of a line is not protected: '' @ p))"
  "spp_made p [''#SPP1'', ''#xxx'', []] =
     Inl (Err (''SPP: symbol # in the beginning of a line is not protected: '' @ p))"
  "spp_made p [''#SPP1'', ''aaa'', ''bbb'', ''#Error: something wrong''] = Inl (Err ''something wrong'')"
  "spp_made p [''#SPP1'', ''aaa'', ''bbb'', ''#Fatal: something wrong''] = Inl (Err ''something wrong'')"
  "spp_made p [''#SPP1'', ''aaa'', ''bbb'', ''#OK''] = Inr ()" if "p \<noteq> []"
  using that by (simp_all add: spp_made_def spp_eval)

lemma new_spp_made: "new_spp [(''prog'', pr)] = (spp_made pr (echo_lines pr), [(''prog'', pr)])"
  by (simp add: new_spp_def spp_made_def opt_get_def sm_find_def)

lemma spp_test_err_step:
  assumes "spp_made pr (echo_lines pr) = Inl (Err m)" and "o1 = [] \<or> (\<exists>pr0. o1 = [(''prog'', pr0)])"
  shows "test_status (spp_test_err pr m # ts) o1 = test_status ts [(''prog'', pr)]"
proof (rule test_status_step)
  have "opt_put ''prog'' pr o1 = [(''prog'', pr)]" using assms(2) by (auto simp: opt_put_def)
  then show "spp_test_err pr m o1 = (Inr (), [(''prog'', pr)])"
    using assms(1) by (simp add: spp_test_err_def put_prog_def bind_act_def new_spp_made assert_err_def)
qed

lemma echo_quoted: "echo_lines (''echo '' @ [CHR 0x27] @ t @ [CHR 0x27]) = split_lines t"
  by (simp add: echo_lines_def)

lemma drv_spp_test_passes: "test_status drv_spp_test [] = Some 0"
proof -
  have a: "echo_lines ''echo a'' = [''a'']" by code_simp
  have last: "bind_act (put_prog pr) (\<lambda>_. new_spp) [(''prog'', pr0)] = (spp_made pr (echo_lines pr), [(''prog'', pr)])"
    for pr pr0 by (simp add: put_prog_def bind_act_def opt_put_def new_spp_made)
  show ?thesis
    unfolding drv_spp_test_def Let_def
    apply (rule trans [OF spp_test_err_step], simp only: a test_spp_no_header, simp)
    apply (rule trans [OF spp_test_err_step], simp only: echo_quoted,
        simp add: test_spp_header test_spp_answer nl_def, simp)+
    apply (rule trans [OF test_status_step], unfold last echo_quoted, simp add: test_spp_answer nl_def)
    apply (rule test_status_Nil)
    done
qed

end
