(* ===== verification/Log_Scenario.thy ===== *)
theory Log_Scenario
  imports Log_Props Unit_Tests
begin

text \<open>
  The server tests \<^verbatim>\<open>server/device_d.test2\<close> and \<^verbatim>\<open>server/device_d.test4\<close> compare the log of a server in
  test mode with \<^verbatim>\<open>test_data/log1.txt\<close> and \<^verbatim>\<open>test_data/log2.txt\<close>. Here the model writes the same
  lines, those of \<^verbatim>\<open>device_d.cpp\<close> itself apart, for the same clients and the same configuration
  \<^verbatim>\<open>test_data/n2.txt\<close>.
\<close>

text \<open>In test mode there is one connection at a time: what each sends.\<close>

definition visits :: "string list list \<Rightarrow> daemon_event list" where
  "visits us = concat (map (\<lambda>urls. Conn_start 1 # map (\<lambda>u. Conn_request 1
     \<lparr>req_method = ''GET'', req_url = u, req_args = []\<rparr> []) urls @ [Conn_end 1]) us)"

definition visits_log :: "string list list \<Rightarrow> string list" where
  "visits_log us =
     (let E = log_env files_env;
          s0 = \<lparr>dman = new_manager_log E ''test_data/n2.txt'' (0, []), cmax = 0, socket_context = []\<rparr>;
          s = snd (main_loop_log 3 (\<lambda>h. 0x7F000001) E (visits us) s0)
      in shown 3 (snd (delete_manager_log E (dman s))))"

lemma device_d_log1:
  "visits_log [[''/ask/x/text''], [''/x/b/text''], [''/ask/b/text''], [''/devices''], [''/list''],
     [''/info/a''], [''/ask/b/text''], [''/release/b''], [''/use/a''], [''/close/a''], [''/use/a'']] =
   [''Reading configuration file: test_data/n2.txt'', ''2 devices configured'',
    ''conn:0 open connection from 127.0.0.1'', ''conn:0 process request: /ask/x/text'',
    ''conn:0 error: unknown device: x'', ''conn:0 close connection'',
    ''conn:1 open connection from 127.0.0.1'', ''conn:1 process request: /x/b/text'',
    ''conn:1 error: unknown action: x'', ''conn:1 close connection'',
    ''conn:2 open connection from 127.0.0.1'', ''conn:2 process request: /ask/b/text'',
    ''conn:2 open device: b'', ''conn:2 answer: text'', ''conn:2 close connection'',
    ''conn:3 open connection from 127.0.0.1'', ''conn:3 process request: /devices'',
    ''conn:3 answer: a'' @ nl @ ''b'' @ nl, ''conn:3 close connection'',
    ''conn:4 open connection from 127.0.0.1'', ''conn:4 process request: /list'',
    ''conn:4 answer: a'' @ nl @ ''b'' @ nl, ''conn:4 close connection'',
    ''conn:5 open connection from 127.0.0.1'', ''conn:5 process request: /info/a'',
    ''conn:5 answer: Device: a'' @ nl @ ''Driver: test'' @ nl @ ''Device is closed'' @ nl @
      ''Number of users: 0'' @ nl, ''conn:5 close connection'',
    ''conn:6 open connection from 127.0.0.1'', ''conn:6 process request: /ask/b/text'',
    ''conn:6 answer: text'', ''conn:6 close connection'',
    ''conn:7 open connection from 127.0.0.1'', ''conn:7 process request: /release/b'',
    ''conn:7 answer: '', ''conn:7 close connection'',
    ''conn:8 open connection from 127.0.0.1'', ''conn:8 process request: /use/a'',
    ''conn:8 open device: a'', ''conn:8 answer: '', ''conn:8 close connection'',
    ''conn:9 open connection from 127.0.0.1'', ''conn:9 process request: /close/a'',
    ''Close device: a'', ''conn:9 answer: '', ''conn:9 close connection'',
    ''conn:10 open connection from 127.0.0.1'', ''conn:10 process request: /use/a'',
    ''conn:10 open device: a'', ''conn:10 answer: '', ''conn:10 close connection'',
    ''Close device: a'', ''Close device: b'']"
  by code_simp

text \<open>\<^verbatim>\<open>test_data/log2.txt\<close>, with the clock of the model standing still.\<close>

definition log2_txt :: "string list" where
  "log2_txt =
   [''Reading configuration file: test_data/n2.txt'',
    ''2 devices configured'',
    ''conn:0 open connection from 127.0.0.1'',
    ''conn:0 process request: /ping'',
    ''conn:0 answer: '',
    ''conn:0 close connection'',
    ''conn:1 open connection from 127.0.0.1'',
    ''conn:1 process request: /get_time'',
    ''conn:1 answer: 0.000000'',
    ''conn:1 close connection'',
    ''conn:2 open connection from 127.0.0.1'',
    ''conn:2 process request: /ask/x/text'',
    ''conn:2 error: unknown device: x'',
    ''conn:2 close connection'',
    ''conn:3 open connection from 127.0.0.1'',
    ''conn:3 process request: /ask/b/text'',
    ''conn:3 open device: b'',
    ''conn:3 answer: text'',
    ''conn:3 process request: /release/b'',
    ''conn:3 answer: '',
    ''conn:3 close connection'',
    ''conn:4 open connection from 127.0.0.1'',
    ''conn:4 process request: /devices'',
    ''conn:4 answer: a'' @ nl @ ''b'' @ nl,
    ''conn:4 close connection'',
    ''conn:5 open connection from 127.0.0.1'',
    ''conn:5 process request: /list'',
    ''conn:5 answer: a'' @ nl @ ''b'' @ nl,
    ''conn:5 close connection'',
    ''conn:6 open connection from 127.0.0.1'',
    ''conn:6 process request: /info/a'',
    ''conn:6 answer: Device: a'' @ nl @ ''Driver: test'' @ nl @ ''Device is closed'' @ nl @ ''Number of users: 0'' @ nl,
    ''conn:6 close connection'',
    ''conn:7 open connection from 127.0.0.1'',
    ''conn:7 process request: /ask/b/text'',
    ''conn:7 answer: text'',
    ''conn:7 process request: /release/b'',
    ''conn:7 answer: '',
    ''conn:7 close connection'',
    ''conn:8 open connection from 127.0.0.1'',
    ''conn:8 process request: /use/b'',
    ''conn:8 answer: '',
    ''conn:8 process request: /set_conn_name/device_c(7)'',
    ''conn:8 answer: '',
    ''conn:8 process request: /ask/b/a'',
    ''conn:8 answer: a'',
    ''conn:8 process request: /ask/b/b c'',
    ''conn:8 answer: b c'',
    ''conn:8 process request: /ask/b/d/e'',
    ''conn:8 answer: d/e'',
    ''conn:8 process request: /ask/b/f&g'',
    ''conn:8 answer: f&g'',
    ''conn:8 process request: /release_all'',
    ''conn:8 answer: '',
    ''conn:8 close connection'',
    ''conn:9 open connection from 127.0.0.1'',
    ''conn:9 process request: /ping'',
    ''conn:9 answer: '',
    ''conn:9 process request: /list'',
    ''conn:9 answer: a'' @ nl @ ''b'' @ nl,
    ''conn:9 process request: /list/1'',
    ''conn:9 error: unexpected argument: /list/1'',
    ''conn:9 process request: /err'',
    ''conn:9 error: unknown action: err'',
    ''conn:9 process request: /ping'',
    ''conn:9 answer: '',
    ''conn:9 process request: /use/b'',
    ''conn:9 answer: '',
    ''conn:9 process request: /ask/b/123'',
    ''conn:9 answer: 123'',
    ''conn:9 process request: /info/b'',
    ''conn:9 answer: Device: b'' @ nl @ ''Driver: test'' @ nl @ ''Driver arguments:'' @ nl @ ''  -a: b'' @ nl @ ''  -c: d'' @ nl @ ''Device is open'' @ nl @ ''Number of users: 1'' @ nl @ ''You are currently using the device'' @ nl,
    ''conn:9 process request: /release_all'',
    ''conn:9 answer: '',
    ''conn:9 close connection'',
    ''Close device: a'',
    ''Close device: b'']"

text \<open>
  The same for \<^verbatim>\<open>device_d.test4\<close>, whose clients are runs of \<^verbatim>\<open>device_c\<close>: a connection makes the
  requests the client makes for its action.
\<close>

lemma device_d_log2:
  "visits_log [[''/ping''],
     [''/get_time''],
     [''/ask/x/text''],
     [''/ask/b/text'', ''/release/b''],
     [''/devices''],
     [''/list''],
     [''/info/a''],
     [''/ask/b/text'', ''/release/b''],
     [''/use/b'', ''/set_conn_name/device_c(7)'', ''/ask/b/a'', ''/ask/b/b c'', ''/ask/b/d/e'', ''/ask/b/f&g'', ''/release_all''],
     [''/ping'', ''/list'', ''/list/1'', ''/err'', ''/ping'', ''/use/b'', ''/ask/b/123'', ''/info/b'', ''/release_all'']] = log2_txt"
  by code_simp

end
