(* ===== verification/Manager_Threads.thy ===== *)
theory Manager_Threads
  imports Manager_Run
begin

text \<open>
  The manager as its threads run it. Requests about a device hold \<^verbatim>\<open>data_mutex\<close> of
  \<^verbatim>\<open>server/dev_manager.h\<close> shared, \<^verbatim>\<open>read_conf\<close> takes it exclusively to replace the devices, and
  everything else takes no lock: the loop over the devices in \<^verbatim>\<open>conn_close\<close> and \<^verbatim>\<open>release_all\<close>, and
  the connection names.

  A thread that holds a reference to a device, or an iterator over the devices, remembers the
  generation of the map it belongs to; replacing the devices starts a new one. Using a reference or
  an iterator of an older generation has no meaning. What a request does to its device is one
  step here; \<open>Device_Threads\<close> is about its parts.
\<close>

section \<open>Steps\<close>

text \<open>What follows the loop over the devices.\<close>

datatype after_loop = Forget_name | Reset_name

datatype 'd mpc =
    MIdle
  | Shared string                       \<comment> \<open>waits for the shared lock; the URL\<close>
  | Using nat string                    \<comment> \<open>holds it and a reference to the device\<close>
  | Reading                             \<comment> \<open>about to read the configuration file\<close>
  | Loaded "(string, 'd device) smap"   \<comment> \<open>waits for the exclusive lock\<close>
  | Applying "(string, 'd device) smap"
  | Check_name string
  | Set_name string
  | Releasing nat "string list" after_loop

record ('d, 'w) mthreads =
  man :: "('d, 'w) manager"
  readers :: "conn set"
  writer :: "conn option"
  gen :: nat
  mpcs :: "conn \<Rightarrow> 'd mpc"
  mreplies :: "conn \<Rightarrow> (exn + string) option"

definition mgoto :: "conn \<Rightarrow> 'd mpc \<Rightarrow> ('d, 'w) mthreads \<Rightarrow> ('d, 'w) mthreads" where
  "mgoto c p s = s\<lparr>mpcs := (mpcs s)(c := p)\<rparr>"

definition mreply :: "conn \<Rightarrow> exn + string \<Rightarrow> ('d, 'w) mthreads \<Rightarrow> ('d, 'w) mthreads" where
  "mreply c r s = s\<lparr>mpcs := (mpcs s)(c := MIdle), mreplies := (mreplies s)(c := Some r)\<rparr>"

text \<open>The three things a connection does.\<close>

definition start_open :: "conn \<Rightarrow> ('d, 'w) mthreads \<Rightarrow> ('d, 'w) mthreads" where
  "start_open c s = mgoto c (Check_name []) s"

definition start_close :: "conn \<Rightarrow> ('d, 'w) mthreads \<Rightarrow> ('d, 'w) mthreads" where
  "start_close c s = mgoto c (Releasing (gen s) (map fst (devices (man s))) Forget_name) s"

definition start_request :: "('d, 'w) env \<Rightarrow> conn \<Rightarrow> string \<Rightarrow> ('d, 'w) mthreads \<Rightarrow> ('d, 'w) mthreads" where
  "start_request E c url s =
     (let vs = parse_url url; act = vs ! 0; arg = vs ! 1; msg = vs ! 2 in
      if device_action act msg \<noteq> None
      then if arg = [] then mreply c (Inl (Err (''device name expected: '' @ url))) s else mgoto c (Shared url) s
      else if act = ''reload'' then mgoto c Reading s
      else if act = ''set_conn_name'' then
        if msg \<noteq> [] then mreply c (Inl (Err (''unexpected argument: '' @ msg))) s else mgoto c (Check_name arg) s
      else if act = ''release_all'' then
        if arg \<noteq> [] then mreply c (Inl (Err (''unexpected argument: '' @ arg))) s
        else mgoto c (Releasing (gen s) (map fst (devices (man s))) Reset_name) s
      else case dm_run E url c (man s) of (r, m) \<Rightarrow> mreply c r (s\<lparr>man := m\<rparr>))"

definition release_one :: "conn \<Rightarrow> string \<Rightarrow> ('d, 'w) manager \<Rightarrow> ('d, 'w) manager" where
  "release_one c k m = (case sm_find (devices m) k of None \<Rightarrow> m
     | Some d \<Rightarrow> m\<lparr>devices := sm_put k (dev_release c d) (devices m)\<rparr>)"

text \<open>The exclusive section of \<^verbatim>\<open>read_conf\<close>; what it replaces is destroyed.\<close>

definition apply_conf :: "('d, 'w) env \<Rightarrow> (string, 'd device) smap \<Rightarrow> ('d, 'w) manager \<Rightarrow> ('d, 'w) manager" where
  "apply_conf E ret m = m\<lparr>devices := ret,
     world := foldl (drop_device (drivers E)) (world m) (map snd (devices m))\<rparr>"

definition madvance :: "('d, 'w) env \<Rightarrow> conn \<Rightarrow> ('d, 'w) mthreads \<Rightarrow> ('d, 'w) mthreads option" where
  "madvance E c s = (case mpcs s c of
      MIdle \<Rightarrow> None
    | Shared url \<Rightarrow>
        (if writer s \<noteq> None then None
         else if sm_has (devices (man s)) (parse_url url ! 1)
         then Some (mgoto c (Using (gen s) url) (s\<lparr>readers := insert c (readers s)\<rparr>))
         else Some (mreply c (Inl (Err (''unknown device: '' @ parse_url url ! 1))) s))
    | Using g url \<Rightarrow>
        (if g \<noteq> gen s then Some (mreply c (Inl UB) (s\<lparr>readers := readers s - {c}\<rparr>))
         else case dm_run E url c (man s) of (r, m) \<Rightarrow>
           if r = Inl Hang then None
           else Some (mreply c r (s\<lparr>man := m, readers := readers s - {c}\<rparr>)))
    | Reading \<Rightarrow> (case read_conf E (man s) of
          (Inl e, m) \<Rightarrow> Some (mreply c (Inl e) s)
        | (Inr u, m) \<Rightarrow> Some (mgoto c (Loaded (devices m)) s))
    | Loaded ret \<Rightarrow> (if writer s = None \<and> readers s = {}
        then Some (mgoto c (Applying ret) (s\<lparr>writer := Some c\<rparr>)) else None)
    | Applying ret \<Rightarrow> Some (mreply c
        (Inr (''Device configuration reloaded: '' @ dec (length ret) @ '' devices''))
        (s\<lparr>man := apply_conf E ret (man s), writer := None, gen := Suc (gen s)\<rparr>))
    | Check_name nm \<Rightarrow> (case set_conn_name c nm (man s) of
          (Inl e, m) \<Rightarrow> Some (mreply c (Inl e) s)
        | (Inr u, m) \<Rightarrow> Some (mgoto c (Set_name (if nm = [] then default_name c else nm)) s))
    | Set_name nm \<Rightarrow> Some (mreply c (Inr [])
        (s\<lparr>man := (man s)\<lparr>conn_names := sm_put c nm (conn_names (man s))\<rparr>\<rparr>))
    | Releasing g ks a \<Rightarrow> (case ks of
           k # r \<Rightarrow> Some (if g \<noteq> gen s then mreply c (Inl UB) s
             else mgoto c (Releasing g r a) (s\<lparr>man := release_one c k (man s)\<rparr>))
         | [] \<Rightarrow> (case a of
             Forget_name \<Rightarrow> Some (mreply c (Inr [])
               (s\<lparr>man := (man s)\<lparr>conn_names := sm_erase c (conn_names (man s))\<rparr>\<rparr>))
           | Reset_name \<Rightarrow> Some (mgoto c (Check_name []) s))))"

text \<open>The states of the program under every interleaving of its connections.\<close>

inductive mreach :: "('d, 'w) env \<Rightarrow> ('d, 'w) mthreads \<Rightarrow> ('d, 'w) mthreads \<Rightarrow> bool" for E s where
  refl: "mreach E s s"
| opened: "mreach E s z \<Longrightarrow> mpcs z c = MIdle \<Longrightarrow> mreach E s (start_open c z)"
| closed: "mreach E s z \<Longrightarrow> mpcs z c = MIdle \<Longrightarrow> mreach E s (start_close c z)"
| request: "mreach E s z \<Longrightarrow> mpcs z c = MIdle \<Longrightarrow> mreach E s (start_request E c url z)"
| step: "mreach E s z \<Longrightarrow> madvance E c z = Some z' \<Longrightarrow> mreach E s z'"

definition mstart :: "('d, 'w) manager \<Rightarrow> ('d, 'w) mthreads" where
  "mstart m = \<lparr>man = m, readers = {}, writer = None, gen = 0, mpcs = (\<lambda>_. MIdle), mreplies = (\<lambda>_. None)\<rparr>"

lemmas mdefs = mgoto_def mreply_def

section \<open>A thread that nobody interrupts\<close>

fun mgo :: "('d, 'w) env \<Rightarrow> conn \<Rightarrow> nat \<Rightarrow> ('d, 'w) mthreads \<Rightarrow> ('d, 'w) mthreads" where
  "mgo E c 0 s = s"
| "mgo E c (Suc n) s = (case madvance E c s of None \<Rightarrow> s | Some s' \<Rightarrow> mgo E c n s')"

lemma mgo_idle: "mpcs s c = MIdle \<Longrightarrow> mgo E c n s = s"
  by (cases n) (simp_all add: madvance_def)

lemma mgo_step: "madvance E c s = Some s' \<Longrightarrow> mgo E c (Suc n) s = mgo E c n s'"
  by simp

lemma mgo_add: "mgo E c (m + n) s = mgo E c n (mgo E c m s)"
proof (induction m arbitrary: s)
  case (Suc m)
  show ?case
  proof (cases "madvance E c s")
    case None
    then show ?thesis by (cases n) simp_all
  next
    case (Some s')
    with Suc show ?thesis by simp
  qed
qed simp

text \<open>The loop over the devices is \<open>release_each\<close>.\<close>

lemma release_one_keys: "k \<in> fst ` set (devices m) \<Longrightarrow> fst ` set (devices (release_one c k m)) = fst ` set (devices m)"
  by (auto simp: release_one_def sm_put_keys split: option.splits)

lemma release_one_find:
  "smap_ok (devices m) \<Longrightarrow> sm_find (devices (release_one c k m)) j =
     (if j = k then map_option (dev_release c) (sm_find (devices m) j) else sm_find (devices m) j)"
  by (auto simp: release_one_def smap.look_put split: option.splits)

lemma release_one_frame [simp]:
  "conn_names (release_one c k m) = conn_names m" "world (release_one c k m) = world m"
  "devfile (release_one c k m) = devfile m"
  "smap_ok (devices m) \<Longrightarrow> smap_ok (devices (release_one c k m))"
  by (simp_all add: release_one_def split: option.split)

lemma release_ones_find:
  "smap_ok (devices m) \<Longrightarrow> distinct ks \<Longrightarrow> sm_find (devices (fold (release_one c) ks m)) j =
     (if j \<in> set ks then map_option (dev_release c) (sm_find (devices m) j) else sm_find (devices m) j)"
  by (induction ks arbitrary: m) (simp_all add: release_one_find)

lemma release_ones_frame [simp]:
  "conn_names (fold (release_one c) ks m) = conn_names m" "world (fold (release_one c) ks m) = world m"
  "devfile (fold (release_one c) ks m) = devfile m"
  "smap_ok (devices m) \<Longrightarrow> smap_ok (devices (fold (release_one c) ks m))"
  by (induction ks arbitrary: m) simp_all

lemma release_ones:
  assumes "smap_ok (devices m)"
  shows "fold (release_one c) (map fst (devices m)) m = release_each c m"
proof -
  let ?m = "fold (release_one c) (map fst (devices m)) m"
  have "distinct (map fst (devices m))" using assms by (rule smap_ok_distinct)
  note find = release_ones_find [OF assms this]
  have "devices ?m = sm_each (dev_release c) (devices m)"
  proof (rule smap_eqI)
    fix k show "sm_find (devices ?m) k = sm_find (sm_each (dev_release c) (devices m)) k"
      using sm_has_find [of "devices m" k] by (auto simp: find sm_has_def)
  qed (use assms in simp_all)
  then show ?thesis by (simp add: release_each_def)
qed

lemma mgo_release:
  assumes "mpcs s c = Releasing (gen s) ks a"
  shows "mgo E c (length ks) s = mgoto c (Releasing (gen s) [] a) (s\<lparr>man := fold (release_one c) ks (man s)\<rparr>)"
  using assms
proof (induction ks arbitrary: s)
  case Nil
  then show ?case by (cases s) (simp add: mgoto_def fun_upd_idem)
next
  case (Cons k ks)
  let ?s = "mgoto c (Releasing (gen s) ks a) (s\<lparr>man := release_one c k (man s)\<rparr>)"
  have "madvance E c s = Some ?s" using Cons.prems by (simp add: madvance_def)
  then have "mgo E c (length (k # ks)) s = mgo E c (length ks) ?s" by simp
  with Cons.IH [of ?s] show ?case by (simp add: mgoto_def)
qed

text \<open>Checking a name and setting it, uninterrupted, is \<open>set_conn_name\<close>.\<close>

lemma mgo_name:
  assumes "mpcs s c = Check_name nm" and "set_conn_name c nm (man s) = (r, m)"
  shows "mgo E c 2 s = mreply c (map_sum id (\<lambda>_. []) r) (s\<lparr>man := m\<rparr>)"
proof -
  have two: "mgo E c 2 s = mgo E c (Suc (Suc 0)) s" by (simp only: numeral_2_eq_2)
  have fail: ?thesis if "r = Inl e" "m = man s" for e
  proof -
    have "madvance E c s = Some (mreply c (Inl e) s)" using assms that by (simp add: madvance_def)
    then have "mgo E c 2 s = mgo E c (Suc 0) (mreply c (Inl e) s)" unfolding two by simp
    also have "\<dots> = mreply c (Inl e) s" by (rule mgo_idle) (simp add: mreply_def)
    finally show ?thesis using that by (cases s) (simp add: mreply_def)
  qed
  from assms(2) show ?thesis
  proof (cases rule: set_conn_name_cases)
    case (set n)
    have "madvance E c s = Some (mgoto c (Set_name n) s)"
      using assms set by (simp add: madvance_def)
    then have "mgo E c 2 s = mgo E c (Suc 0) (mgoto c (Set_name n) s)" unfolding two by simp
    with set show ?thesis by (cases s) (simp add: madvance_def mdefs)
  qed (rule fail; assumption)+
qed

lemma mgo_open:
  "conn_open c (man s) = (r, m) \<Longrightarrow> mgo E c 2 (start_open c s) = mreply c (map_sum id (\<lambda>_. []) r) (s\<lparr>man := m\<rparr>)"
  using mgo_name [of "start_open c s" c "[]" r m E]
  by (cases s) (simp add: start_open_def conn_open_def mdefs)

lemma mgo_loop:
  assumes "smap_ok (devices (man s))"
  shows "mgo E c (length (devices (man s)) + k) (mgoto c (Releasing (gen s) (map fst (devices (man s))) a) s) =
    mgo E c k (mgoto c (Releasing (gen s) [] a) (s\<lparr>man := release_each c (man s)\<rparr>))"
proof -
  let ?s = "mgoto c (Releasing (gen s) (map fst (devices (man s))) a) s"
  have "mgo E c (length (map fst (devices (man s)))) ?s =
      mgoto c (Releasing (gen ?s) [] a) (?s\<lparr>man := fold (release_one c) (map fst (devices (man s))) (man ?s)\<rparr>)"
    by (rule mgo_release) (simp add: mgoto_def)
  then show ?thesis
    using release_ones [OF assms, of c] by (simp add: mgo_add mgoto_def)
qed

lemma mgo_close:
  assumes "smap_ok (devices (man s))"
  shows "mgo E c (length (devices (man s)) + 1) (start_close c s) = mreply c (Inr []) (s\<lparr>man := conn_close c (man s)\<rparr>)"
  unfolding start_close_def mgo_loop [OF assms]
  by (cases s) (simp add: madvance_def mdefs conn_close_def Let_def)

text \<open>
  The requests that are about a device, in the terms of \<open>dm_run\<close>.
\<close>

lemma mgo_device:
  assumes "device_action (parse_url url ! 0) (parse_url url ! 2) = Some a"
    and "writer s = None" and "readers s = {}" and "dm_run E url c (man s) = (r, m)" and "r \<noteq> Inl Hang"
  shows "\<exists>n. mgo E c n (start_request E c url s) = mreply c r (s\<lparr>man := m\<rparr>)"
proof -
  from assms(4) have "with_device url (parse_url url ! 1) (dev_exec (drivers E) a c) (man s) = (r, m)"
    by (simp add: dm_run_device [OF assms(1)])
  then show ?thesis
  proof (cases rule: with_device_cases)
    case noarg
    then show ?thesis
      using assms(1) by (intro exI [of _ 0]) (cases s, simp add: start_request_def Let_def mreply_def)
  next
    case unknown
    then show ?thesis
      using assms(1,2) by (intro exI [of _ 1])
        (cases s, simp add: start_request_def Let_def mdefs madvance_def sm_has_find)
  next
    case (run d d' w')
    let ?s = "mgoto c (Using (gen s) url) (s\<lparr>readers := insert c (readers s)\<rparr>)"
    have "madvance E c (start_request E c url s) = Some ?s"
      using assms(1-3) run(1,2)
      by (cases s) (simp add: start_request_def Let_def mdefs madvance_def sm_has_find)
    moreover have "madvance E c ?s = Some (mreply c r (s\<lparr>man := m\<rparr>))"
      using assms(3-5) by (cases s) (simp add: mdefs madvance_def)
    ultimately show ?thesis by (intro exI [of _ "Suc (Suc 0)"]) simp
  qed
qed

lemma mgo_reload:
  assumes "parse_url url ! 0 = ''reload''" and "writer s = None" and "readers s = {}"
    and "dm_run E url c (man s) = (r, m)"
  shows "\<exists>n g. mgo E c n (start_request E c url s) = mreply c r (s\<lparr>man := m, gen := g\<rparr>)"
proof -
  obtain q m1 where rc: "read_conf E (man s) = (q, m1)" by fastforce
  have none: "device_action (parse_url url ! 0) (parse_url url ! 2) = None"
    by (simp add: device_action_None assms(1))
  have start: "start_request E c url s = mgoto c Reading s"
    using none by (simp add: start_request_def Let_def assms(1))
  have run: "dm_run E url c (man s) = bind_act (read_conf E) (\<lambda>_ dm.
      (Inr (''Device configuration reloaded: '' @ dec (length (devices dm)) @ '' devices''), dm)) (man s)"
    by (simp add: dm_run_defs assms(1) Let_def)
  from rc show ?thesis
  proof (cases rule: read_conf_cases)
    case (kept e)
    then have "r = Inl (Err e)" "m = man s" using run rc assms(4) by simp_all
    moreover have "madvance E c (mgoto c Reading s) = Some (mreply c (Inl (Err e)) s)"
      using rc kept by (cases s) (simp add: madvance_def mdefs)
    ultimately show ?thesis
      unfolding start by (intro exI [of _ "Suc 0"] exI [of _ "gen s"]) simp
  next
    case (loaded ret)
    then have m: "m = apply_conf E ret (man s)"
      and r: "r = Inr (''Device configuration reloaded: '' @ dec (length ret) @ '' devices'')"
      using run rc assms(4) by (simp_all add: apply_conf_def)
    have "madvance E c (mgoto c Reading s) = Some (mgoto c (Loaded ret) s)"
      using rc loaded by (cases s) (simp add: madvance_def mdefs)
    moreover have "madvance E c (mgoto c (Loaded ret) s) = Some (mgoto c (Applying ret) (s\<lparr>writer := Some c\<rparr>))"
      using assms(2,3) by (cases s) (simp add: madvance_def mdefs)
    moreover have "madvance E c (mgoto c (Applying ret) (s\<lparr>writer := Some c\<rparr>)) =
        Some (mreply c r (s\<lparr>man := m, gen := Suc (gen s)\<rparr>))"
      using assms(2) by (cases s) (simp add: madvance_def mdefs m r)
    ultimately show ?thesis
      unfolding start by (intro exI [of _ "Suc (Suc (Suc 0))"] exI [of _ "Suc (gen s)"]) simp
  qed
qed

lemma mgo_set_name:
  assumes "parse_url url ! 0 = ''set_conn_name''" and "dm_run E url c (man s) = (r, m)"
  shows "\<exists>n. mgo E c n (start_request E c url s) = mreply c r (s\<lparr>man := m\<rparr>)"
proof -
  let ?arg = "parse_url url ! 1" and ?msg = "parse_url url ! 2"
  have none: "device_action (parse_url url ! 0) ?msg = None" by (simp add: device_action_None assms(1))
  show ?thesis
  proof (cases "?msg = []")
    case False
    then have "r = Inl (Err (''unexpected argument: '' @ ?msg))" "m = man s"
      using assms by (simp_all add: dm_run_defs Let_def)
    with False none show ?thesis
      by (intro exI [of _ 0]) (cases s, simp add: start_request_def Let_def assms(1) mreply_def)
  next
    case True
    obtain q m1 where set: "set_conn_name c ?arg (man s) = (q, m1)" by fastforce
    have r: "r = map_sum id (\<lambda>_. []) q" "m = m1"
      using assms set True by (cases q; simp add: dm_run_defs Let_def void_def)+
    have start: "start_request E c url s = mgoto c (Check_name ?arg) s"
      using none True by (simp add: start_request_def Let_def assms(1))
    have "mgo E c 2 (mgoto c (Check_name ?arg) s) = mreply c r (s\<lparr>man := m\<rparr>)"
      using mgo_name [of "mgoto c (Check_name ?arg) s" c ?arg q m1 E] set r
      by (cases s) (simp add: mdefs)
    with start show ?thesis by metis
  qed
qed

lemma mgo_release_all:
  assumes "parse_url url ! 0 = ''release_all''" and "smap_ok (devices (man s))"
    and "dm_run E url c (man s) = (r, m)"
  shows "\<exists>n. mgo E c n (start_request E c url s) = mreply c r (s\<lparr>man := m\<rparr>)"
proof -
  let ?arg = "parse_url url ! 1"
  have none: "device_action (parse_url url ! 0) (parse_url url ! 2) = None"
    by (simp add: device_action_None assms(1))
  show ?thesis
  proof (cases "?arg = []")
    case False
    then have "r = Inl (Err (''unexpected argument: '' @ ?arg))" "m = man s"
      using assms by (simp_all add: dm_run_defs Let_def)
    with False none show ?thesis
      by (intro exI [of _ 0]) (cases s, simp add: start_request_def Let_def assms(1) mreply_def)
  next
    case True
    let ?m = "release_each c (man s)"
    let ?s = "mgoto c (Check_name []) (s\<lparr>man := ?m\<rparr>)"
    obtain q m1 where set: "set_conn_name c [] ?m = (q, m1)" by fastforce
    have r: "r = map_sum id (\<lambda>_. []) q" "m = m1"
      using assms(1,3) set True by (cases q; simp add: dm_run_defs Let_def void_def)+
    have start: "start_request E c url s = mgoto c (Releasing (gen s) (map fst (devices (man s))) Reset_name) s"
      using none True by (simp add: start_request_def Let_def assms(1))
    have "madvance E c (mgoto c (Releasing (gen s) [] Reset_name) (s\<lparr>man := ?m\<rparr>)) = Some ?s"
      by (cases s) (simp add: madvance_def mdefs)
    then have "mgo E c (length (devices (man s)) + Suc 2) (start_request E c url s) = mgo E c 2 ?s"
      unfolding start mgo_loop [OF assms(2)] by (rule mgo_step)
    also have "\<dots> = mreply c r (s\<lparr>man := m\<rparr>)"
      using mgo_name [of ?s c "[]" q m1 E] set r by (cases s) (simp add: mdefs)
    finally show ?thesis by blast
  qed
qed

text \<open>
  C15. A thread of the manager that nobody interrupts computes the operation of the manager: opening
  and closing a connection are \<open>conn_open\<close> and \<open>conn_close\<close>, a request is \<open>dm_run\<close>, with its reply, when no
  lock is held and no driver hangs.
\<close>

theorem manager_alone:
  assumes "writer s = None" and "readers s = {}" and "smap_ok (devices (man s))"
    and "dm_run E url c (man s) = (r, m)" and "r \<noteq> Inl Hang"
    and "conn_open c (man s) = (q, m1)"
  shows "(\<exists>n. mgo E c n (start_open c s) = mreply c (map_sum id (\<lambda>_. []) q) (s\<lparr>man := m1\<rparr>)) \<and>
    (\<exists>n. mgo E c n (start_close c s) = mreply c (Inr []) (s\<lparr>man := conn_close c (man s)\<rparr>)) \<and>
    (\<exists>n g. mgo E c n (start_request E c url s) = mreply c r (s\<lparr>man := m, gen := g\<rparr>))"
proof -
  have gen: "s\<lparr>man := m\<rparr> = s\<lparr>man := m, gen := gen s\<rparr>" by simp
  have "\<exists>n g. mgo E c n (start_request E c url s) = mreply c r (s\<lparr>man := m, gen := g\<rparr>)"
  proof (cases "device_action (parse_url url ! 0) (parse_url url ! 2)")
    case (Some a)
    from mgo_device [OF this assms(1,2,4,5)] gen show ?thesis by metis
  next
    case None
    consider "parse_url url ! 0 = ''reload''" | "parse_url url ! 0 = ''set_conn_name''"
      | "parse_url url ! 0 = ''release_all''"
      | "parse_url url ! 0 \<notin> {''reload'', ''set_conn_name'', ''release_all''}" by blast
    then show ?thesis
    proof cases
      case 1
      from mgo_reload [OF 1 assms(1,2,4)] show ?thesis .
    next
      case 2
      from mgo_set_name [OF 2 assms(4)] gen show ?thesis by metis
    next
      case 3
      from mgo_release_all [OF 3 assms(3,4)] gen show ?thesis by metis
    next
      case 4
      then have "mgo E c 0 (start_request E c url s) = mreply c r (s\<lparr>man := m, gen := gen s\<rparr>)"
        using None assms(4) by (simp add: start_request_def Let_def)
      then show ?thesis by blast
    qed
  qed
  with mgo_open [OF assms(6)] mgo_close [OF assms(3)] show ?thesis by blast
qed

theorem manager_alone_witness:
  "\<exists>n. mgo (test_env []) 7 n (start_open 7 (mstart demo_manager)) =
     mreply 7 (Inr []) (mstart (snd (conn_open 7 demo_manager)))"
proof -
  obtain r m where run: "dm_run (test_env []) ''/ping'' 7 demo_manager = (r, m)" by fastforce
  have url: "parse_url ''/ping'' = [''ping'', [], []]"
    using parse_url_parts1 [of "''ping''"] by (simp add: npos_def)
  have r: "r \<noteq> Inl Hang" using run by (auto simp: dm_run_defs url Let_def)
  obtain q m1 where opn: "conn_open 7 demo_manager = (q, m1)" by fastforce
  have "names_inv (conn_names demo_manager)" using demo_inv by (simp add: dm_inv_def)
  from conn_open_ok [OF this, of 7] opn have q: "q = Inr ()" by simp
  have "smap_ok (devices demo_manager)" using demo_inv by (simp add: dm_inv_def)
  then show ?thesis
    using manager_alone [of "mstart demo_manager" "test_env []" "''/ping''" 7 r m q m1] run r opn q
    by (auto simp: mstart_def)
qed

end
