(* ===== verification/Manager_Races.thy ===== *)
theory Manager_Races
  imports Manager_Threads
begin

text \<open>
  What the lock of the manager protects in every interleaving of its threads, and what it does
  not protect.
\<close>

section \<open>References to devices\<close>

text \<open>Every device is well-formed and under its own name.\<close>

definition devices_inv :: "('d, 'w) manager \<Rightarrow> bool" where
  "devices_inv m \<longleftrightarrow> smap_ok (devices m) \<and>
     (\<forall>k d. sm_find (devices m) k = Some d \<longrightarrow> device_in UNIV k d)"

text \<open>A thread with a reference holds the shared lock, and the reference is one to a device that is there.\<close>

definition pc_inv :: "('d, 'w) mthreads \<Rightarrow> conn \<Rightarrow> bool" where
  "pc_inv s c \<longleftrightarrow> (case mpcs s c of
      Using g url \<Rightarrow> c \<in> readers s \<and> g = gen s \<and> sm_has (devices (man s)) (parse_url url ! 1) \<and>
        (\<exists>a. device_action (parse_url url ! 0) (parse_url url ! 2) = Some a)
    | Shared url \<Rightarrow> \<exists>a. device_action (parse_url url ! 0) (parse_url url ! 2) = Some a
    | Loaded ret \<Rightarrow> fresh ret
    | Applying ret \<Rightarrow> fresh ret \<and> writer s = Some c
    | _ \<Rightarrow> True)"

definition lock_inv :: "('d, 'w) mthreads \<Rightarrow> bool" where
  "lock_inv s \<longleftrightarrow> (writer s \<noteq> None \<longrightarrow> readers s = {}) \<and> devices_inv (man s) \<and> (\<forall>c. pc_inv s c)"

lemma pc_inv_frame:
  "\<lbrakk> pc_inv s c; mpcs s' c = mpcs s c; c \<in> readers s \<Longrightarrow> c \<in> readers s'; gen s' = gen s; writer s' = writer s;
     \<And>k. sm_has (devices (man s)) k \<Longrightarrow> sm_has (devices (man s')) k \<rbrakk> \<Longrightarrow> pc_inv s' c"
  by (auto simp: pc_inv_def split: mpc.splits)

lemma with_device_keeps:
  assumes "devices_inv m" and "with_device url arg (dev_exec V a c) m = (r, m')"
  shows "devices_inv m' \<and> (\<forall>k. sm_has (devices m') k \<longleftrightarrow> sm_has (devices m) k)"
  using assms(2)
proof (cases rule: with_device_cases)
  case (run d d' w')
  have "device_in UNIV arg d'"
    by (rule exec_op.op_device_in [OF _ _ run(3)]) (use assms(1) run(2) in \<open>simp_all add: devices_inv_def\<close>)
  with assms(1) run(2) show ?thesis
    by (auto simp: run(4) devices_inv_def smap.look_put sm_has_find)
qed (use assms(1) in simp_all)

lemma release_one_keeps:
  assumes "devices_inv m"
  shows "devices_inv (release_one c k m) \<and> (\<forall>j. sm_has (devices (release_one c k m)) j \<longleftrightarrow> sm_has (devices m) j)"
proof -
  have ok: "smap_ok (devices m)" using assms by (simp add: devices_inv_def)
  note find = release_one_find [OF ok, of c k]
  have "device_in UNIV j d" if "sm_find (devices (release_one c k m)) j = Some d" for j d
    using that assms by (auto simp: find devices_inv_def intro: release_device_in split: if_splits)
  then show ?thesis using ok by (auto simp: devices_inv_def sm_has_find find)
qed

lemma apply_conf_inv: "fresh ret \<Longrightarrow> devices_inv (apply_conf E ret m)"
  using fresh_device [of ret] by (fastforce simp: devices_inv_def apply_conf_def fresh_def)

lemma other_request_keeps:
  assumes "device_action (parse_url url ! 0) (parse_url url ! 2) = None"
    and "parse_url url ! 0 \<notin> {''reload'', ''set_conn_name'', ''release_all''}" and "dm_run E url c m = (r, m')"
  shows "devices m' = devices m"
  using assms(1,3)
proof (cases rule: dm_run_other)
qed (use assms(2) in simp_all)

text \<open>A step that leaves the locks of the others alone.\<close>

lemma lock_inv_other:
  assumes "lock_inv s" and "\<And>c'. c' \<noteq> c \<Longrightarrow> mpcs s' c' = mpcs s c' \<and> (c' \<in> readers s \<longrightarrow> c' \<in> readers s')"
    and "gen s' = gen s" and "writer s' = writer s" and "writer s' \<noteq> None \<longrightarrow> readers s' = {}"
    and "devices_inv (man s') \<and> (\<forall>k. sm_has (devices (man s')) k \<longleftrightarrow> sm_has (devices (man s)) k)"
    and "pc_inv s' c"
  shows "lock_inv s'"
proof -
  have "pc_inv s' c'" for c'
  proof (cases "c' = c")
    case False
    have "pc_inv s c'" using assms(1) by (simp add: lock_inv_def)
    then show ?thesis
      by (rule pc_inv_frame) (use False assms(2-4,6) in auto)
  qed (use assms(7) in simp)
  with assms(5,6) show ?thesis by (simp add: lock_inv_def)
qed

lemma start_lock_inv:
  assumes "lock_inv s" and "mpcs s c = MIdle"
  shows "lock_inv (start_open c s)" "lock_inv (start_close c s)" "lock_inv (start_request E c url s)"
proof -
  have s: "writer s \<noteq> None \<longrightarrow> readers s = {}" "devices_inv (man s)" using assms(1) by (simp_all add: lock_inv_def)
  have goto: "lock_inv (mgoto c p s)" if "pc_inv (mgoto c p s) c" for p
    by (rule lock_inv_other [OF assms(1), of c]) (use s that in \<open>simp_all add: mgoto_def\<close>)
  have answer: "lock_inv (mreply c r (s\<lparr>man := m\<rparr>))" if "devices m = devices (man s)" for r m
    by (rule lock_inv_other [OF assms(1), of c])
      (use s that in \<open>simp_all add: mreply_def pc_inv_def devices_inv_def\<close>)
  show "lock_inv (start_open c s)" "lock_inv (start_close c s)"
    unfolding start_open_def start_close_def by (rule goto, simp add: pc_inv_def mgoto_def)+
  have stay: "lock_inv (mreply c r s)" for r using answer [of "man s" r] by simp
  show "lock_inv (start_request E c url s)"
  proof (cases "device_action (parse_url url ! 0) (parse_url url ! 2)")
    case (Some a)
    then have "lock_inv (mgoto c (Shared url) s)" by (intro goto) (simp add: pc_inv_def mgoto_def)
    with Some stay show ?thesis by (simp add: start_request_def Let_def)
  next
    case None
    obtain r m where run: "dm_run E url c (man s) = (r, m)" by fastforce
    have "lock_inv (mgoto c p s)" if "p \<in> {Reading} \<union> range Check_name \<union> {Releasing g ks a | g ks a. True}" for p
      using that by (intro goto) (auto simp: pc_inv_def mgoto_def)
    moreover have "lock_inv (mreply c r (s\<lparr>man := m\<rparr>))"
      if "parse_url url ! 0 \<notin> {''reload'', ''set_conn_name'', ''release_all''}"
      by (rule answer) (rule other_request_keeps [OF None that run])
    ultimately show ?thesis using None run stay by (simp add: start_request_def Let_def)
  qed
qed

lemma madvance_lock_inv:
  assumes "lock_inv s" and "madvance E c s = Some s'"
  shows "lock_inv s'"
proof -
  have s: "writer s \<noteq> None \<longrightarrow> readers s = {}" "devices_inv (man s)" and pc: "\<And>c. pc_inv s c"
    using assms(1) by (simp_all add: lock_inv_def)
  have goto: "lock_inv (mgoto c p (s\<lparr>man := m\<rparr>))"
    if "devices_inv m \<and> (\<forall>k. sm_has (devices m) k \<longleftrightarrow> sm_has (devices (man s)) k)"
      "pc_inv (mgoto c p (s\<lparr>man := m\<rparr>)) c" for p m
    by (rule lock_inv_other [OF assms(1), of c]) (use s that in \<open>simp_all add: mgoto_def\<close>)
  have answer: "lock_inv (mreply c r (s\<lparr>man := m\<rparr>))"
    if "devices_inv m \<and> (\<forall>k. sm_has (devices m) k \<longleftrightarrow> sm_has (devices (man s)) k)" for r m
    by (rule lock_inv_other [OF assms(1), of c]) (use s that in \<open>simp_all add: mreply_def pc_inv_def\<close>)
  have stay: "lock_inv (mreply c r s)" for r using answer [of "man s" r] s(2) by simp
  have move: "lock_inv (mgoto c p s)" if "pc_inv (mgoto c p s) c" for p
    using goto [of "man s" p] s(2) that by simp
  show ?thesis
  proof (cases "mpcs s c")
    case MIdle
    with assms(2) show ?thesis by (simp add: madvance_def)
  next
    case (Shared url)
    let ?s = "mgoto c (Using (gen s) url) (s\<lparr>readers := insert c (readers s)\<rparr>)"
    have "lock_inv ?s" if "writer s = None" "sm_has (devices (man s)) (parse_url url ! 1)"
      by (rule lock_inv_other [OF assms(1), of c])
        (use s that pc [of c] Shared in \<open>auto simp: mgoto_def pc_inv_def\<close>)
    with Shared assms(2) stay show ?thesis by (auto simp: madvance_def split: if_splits)
  next
    case (Using g url)
    then obtain a where a: "device_action (parse_url url ! 0) (parse_url url ! 2) = Some a" "g = gen s"
      using pc [of c] by (auto simp: pc_inv_def)
    obtain r m where run: "dm_run E url c (man s) = (r, m)" by fastforce
    then have keep: "devices_inv m \<and> (\<forall>k. sm_has (devices m) k \<longleftrightarrow> sm_has (devices (man s)) k)"
      using with_device_keeps [OF s(2)] by (simp add: dm_run_device [OF a(1)])
    have "lock_inv (mreply c r (s\<lparr>man := m, readers := readers s - {c}\<rparr>))"
      by (rule lock_inv_other [OF assms(1), of c]) (use s keep in \<open>auto simp: mreply_def pc_inv_def\<close>)
    with Using assms(2) a(2) run show ?thesis by (simp add: madvance_def split: if_splits)
  next
    case Reading
    obtain q m where rc: "read_conf E (man s) = (q, m)" by fastforce
    then show ?thesis
    proof (cases rule: read_conf_cases)
      case (kept e)
      with rc Reading assms(2) stay show ?thesis by (simp add: madvance_def) metis
    next
      case (loaded ret)
      have "lock_inv (mgoto c (Loaded ret) s)" by (rule move) (simp add: pc_inv_def mgoto_def loaded(2))
      with rc Reading assms(2) loaded show ?thesis by (simp add: madvance_def)
    qed
  next
    case (Loaded ret)
    then have w: "writer s = None" "readers s = {}" and s': "s' = mgoto c (Applying ret) (s\<lparr>writer := Some c\<rparr>)"
      using assms(2) by (auto simp: madvance_def split: if_splits)
    have "pc_inv s' c'" for c'
      using pc [of c'] pc [of c] w Loaded by (auto simp: s' pc_inv_def mgoto_def split: mpc.splits)
    with w s(2) show ?thesis by (simp add: lock_inv_def s' mgoto_def)
  next
    case (Applying ret)
    have p: "fresh ret" "writer s = Some c" using pc [of c] Applying by (simp_all add: pc_inv_def)
    have r: "readers s = {}" using s(1) p(2) by simp
    obtain t where s': "s' = mreply c t (s\<lparr>man := apply_conf E ret (man s), writer := None, gen := Suc (gen s)\<rparr>)"
      using assms(2) Applying by (auto simp: madvance_def)
    have "pc_inv s' c'" for c'
      using pc [of c'] p(2) r by (auto simp: s' pc_inv_def mreply_def split: mpc.splits)
    with apply_conf_inv [OF p(1)] r show ?thesis by (simp add: lock_inv_def s' mreply_def)
  next
    case (Check_name nm)
    have "lock_inv (mgoto c (Set_name n) s)" for n by (rule move) (simp add: pc_inv_def mgoto_def)
    with Check_name assms(2) stay show ?thesis by (auto simp: madvance_def split: sum.splits prod.splits)
  next
    case (Set_name nm)
    have "lock_inv (mreply c r (s\<lparr>man := (man s)\<lparr>conn_names := x\<rparr>\<rparr>))" for r x
      by (rule answer) (use s(2) in \<open>simp add: devices_inv_def\<close>)
    with Set_name assms(2) show ?thesis by (auto simp: madvance_def)
  next
    case (Releasing g ks a)
    have "lock_inv (mgoto c (Releasing g r a) (s\<lparr>man := release_one c k (man s)\<rparr>))" for k r
      by (rule goto [OF release_one_keeps [OF s(2)]]) (simp add: pc_inv_def mgoto_def)
    moreover have "lock_inv (mreply c r (s\<lparr>man := (man s)\<lparr>conn_names := x\<rparr>\<rparr>))" for r x
      by (rule answer) (use s(2) in \<open>simp add: devices_inv_def\<close>)
    moreover have "lock_inv (mgoto c (Check_name []) s)" by (rule move) (simp add: pc_inv_def mgoto_def)
    ultimately show ?thesis
      using Releasing assms(2) stay
      by (auto simp: madvance_def split: if_splits list.splits after_loop.splits)
  qed
qed

lemma mreach_lock_inv: "mreach E s0 s \<Longrightarrow> lock_inv s0 \<Longrightarrow> lock_inv s"
proof (induction rule: mreach.induct)
  case (step z c z')
  then show ?case using madvance_lock_inv by blast
qed (simp_all add: start_lock_inv)

lemma mstart_lock_inv: "dm_inv m \<Longrightarrow> lock_inv (mstart m)"
  by (auto simp: lock_inv_def mstart_def pc_inv_def devices_inv_def dm_inv_def intro: device_in_mono)

text \<open>
  C14. In every interleaving of requests, reloads and connections that open and close, a request that
  has looked up its device uses the device that is in the manager now, and that device is
  well-formed: nobody replaces the devices while it runs.
\<close>

theorem references_valid:
  assumes "mreach E (mstart (new_manager E f w)) s" and "mpcs s c = Using g url"
  shows "g = gen s \<and> writer s = None \<and>
    (\<exists>d. sm_find (devices (man s)) (parse_url url ! 1) = Some d \<and> device_in UNIV (parse_url url ! 1) d)"
proof -
  have "lock_inv (mstart (new_manager E f w))"
    by (rule mstart_lock_inv) (simp add: new_manager_inv)
  from mreach_lock_inv [OF assms(1) this] have inv: "lock_inv s" .
  then have "pc_inv s c" by (simp add: lock_inv_def)
  with assms(2) have u: "c \<in> readers s" "g = gen s" "sm_has (devices (man s)) (parse_url url ! 1)"
    by (simp_all add: pc_inv_def)
  with inv show ?thesis by (auto simp: lock_inv_def devices_inv_def sm_has_find)
qed

section \<open>What the lock does not protect\<close>

lemma mreach_mgo: "mreach E s0 s \<Longrightarrow> mreach E s0 (mgo E c n s)"
  by (induction n arbitrary: s) (auto split: option.split intro: mreach.step)

text \<open>A configuration with one device, and the manager that has read it.\<close>

definition one_env :: "(string, nat) env" where
  "one_env = test_env [Words 1 [''a'', ''test''], Words 2 []]"

definition one_map :: "(string, string device) smap" where
  "one_map = [(''a'', new_device ''a'' ''test'' [])]"

lemma one_conf: "read_conf one_env m = (Inr (), apply_conf one_env one_map m)"
  by (simp add: read_conf_def one_env_def test_env_def conf_line_def bad_dev_name_def sm_has_def sm_each_def
      c_str_def Let_def apply_conf_def one_map_def)

lemma one_devices: "devices (new_manager one_env f w) = one_map"
  by (simp add: new_manager_def one_conf apply_conf_def)

lemma reload_url: "parse_url ''/reload'' = [''reload'', [], []]"
  and use_url: "parse_url ''/use/a'' = [''use'', ''a'', []]"
  and name_url: "parse_url ''/set_conn_name/x'' = [''set_conn_name'', ''x'', []]"
  using parse_url_parts1 [of "''reload''"] parse_url_parts2 [of "''use''" "''a''"]
    parse_url_parts2 [of "''set_conn_name''" "''x''"] by (simp_all add: npos_def)

lemma use_action: "device_action ''use'' [] = Some Use"
  by (simp add: device_action_Some)

theorem references_valid_witness:
  "\<exists>s d. mreach one_env (mstart (new_manager one_env ''f'' 0)) s \<and> mpcs s 1 = Using 0 ''/use/a'' \<and>
     sm_find (devices (man s)) ''a'' = Some d \<and> device_in UNIV ''a'' d"
proof -
  let ?s = "mgo one_env 1 1 (start_request one_env 1 ''/use/a'' (mstart (new_manager one_env ''f'' 0)))"
  have r: "mreach one_env (mstart (new_manager one_env ''f'' 0)) ?s"
    by (intro mreach_mgo mreach.request mreach.refl) (simp add: mstart_def)
  have u: "mpcs ?s 1 = Using 0 ''/use/a''"
    by (simp add: start_request_def use_url use_action madvance_def mdefs mstart_def one_devices one_map_def sm_has_def)
  from references_valid [OF r u] r u show ?thesis unfolding use_url by auto
qed

text \<open>
  The loop over the devices in \<^verbatim>\<open>conn_close\<close> takes no lock: when a reload replaces the devices
  meanwhile, it goes on with an iterator of the old map.
\<close>

theorem reload_race:
  "\<exists>s. mreach one_env (mstart (new_manager one_env ''f'' 0)) s \<and> mreplies s 1 = Some (Inl UB)"
proof -
  let ?z = "start_request one_env 2 ''/reload'' (start_close 1 (mstart (new_manager one_env ''f'' 0)))"
  let ?s = "mgo one_env 1 1 (mgo one_env 2 3 ?z)"
  have "mreach one_env (mstart (new_manager one_env ''f'' 0)) ?s"
    by (intro mreach_mgo mreach.request mreach.closed mreach.refl) (simp_all add: mstart_def start_close_def mgoto_def)
  moreover have none: "device_action ''reload'' [] = None" by (simp add: device_action_None)
  have "mreplies ?s 1 = Some (Inl UB)"
    by (simp add: start_request_def start_close_def reload_url none numeral_3_eq_3 madvance_def mdefs mstart_def
        one_devices one_map_def one_conf apply_conf_def)
  ultimately show ?thesis by blast
qed

lemma one_check:
  "mpcs s c = Check_name ''x'' \<Longrightarrow> conn_names (man s) = [] \<Longrightarrow> mgo E c 1 s = mgoto c (Set_name ''x'') s"
  by (simp add: madvance_def set_conn_name_def)

lemma one_set:
  "mpcs s c = Set_name nm \<Longrightarrow>
     mgo E c 1 s = mreply c (Inr []) (s\<lparr>man := (man s)\<lparr>conn_names := sm_put c nm (conn_names (man s))\<rparr>\<rparr>)"
  by (simp add: madvance_def)

text \<open>
  The names of connections are not protected by any lock: the test whether a name is free and
  its assignment are two steps, and there is an interleaving in which two connections get the same
  name, which no sequence of complete requests can do.
\<close>

theorem name_race:
  "\<exists>s. mreach one_env (mstart (new_manager one_env ''f'' 0)) s \<and>
     sm_find (conn_names (man s)) 1 = Some ''x'' \<and> sm_find (conn_names (man s)) 2 = Some ''x'' \<and>
     \<not> dm_inv (man s)"
proof -
  let ?z = "start_request one_env 2 ''/set_conn_name/x'' (start_request one_env 1 ''/set_conn_name/x''
    (mstart (new_manager one_env ''f'' 0)))"
  let ?s = "mgo one_env 2 1 (mgo one_env 1 1 (mgo one_env 2 1 (mgo one_env 1 1 ?z)))"
  have none: "device_action ''set_conn_name'' [] = None" by (simp add: device_action_None)
  have names: "conn_names (new_manager one_env ''f'' 0) = []" by (simp add: new_manager_def one_conf apply_conf_def)
  have two: "(1 :: conn) \<noteq> 2" by simp
  have z: "mpcs ?z 1 = Check_name ''x''" "mpcs ?z 2 = Check_name ''x''" "conn_names (man ?z) = []"
    by (simp_all add: start_request_def name_url none mstart_def mgoto_def names two Let_def)
  have "mreach one_env (mstart (new_manager one_env ''f'' 0)) ?s"
    by (intro mreach_mgo mreach.request mreach.refl)
      (simp_all add: start_request_def name_url none mstart_def mgoto_def Let_def)
  moreover have "?s = mgo one_env 2 1 (mgo one_env 1 1 (mgoto 2 (Set_name ''x'') (mgoto 1 (Set_name ''x'') ?z)))"
    using one_check [OF z(1,3), of one_env] one_check [of "mgoto 1 (Set_name ''x'') ?z" 2 one_env] z
    by (simp add: mgoto_def del: mgo.simps)
  then have "conn_names (man ?s) = [(1, ''x''), (2, ''x'')]"
    using z(3) by (simp add: one_set mdefs del: mgo.simps One_nat_def)
  moreover have "\<not> names_inv [(1, ''x''), (2, ''x'')]"
  proof
    let ?n = "[(1 :: conn, ''x''), (2, ''x'')]"
    assume "names_inv ?n"
    moreover have "sm_find ?n 1 = Some ''x'' \<and> sm_find ?n 2 = Some ''x''" by (simp add: sm_find_def)
    ultimately have "(1 :: conn) = 2" unfolding names_inv_def by blast
    with two show False by contradiction
  qed
  ultimately show ?thesis
    by (intro exI [of _ ?s] conjI) (simp_all add: sm_find_def dm_inv_def del: mgo.simps)
qed

end
