(* ===== verification/Device_Threads.thy ===== *)
theory Device_Threads
  imports Device_Ops
begin

text \<open>
  The operations of \<^verbatim>\<open>server/device.cpp\<close> as threads run them. The server has one thread
  for each connection, and a connection has one request at a time; the threads share a device
  and its two mutexes, \<^verbatim>\<open>data_mutex\<close> and \<^verbatim>\<open>cmd_mutex\<close>.

  A thread advances in small steps: it tests the users, it tests the lock, it takes a mutex,
  it does what it does under the mutex and gives it back, it calls the driver, it writes the
  log buffers. A schedule says which thread advances. \<open>alone_refines\<close> ties the steps to the
  operations of \<open>Device\<close>: a thread that nobody interrupts computes exactly \<open>dev_exec\<close>.

  Memory is sequentially consistent here, and a step that reads or writes a field is not torn.
\<close>

section \<open>What is done under the data mutex\<close>

definition use_section :: "('d, 'w) vtable \<Rightarrow> conn \<Rightarrow> (('d, 'w) dst, unit) act" where
  "use_section V c = (\<lambda>(d, w).
     case drv d of
       Some x \<Rightarrow> (Inr (), (d\<lparr>users := insert c (users d)\<rparr>, w))
     | None \<Rightarrow>
         (case vt_create V (drv_name d) (drv_args d) w of
            (Inl e, w') \<Rightarrow> (Inl e, (d, w'))
          | (Inr x, w') \<Rightarrow> (Inr (), (d\<lparr>drv := Some x, users := insert c (users d)\<rparr>, w'))))"

definition lock_section :: "(('d, 'w) dst, unit) act" where
  "lock_section = (\<lambda>(d, w). if card (users d) \<noteq> 1
     then (Inl (Err ''Can't lock the device: it is in use''), (d, w))
     else (Inr (), (d\<lparr>locked := True\<rparr>, w)))"

text \<open>What a thread does once it has become a user.\<close>

datatype task = Return | TakeLock | Send string

datatype critical = InUse task | InLock | InUnlock | InRelease | InClose | InLogStart | InLogFinish | InLogGet

definition run_critical :: "('d, 'w) vtable \<Rightarrow> conn \<Rightarrow> critical \<Rightarrow> (('d, 'w) dst, string) act" where
  "run_critical V c q = (case q of
      InUse t \<Rightarrow> void (use_section V c)
    | InLock \<Rightarrow> void lock_section
    | InUnlock \<Rightarrow> local (void (dev_unlock c))
    | InRelease \<Rightarrow> quiet (dev_release c)
    | InClose \<Rightarrow> (\<lambda>s. (Inr [], dev_close V s))
    | InLogStart \<Rightarrow> quiet (dev_log_start c)
    | InLogFinish \<Rightarrow> quiet (dev_log_finish c)
    | InLogGet \<Rightarrow> local (dev_log_get c))"

section \<open>Threads\<close>

text \<open>
  Where a thread is: \<open>Entry\<close> is the test in \<^verbatim>\<open>lock\<close> and \<^verbatim>\<open>ask\<close> before they call \<^verbatim>\<open>use\<close>,
  \<open>Check\<close> and \<open>CheckLocked\<close> are the two tests of \<^verbatim>\<open>use\<close> before its mutex, \<open>Wait\<close> and
  \<open>WaitCmd\<close> wait for a mutex, \<open>Hold\<close> holds the data mutex, \<open>Cmd\<close>, \<open>Call\<close> and \<open>Logged\<close>
  hold the command mutex.
\<close>

datatype pc =
    Idle
  | Entry task
  | Check task
  | CheckLocked task
  | Wait critical
  | Hold critical
  | WaitCmd string
  | Cmd string
  | Call bool string
  | Logged "exn + string"

record ('d, 'w) threads =
  tdev :: "'d device"
  tworld :: 'w
  data_mutex :: "conn option"
  cmd_mutex :: "conn option"
  pcs :: "conn \<Rightarrow> pc"
  replies :: "conn \<Rightarrow> (exn + string) option"

definition goto :: "conn \<Rightarrow> pc \<Rightarrow> ('d, 'w) threads \<Rightarrow> ('d, 'w) threads" where
  "goto c p s = s\<lparr>pcs := (pcs s)(c := p)\<rparr>"

definition reply :: "conn \<Rightarrow> exn + string \<Rightarrow> ('d, 'w) threads \<Rightarrow> ('d, 'w) threads" where
  "reply c r s = s\<lparr>pcs := (pcs s)(c := Idle), replies := (replies s)(c := Some r)\<rparr>"

definition store :: "('d, 'w) dst \<Rightarrow> ('d, 'w) threads \<Rightarrow> ('d, 'w) threads" where
  "store p s = s\<lparr>tdev := fst p, tworld := snd p\<rparr>"

fun after_use :: "conn \<Rightarrow> task \<Rightarrow> ('d, 'w) threads \<Rightarrow> ('d, 'w) threads" where
  "after_use c Return s = reply c (Inr []) s"
| "after_use c TakeLock s = goto c (Wait InLock) s"
| "after_use c (Send m) s = goto c (WaitCmd m) s"

definition after_critical :: "conn \<Rightarrow> critical \<Rightarrow> exn + string \<Rightarrow> ('d, 'w) threads \<Rightarrow> ('d, 'w) threads" where
  "after_critical c q r s = (case r of
      Inl e \<Rightarrow> reply c (Inl e) s
    | Inr v \<Rightarrow> (case q of InUse t \<Rightarrow> after_use c t s | _ \<Rightarrow> reply c (Inr v) s))"

text \<open>A connection starts a request; printing the state of the device is one step.\<close>

definition begin_op :: "conn \<Rightarrow> dev_op \<Rightarrow> ('d, 'w) threads \<Rightarrow> ('d, 'w) threads" where
  "begin_op c a s = (case a of
      Use \<Rightarrow> goto c (Check Return) s
    | Lock \<Rightarrow> goto c (Entry TakeLock) s
    | Ask m \<Rightarrow> goto c (Entry (Send m)) s
    | Unlock \<Rightarrow> goto c (Wait InUnlock) s
    | Release \<Rightarrow> goto c (Wait InRelease) s
    | Close \<Rightarrow> goto c (Wait InClose) s
    | LogStart \<Rightarrow> goto c (Wait InLogStart) s
    | LogFinish \<Rightarrow> goto c (Wait InLogFinish) s
    | LogGet \<Rightarrow> goto c (Wait InLogGet) s
    | Info \<Rightarrow> reply c (Inr (dev_print c (tdev s))) s)"

text \<open>What \<^verbatim>\<open>ask\<close> writes to the log buffers when the driver has answered or thrown.\<close>

definition log_answer :: "exn + string \<Rightarrow> 'd device \<Rightarrow> 'd device" where
  "log_answer r d = (case r of
      Inr ret \<Rightarrow> log_message ''<< '' ret d
    | Inl (Err e) \<Rightarrow> log_message ''EE '' e d
    | Inl UB \<Rightarrow> d
    | Inl Hang \<Rightarrow> d)"

text \<open>
  One step of a thread; none if it is idle, if the mutex it waits for is taken, or if a call of
  the driver never returns: then the mutex stays taken.
\<close>

definition advance :: "('d, 'w) vtable \<Rightarrow> conn \<Rightarrow> ('d, 'w) threads \<Rightarrow> ('d, 'w) threads option" where
  "advance V c s = (case pcs s c of
      Idle \<Rightarrow> None
    | Entry t \<Rightarrow> Some (if c \<notin> users (tdev s) then goto c (Check t) s else after_use c t s)
    | Check t \<Rightarrow> Some (if c \<in> users (tdev s) then after_use c t s else goto c (CheckLocked t) s)
    | CheckLocked t \<Rightarrow> Some (if locked (tdev s) then reply c (Inl (Err ''device is locked'')) s
        else goto c (Wait (InUse t)) s)
    | Wait q \<Rightarrow> (if data_mutex s = None then Some (goto c (Hold q) (s\<lparr>data_mutex := Some c\<rparr>)) else None)
    | Hold q \<Rightarrow> (case run_critical V c q (tdev s, tworld s) of
        (r, p) \<Rightarrow> if r = Inl Hang then None
          else Some (after_critical c q r (store p (s\<lparr>data_mutex := None\<rparr>))))
    | WaitCmd m \<Rightarrow> (if cmd_mutex s = None then Some (goto c (Cmd m) (s\<lparr>cmd_mutex := Some c\<rparr>)) else None)
    | Cmd m \<Rightarrow> Some (if log_bufs (tdev s) = [] then goto c (Call False m) s
        else goto c (Call True m) (s\<lparr>tdev := log_message ''>> '' m (tdev s)\<rparr>))
    | Call b m \<Rightarrow> (case drv_call V m (tdev s, tworld s) of
        (r, p) \<Rightarrow> if r = Inl Hang then None
          else Some (if b then goto c (Logged r) (store p s)
                     else reply c r (store p (s\<lparr>cmd_mutex := None\<rparr>))))
    | Logged r \<Rightarrow> Some (reply c r (s\<lparr>cmd_mutex := None, tdev := log_answer r (tdev s)\<rparr>)))"

datatype sched = Begin conn dev_op | Go conn

text \<open>A schedule; a step that is not possible is skipped.\<close>

definition sched_step :: "('d, 'w) vtable \<Rightarrow> sched \<Rightarrow> ('d, 'w) threads \<Rightarrow> ('d, 'w) threads" where
  "sched_step V x s = (case x of
      Begin c a \<Rightarrow> (if pcs s c = Idle then begin_op c a s else s)
    | Go c \<Rightarrow> (case advance V c s of None \<Rightarrow> s | Some s' \<Rightarrow> s'))"

definition run_sched :: "('d, 'w) vtable \<Rightarrow> sched list \<Rightarrow> ('d, 'w) threads \<Rightarrow> ('d, 'w) threads" where
  "run_sched V xs s = fold (sched_step V) xs s"

definition start :: "'d device \<Rightarrow> 'w \<Rightarrow> ('d, 'w) threads" where
  "start d w = \<lparr>tdev = d, tworld = w, data_mutex = None, cmd_mutex = None,
     pcs = (\<lambda>_. Idle), replies = (\<lambda>_. None)\<rparr>"

section \<open>A thread that nobody interrupts\<close>

lemma dev_use_section:
  "dev_use V c (d, w) =
     (if c \<in> users d then (Inr (), (d, w))
      else if locked d then (Inl (Err ''device is locked''), (d, w))
      else use_section V c (d, w))"
  by (simp add: dev_use_def use_section_def)

lemma dev_lock_section:
  "dev_lock V c = bind_act (\<lambda>s. if c \<in> users (fst s) then (Inr (), s) else dev_use V c s)
     (\<lambda>_. lock_section)"
  by (simp add: dev_lock_def lock_section_def)

definition go :: "('d, 'w) vtable \<Rightarrow> conn \<Rightarrow> nat \<Rightarrow> ('d, 'w) threads \<Rightarrow> ('d, 'w) threads" where
  "go V c n s = (sched_step V (Go c) ^^ n) s"

lemma go_0 [simp]: "go V c 0 s = s"
  by (simp add: go_def)

lemma go_idle: "pcs s c = Idle \<Longrightarrow> go V c n s = s"
proof (induction n)
  case (Suc n)
  then show ?case by (simp add: go_def advance_def sched_step_def)
qed simp

lemma go_Suc: "advance V c s = Some s' \<Longrightarrow> go V c (Suc n) s = go V c n s'"
  by (simp add: go_def funpow_Suc_right sched_step_def del: funpow.simps)

lemma go_step: "go V c (Suc n) s = go V c n (case advance V c s of None \<Rightarrow> s | Some s' \<Rightarrow> s')"
  by (simp add: go_def funpow_Suc_right sched_step_def del: funpow.simps)

lemma run_sched_alone: "run_sched V (replicate n (Go c)) s = go V c n s"
  by (simp add: run_sched_def go_def fold_replicate)

lemmas thread_defs = goto_def reply_def store_def after_critical_def

lemma go_critical:
  assumes "pcs s c = Wait q" and "data_mutex s = None"
    and "run_critical V c q (tdev s, tworld s) = (r, p)" and "r \<noteq> Inl Hang"
  shows "go V c (Suc (Suc n)) s = go V c n (after_critical c q r (store p s))"
proof -
  have "advance V c s = Some (goto c (Hold q) (s\<lparr>data_mutex := Some c\<rparr>))"
    using assms(1,2) by (simp add: advance_def)
  moreover have "advance V c (goto c (Hold q) (s\<lparr>data_mutex := Some c\<rparr>)) =
      Some (after_critical c q r (store p (goto c (Hold q) s)))"
    using assms by (cases s) (simp add: advance_def goto_def store_def)
  moreover have "after_critical c q r (store p (goto c (Hold q) s)) =
      after_critical c q r (store p s)"
    by (cases q; cases r; simp add: thread_defs; rename_tac t v; case_tac t; simp add: thread_defs)
  ultimately show ?thesis by (simp add: go_Suc)
qed

lemma go_command:
  assumes "pcs s c = WaitCmd m" and "cmd_mutex s = None"
    and "ask_logged V m (tdev s, tworld s) = (r, p)" and "r \<noteq> Inl Hang"
  shows "go V c (Suc (Suc (Suc (Suc n)))) s = reply c r (store p s)"
proof -
  obtain d' w' where p: "p = (d', w')" by fastforce
  show ?thesis
  proof (cases "log_bufs (tdev s) = []")
    case True
    with assms(3) have "drv_call V m (tdev s, tworld s) = (r, p)" by (simp add: ask_logged_def)
    with True assms show ?thesis
      by (cases s) (simp add: go_step advance_def thread_defs go_idle)
  next
    case False
    let ?d = "log_message ''>> '' m (tdev s)"
    obtain q d1 w1 where q: "drv_call V m (?d, tworld s) = (q, (d1, w1))" by (metis prod.exhaust)
    with False assms(3) have "r = q" and "w' = w1" and "d' = log_answer q d1"
      by (auto simp: ask_logged_def log_answer_def p split: sum.splits exn.splits)
    with False q assms p show ?thesis
      by (cases s) (simp add: go_step advance_def thread_defs go_idle)
  qed
qed

lemma go_use:
  assumes "pcs s c = Check t" and "data_mutex s = None"
    and "dev_use V c (tdev s, tworld s) = (u, p)" and "u \<noteq> Inl Hang"
  shows "\<exists>k \<ge> n. go V c (n + 4) s = go V c k (case u of
      Inl e \<Rightarrow> reply c (Inl e) (store p s) | Inr x \<Rightarrow> after_use c t (store p s))"
proof -
  have store_self: "store (tdev s, tworld s) s = s" by (simp add: store_def)
  have n4: "n + 4 = Suc (n + 3)" "n + 3 = Suc (n + 2)" "n + 2 = Suc (Suc n)" by simp_all
  show ?thesis
  proof (cases "c \<in> users (tdev s)")
    case True
    with assms have "go V c (n + 4) s = go V c (n + 3) (after_use c t s)" "u = Inr ()"
        "p = (tdev s, tworld s)"
      unfolding n4 by (simp_all add: dev_use_section go_step advance_def)
    then show ?thesis by (intro exI [of _ "n + 3"]) (simp add: store_self)
  next
    case new: False
    show ?thesis
    proof (cases "locked (tdev s)")
      case True
      with new assms have up: "u = Inl (Err ''device is locked'')" "p = (tdev s, tworld s)"
        by (simp_all add: dev_use_section)
      with True new assms(1) have "go V c (n + 4) s =
          go V c (n + 2) (reply c (Inl (Err ''device is locked'')) (store p s))"
        unfolding n4 by (simp add: go_step advance_def goto_def reply_def store_self)
      with up show ?thesis by (intro exI [of _ "n + 2"]) simp
    next
      case False
      let ?s = "goto c (Wait (InUse t)) s"
      let ?r = "case u of Inl e \<Rightarrow> Inl e | Inr x \<Rightarrow> Inr []"
      from new False assms have sec: "use_section V c (tdev s, tworld s) = (u, p)"
        by (simp add: dev_use_section)
      have "go V c (n + 4) s = go V c (Suc (Suc n)) ?s"
        unfolding n4 using new False assms(1)
        by (simp add: go_step [of V c "Suc (Suc (Suc n))"] go_step [of V c "Suc (Suc n)"]
            advance_def goto_def)
      also have "\<dots> = go V c n (after_critical c (InUse t) ?r (store p ?s))"
        by (rule go_critical) (use assms sec in \<open>auto simp: goto_def run_critical_def void_def
            bind_act_def split: sum.splits\<close>)
      also have "after_critical c (InUse t) ?r (store p ?s) =
          (case u of Inl e \<Rightarrow> reply c (Inl e) (store p s) | Inr x \<Rightarrow> after_use c t (store p s))"
        by (cases t; cases u) (simp_all add: thread_defs)
      finally show ?thesis by blast
    qed
  qed
qed

lemma go_simple:
  assumes "pcs s c = Wait q" and "data_mutex s = None" and "\<And>t. q \<noteq> InUse t"
    and "run_critical V c q (tdev s, tworld s) = (r, p)" and "r \<noteq> Inl Hang"
  shows "go V c (Suc (Suc n)) s = reply c r (store p s)"
proof -
  have "after_critical c q r (store p s) = reply c r (store p s)"
    using assms(3) by (cases q; cases r) (simp_all add: after_critical_def)
  with go_critical [OF assms(1,2,4,5)] show ?thesis by (simp add: go_idle reply_def)
qed

lemma reply_frame:
  "reply c r (store p (goto c q s)) = reply c r (store p s)"
  "reply c r (store p (store p' s)) = reply c r (store p s)"
  by (simp_all add: thread_defs)

lemma void_result:
  "void f s = (r, p) \<longleftrightarrow> (\<exists>u. f s = (u, p) \<and> r = (case u of Inl e \<Rightarrow> Inl e | Inr x \<Rightarrow> Inr []))"
  by (cases "f s") (auto simp: void_def bind_act_def split: sum.splits)

text \<open>A test before \<^verbatim>\<open>use\<close> that finds the user there changes nothing.\<close>

lemma go_entry:
  assumes "pcs s c = Entry t" and "data_mutex s = None"
    and "bind_act (\<lambda>s. if c \<in> users (fst s) then (Inr (), s) else dev_use V c s) f (tdev s, tworld s) = (r, p)"
    and "r \<noteq> Inl Hang"
  obtains (refused) "go V c (n + 5) s = reply c r (store p s)"
  | (inside) p1 k where "n \<le> k" "go V c (n + 5) s = go V c k (after_use c t (store p1 s))"
      "f () p1 = (r, p)"
proof -
  have n5: "n + 5 = Suc (n + 4)" by simp
  have step: "go V c (n + 5) s = go V c (n + 4) (case advance V c s of None \<Rightarrow> s | Some s' \<Rightarrow> s')"
    unfolding n5 by (rule go_step)
  show thesis
proof (cases "c \<in> users (tdev s)")
  case True
  with assms(1,3) have "go V c (n + 5) s = go V c (n + 4) (after_use c t (store (tdev s, tworld s) s))"
    by (simp add: step advance_def store_def)
  with True assms(3) show thesis by (intro inside [of "n + 4"]) simp_all
next
  case False
  obtain u p1 where u: "dev_use V c (tdev s, tworld s) = (u, p1)" by (meson surj_pair)
  let ?s = "goto c (Check t) s"
  have "go V c (n + 5) s = go V c (n + 4) ?s"
    using False assms(1) by (simp add: step advance_def)
  moreover obtain k where "k \<ge> n" "go V c (n + 4) ?s = go V c k (case u of
      Inl e \<Rightarrow> reply c (Inl e) (store p1 ?s) | Inr x \<Rightarrow> after_use c t (store p1 ?s))"
    using go_use [of ?s c t V u p1 n] u False assms(2,3,4)
    by (auto simp: goto_def bind_act_def split: sum.splits)
  moreover have "after_use c t (store p1 ?s) = after_use c t (store p1 s)"
    by (cases t) (simp_all add: thread_defs)
  ultimately have k: "go V c (n + 5) s = go V c k (case u of
      Inl e \<Rightarrow> reply c (Inl e) (store p1 s) | Inr x \<Rightarrow> after_use c t (store p1 s))"
    by (simp add: reply_frame cong: sum.case_cong)
  show thesis
  proof (cases u)
    case (Inl e)
    with u False assms(3) have "r = Inl e" "p = p1" by simp_all
    with k Inl refused show thesis by (simp add: go_idle reply_def)
  next
    case (Inr x)
    with u False assms(3) have "f () p1 = (r, p)" by simp
    with k Inr inside \<open>k \<ge> n\<close> show thesis by simp
  qed
qed
qed

lemma void_bind: "void (bind_act f g) = bind_act f (\<lambda>x. void (g x))"
  by (rule ext) (auto simp: void_def bind_act_def split: prod.split sum.split)

lemma begin_go:
  "pcs s c = Idle \<Longrightarrow> run_sched V (Begin c a # replicate 9 (Go c)) s = go V c 9 (begin_op c a s)"
  using run_sched_alone [of V 9 c "begin_op c a s"]
  by (simp only: run_sched_def fold_Cons comp_apply sched_step_def sched.case simp_thms if_True)

lemma alone_simple:
  assumes "pcs s c = Idle" and "data_mutex s = None" and "\<And>t. q \<noteq> InUse t"
    and "begin_op c a s = goto c (Wait q) s" and "dev_exec V a c = run_critical V c q"
    and "dev_exec V a c (tdev s, tworld s) = (r, p)" and "r \<noteq> Inl Hang"
  shows "run_sched V (Begin c a # replicate 9 (Go c)) s = reply c r (store p s)"
proof -
  have "go V c (Suc (Suc 7)) (goto c (Wait q) s) = reply c r (store p (goto c (Wait q) s))"
    by (rule go_simple) (use assms in \<open>simp_all add: goto_def\<close>)
  then show ?thesis using begin_go [OF assms(1)] assms(4) by (simp add: reply_frame)
qed

lemma alone_lock:
  assumes "pcs s c = Idle" and "data_mutex s = None"
    and "dev_lock V c (tdev s, tworld s) = (u, p)" and "u \<noteq> Inl Hang"
  shows "go V c 9 (goto c (Entry TakeLock) s) =
    reply c (case u of Inl e \<Rightarrow> Inl e | Inr x \<Rightarrow> Inr []) (store p s)"
proof -
  let ?s = "goto c (Entry TakeLock) s"
  let ?r = "case u of Inl e \<Rightarrow> Inl e | Inr x \<Rightarrow> Inr []"
  let ?test = "\<lambda>s. if c \<in> users (fst s) then (Inr (), s) else dev_use V c s"
  have "void (dev_lock V c) (tdev s, tworld s) = (?r, p)" using assms(3) by (simp add: void_result)
  then have run: "bind_act ?test (\<lambda>_. void lock_section) (tdev ?s, tworld ?s) = (?r, p)"
    by (simp add: dev_lock_section void_bind goto_def)
  have "?r \<noteq> Inl Hang" using assms(4) by (auto split: sum.splits)
  then have "go V c (4 + 5) ?s = reply c ?r (store p ?s)"
  proof (cases rule: go_entry [of ?s c TakeLock V "\<lambda>_. void lock_section" ?r p 4, OF _ _ run])
    case (5 p1 k)
    then obtain k' where "k = Suc (Suc k')" by (intro that [of "k - 2"]) simp
    with 5 go_simple [of "after_use c TakeLock (store p1 ?s)" c InLock V ?r p k'] assms(2)
      \<open>?r \<noteq> Inl Hang\<close>
    show ?thesis by (simp add: run_critical_def goto_def store_def reply_def)
  qed (use assms(2) \<open>?r \<noteq> Inl Hang\<close> in \<open>simp_all add: goto_def\<close>)
  then show ?thesis by (simp add: reply_frame)
qed

lemma alone_ask:
  assumes "pcs s c = Idle" and "data_mutex s = None" and "cmd_mutex s = None"
    and "dev_ask V c m (tdev s, tworld s) = (r, p)" and "r \<noteq> Inl Hang"
  shows "go V c 9 (goto c (Entry (Send m)) s) = reply c r (store p s)"
proof -
  let ?s = "goto c (Entry (Send m)) s"
  have run: "bind_act (\<lambda>s. if c \<in> users (fst s) then (Inr (), s) else dev_use V c s)
      (\<lambda>_. ask_logged V m) (tdev ?s, tworld ?s) = (r, p)"
    using assms(4) by (simp add: dev_ask_def goto_def)
  have "go V c (4 + 5) ?s = reply c r (store p ?s)"
  proof (cases rule: go_entry [of ?s c "Send m" V "\<lambda>_. ask_logged V m" r p 4, OF _ _ run])
    case (5 p1 k)
    then obtain k' where "k = Suc (Suc (Suc (Suc k')))" by (intro that [of "k - 4"]) simp
    with 5 go_command [of "after_use c (Send m) (store p1 ?s)" c m V r p k'] assms(3,5)
    show ?thesis by (simp add: goto_def store_def reply_def)
  qed (use assms(2,5) in \<open>simp_all add: goto_def\<close>)
  then show ?thesis by (simp add: reply_frame)
qed

lemma alone_use:
  assumes "data_mutex s = None" and "cmd_mutex s = None"
    and "dev_exec V Use c (tdev s, tworld s) = (r, p)" and "r \<noteq> Inl Hang"
  shows "go V c 9 (goto c (Check Return) s) = reply c r (store p s)"
proof -
  from assms(3) obtain u where u: "dev_use V c (tdev s, tworld s) = (u, p)"
    and r: "r = (case u of Inl e \<Rightarrow> Inl e | Inr x \<Rightarrow> Inr [])" by (auto simp: dev_exec_def void_result)
  let ?s = "goto c (Check Return) s"
  obtain k where "go V c (5 + 4) ?s = go V c k (case u of
      Inl e \<Rightarrow> reply c (Inl e) (store p ?s) | Inr x \<Rightarrow> after_use c Return (store p ?s))"
    using go_use [of ?s c Return V u p 5] u r assms(1,4)
    by (auto simp: goto_def split: sum.splits)
  then show ?thesis using r
    by (cases u) (simp_all add: reply_frame go_idle reply_def store_def goto_def)
qed

text \<open>
  C10. A thread that nobody interrupts computes exactly the operation of the device: when no
  mutex is held and the connection is idle, at most nine steps of its thread leave the device,
  the outside world and the reply that \<open>dev_exec\<close> gives, provided the driver returns.
\<close>

theorem alone_refines:
  assumes "pcs s c = Idle" and "data_mutex s = None" and "cmd_mutex s = None"
    and "dev_exec V a c (tdev s, tworld s) = (r, p)" and "r \<noteq> Inl Hang"
  shows "run_sched V (Begin c a # replicate 9 (Go c)) s = reply c r (store p s)"
proof -
  note simple = alone_simple [OF assms(1,2) _ _ _ assms(4,5)]
  note defs = begin_op_def dev_exec_def run_critical_def
  show ?thesis
  proof (cases a)
    case Use
    with alone_use [OF assms(2,3) _ assms(5)] assms(4) begin_go [OF assms(1), of V Use]
    show ?thesis by (simp add: begin_op_def)
  next
    case Lock
    with assms(4) obtain u where "dev_lock V c (tdev s, tworld s) = (u, p)"
      and "r = (case u of Inl e \<Rightarrow> Inl e | Inr x \<Rightarrow> Inr [])" by (auto simp: dev_exec_def void_result)
    with alone_lock [OF assms(1,2), of V u p] assms(5) begin_go [OF assms(1), of V Lock] Lock
    show ?thesis by (cases u) (auto simp: begin_op_def)
  next
    case (Ask m)
    with assms(4) have "dev_ask V c m (tdev s, tworld s) = (r, p)" by (simp add: dev_exec_def)
    with alone_ask [OF assms(1-3) _ assms(5)] begin_go [OF assms(1), of V "Ask m"] Ask
    show ?thesis by (simp add: begin_op_def)
  next
    case Info
    with assms(4) begin_go [OF assms(1), of V Info] show ?thesis
      by (auto simp: begin_op_def dev_exec_def go_idle reply_def store_def)
  next
    case Unlock
    show ?thesis by (rule simple [of InUnlock]) (simp_all add: Unlock defs)
  next
    case Release
    show ?thesis by (rule simple [of InRelease]) (simp_all add: Release defs)
  next
    case Close
    show ?thesis by (rule simple [of InClose]) (simp_all add: Close defs)
  next
    case LogStart
    show ?thesis by (rule simple [of InLogStart]) (simp_all add: LogStart defs)
  next
    case LogFinish
    show ?thesis by (rule simple [of InLogFinish]) (simp_all add: LogFinish defs)
  next
    case LogGet
    show ?thesis by (rule simple [of InLogGet]) (simp_all add: LogGet defs)
  qed
qed

definition fresh_threads :: "(string, nat) threads" where
  "fresh_threads = start (new_device ''a'' ''test'' []) 0"

theorem alone_refines_witness:
  "tdev (run_sched test_vtable (Begin 5 Lock # replicate 9 (Go 5)) fresh_threads) =
     (new_device ''a'' ''test'' [])\<lparr>drv := Some [], users := {5}, locked := True\<rparr>"
proof -
  let ?d = "(new_device ''a'' ''test'' [])\<lparr>drv := Some [], users := {5}, locked := True\<rparr>"
  have "dev_exec test_vtable Lock 5 (tdev fresh_threads, tworld fresh_threads) = (Inr [], (?d, 1))"
    by (simp add: fresh_threads_def start_def dev_exec_def void_def bind_act_def dev_lock_def
        dev_use_def new_device_def test_vtable_def)
  from alone_refines [OF _ _ _ this] show ?thesis
    by (simp add: fresh_threads_def start_def store_def reply_def)
qed

section \<open>Every interleaving\<close>

text \<open>
  The mutexes exclude what they should: a thread is inside a section of the data mutex exactly
  if it holds that mutex, and the same for the command mutex. Whatever the interleaving, a
  device with users is open.
\<close>

definition in_data :: "pc \<Rightarrow> bool" where
  "in_data p = (case p of Hold q \<Rightarrow> True | _ \<Rightarrow> False)"

definition in_cmd :: "pc \<Rightarrow> bool" where
  "in_cmd p = (case p of Cmd m \<Rightarrow> True | Call b m \<Rightarrow> True | Logged r \<Rightarrow> True | _ \<Rightarrow> False)"

lemma in_data_simps [simp]:
  "in_data (Hold q)" "\<not> in_data Idle" "\<not> in_data (Entry t)" "\<not> in_data (Check t)"
  "\<not> in_data (CheckLocked t)" "\<not> in_data (Wait q)" "\<not> in_data (WaitCmd m)" "\<not> in_data (Cmd m)"
  "\<not> in_data (Call b m)" "\<not> in_data (Logged r)"
  by (simp_all add: in_data_def)

lemma in_cmd_simps [simp]:
  "in_cmd (Cmd m)" "in_cmd (Call b m)" "in_cmd (Logged r)" "\<not> in_cmd Idle" "\<not> in_cmd (Entry t)"
  "\<not> in_cmd (Check t)" "\<not> in_cmd (CheckLocked t)" "\<not> in_cmd (Wait q)" "\<not> in_cmd (Hold q)"
  "\<not> in_cmd (WaitCmd m)"
  by (simp_all add: in_cmd_def)

definition mutex_inv :: "('d, 'w) threads \<Rightarrow> bool" where
  "mutex_inv s \<longleftrightarrow>
     (\<forall>c. in_data (pcs s c) \<longleftrightarrow> data_mutex s = Some c) \<and>
     (\<forall>c. in_cmd (pcs s c) \<longleftrightarrow> cmd_mutex s = Some c)"

definition users_inv :: "'d device \<Rightarrow> bool" where
  "users_inv d \<longleftrightarrow> finite (users d) \<and> (users d \<noteq> {} \<longrightarrow> drv d \<noteq> None)"

lemma after_use_frame [simp]:
  "tdev (after_use c t s) = tdev s" "data_mutex (after_use c t s) = data_mutex s"
  "cmd_mutex (after_use c t s) = cmd_mutex s" "tworld (after_use c t s) = tworld s"
  "c' \<noteq> c \<Longrightarrow> pcs (after_use c t s) c' = pcs s c'"
  "\<not> in_data (pcs (after_use c t s) c)" "\<not> in_cmd (pcs (after_use c t s) c)"
  by (cases t; simp add: thread_defs)+

lemma reply_frames [simp]:
  "tdev (reply c r s) = tdev s" "data_mutex (reply c r s) = data_mutex s"
  "cmd_mutex (reply c r s) = cmd_mutex s" "tworld (reply c r s) = tworld s"
  "pcs (reply c r s) c' = (if c' = c then Idle else pcs s c')"
  by (simp_all add: reply_def)

lemma after_critical_frame [simp]:
  "tdev (after_critical c q r s) = tdev s" "data_mutex (after_critical c q r s) = data_mutex s"
  "cmd_mutex (after_critical c q r s) = cmd_mutex s" "tworld (after_critical c q r s) = tworld s"
  "c' \<noteq> c \<Longrightarrow> pcs (after_critical c q r s) c' = pcs s c'"
  "\<not> in_data (pcs (after_critical c q r s) c)" "\<not> in_cmd (pcs (after_critical c q r s) c)"
  by (cases q; cases r; simp add: after_critical_def)+

text \<open>The steps of a thread, one case for each place where it can be.\<close>

lemma advance_cases:
  assumes "advance V c s = Some s'"
  obtains (entry) t where "pcs s c = Entry t"
      "s' = (if c \<notin> users (tdev s) then goto c (Check t) s else after_use c t s)"
  | (check) t where "pcs s c = Check t"
      "s' = (if c \<in> users (tdev s) then after_use c t s else goto c (CheckLocked t) s)"
  | (check_locked) t where "pcs s c = CheckLocked t"
      "s' = (if locked (tdev s) then reply c (Inl (Err ''device is locked'')) s
             else goto c (Wait (InUse t)) s)"
  | (enter) q where "pcs s c = Wait q" "data_mutex s = None"
      "s' = goto c (Hold q) (s\<lparr>data_mutex := Some c\<rparr>)"
  | (leave) q r p where "pcs s c = Hold q" "run_critical V c q (tdev s, tworld s) = (r, p)"
      "r \<noteq> Inl Hang" "s' = after_critical c q r (store p (s\<lparr>data_mutex := None\<rparr>))"
  | (enter_cmd) m where "pcs s c = WaitCmd m" "cmd_mutex s = None"
      "s' = goto c (Cmd m) (s\<lparr>cmd_mutex := Some c\<rparr>)"
  | (command) m b d' where "pcs s c = Cmd m" "d' = tdev s \<or> d' = log_message ''>> '' m (tdev s)"
      "s' = goto c (Call b m) (s\<lparr>tdev := d'\<rparr>)"
  | (call) b m r p where "pcs s c = Call b m" "drv_call V m (tdev s, tworld s) = (r, p)"
      "r \<noteq> Inl Hang" "s' = (if b then goto c (Logged r) (store p s)
                     else reply c r (store p (s\<lparr>cmd_mutex := None\<rparr>)))"
  | (logged) r where "pcs s c = Logged r"
      "s' = reply c r (s\<lparr>cmd_mutex := None, tdev := log_answer r (tdev s)\<rparr>)"
proof (cases "pcs s c")
  case Idle
  with assms show thesis by (simp add: advance_def)
next
  case (Entry t)
  with assms show thesis by (intro entry) (auto simp: advance_def)
next
  case (Check t)
  with assms show thesis by (intro check) (auto simp: advance_def)
next
  case (CheckLocked t)
  with assms show thesis by (intro check_locked) (auto simp: advance_def)
next
  case (Wait q)
  with assms show thesis by (intro enter) (auto simp: advance_def split: if_splits)
next
  case (Hold q)
  obtain r p where "run_critical V c q (tdev s, tworld s) = (r, p)" by (meson surj_pair)
  with Hold assms show thesis by (intro leave) (auto simp: advance_def split: if_splits)
next
  case (WaitCmd m)
  with assms show thesis by (intro enter_cmd) (auto simp: advance_def split: if_splits)
next
  case (Cmd m)
  with assms command [of m "tdev s" False] command [of m "log_message ''>> '' m (tdev s)" True]
  show thesis by (auto simp: advance_def split: if_splits)
next
  case (Call b m)
  obtain r p where "drv_call V m (tdev s, tworld s) = (r, p)" by (meson surj_pair)
  with Call assms show thesis by (intro call) (auto simp: advance_def split: if_splits)
next
  case (Logged r)
  with assms show thesis by (intro logged) (auto simp: advance_def)
qed

lemma goto_frame [simp]:
  "tdev (goto c p s) = tdev s" "data_mutex (goto c p s) = data_mutex s"
  "cmd_mutex (goto c p s) = cmd_mutex s" "tworld (goto c p s) = tworld s"
  "pcs (goto c p s) c' = (if c' = c then p else pcs s c')"
  by (simp_all add: goto_def)

lemma store_frame [simp]:
  "tdev (store p s) = fst p" "data_mutex (store p s) = data_mutex s"
  "cmd_mutex (store p s) = cmd_mutex s" "tworld (store p s) = snd p" "pcs (store p s) = pcs s"
  by (simp_all add: store_def)

lemma mutex_inv_move:
  assumes "mutex_inv s" and "\<And>c'. c' \<noteq> c \<Longrightarrow> pcs s' c' = pcs s c'"
    and "in_data (pcs s' c) \<longleftrightarrow> data_mutex s' = Some c"
    and "in_cmd (pcs s' c) \<longleftrightarrow> cmd_mutex s' = Some c"
    and "data_mutex s' = data_mutex s \<or> {data_mutex s, data_mutex s'} = {None, Some c}"
    and "cmd_mutex s' = cmd_mutex s \<or> {cmd_mutex s, cmd_mutex s'} = {None, Some c}"
  shows "mutex_inv s'"
proof -
  have "in_data (pcs s' c') \<longleftrightarrow> data_mutex s' = Some c'" for c'
    using assms(1,2,3,5) by (cases "c' = c") (auto simp: mutex_inv_def doubleton_eq_iff)
  moreover have "in_cmd (pcs s' c') \<longleftrightarrow> cmd_mutex s' = Some c'" for c'
    using assms(1,2,4,6) by (cases "c' = c") (auto simp: mutex_inv_def doubleton_eq_iff)
  ultimately show ?thesis by (simp add: mutex_inv_def)
qed

lemma advance_mutex:
  assumes "advance V c s = Some s'" and "mutex_inv s"
  shows "mutex_inv s'"
proof -
  have own: "in_data (pcs s c) \<longleftrightarrow> data_mutex s = Some c" "in_cmd (pcs s c) \<longleftrightarrow> cmd_mutex s = Some c"
    using assms(2) by (simp_all add: mutex_inv_def)
  from assms(1) show ?thesis
    by (cases rule: advance_cases)
      (use own in \<open>(intro mutex_inv_move [OF assms(2), of c]; simp add: insert_commute)\<close>)+
qed

text \<open>What a section of the data mutex does to the users and the driver.\<close>

lemma run_critical_users:
  assumes "run_critical V c q (d, w) = (r, (d', w'))"
  shows "(case q of
      InUse t \<Rightarrow> if isl r then users d' = users d \<and> drv d' = drv d
        else users d' = insert c (users d) \<and> drv d' \<noteq> None \<and> (drv d \<noteq> None \<longrightarrow> drv d' = drv d)
    | InRelease \<Rightarrow> users d' = users d - {c} \<and> drv d' = drv d
    | InClose \<Rightarrow> users d' = {} \<and> drv d' = None
    | _ \<Rightarrow> users d' = users d \<and> drv d' = drv d)"
proof (cases q)
  case (InUse t)
  with assms obtain u where "use_section V c (d, w) = (u, (d', w'))" and "isl u = isl r"
    by (auto simp: run_critical_def dest: void_isl)
  with InUse show ?thesis
    by (cases r) (auto simp: use_section_def split: option.splits prod.splits sum.splits)
next
  case InLock
  with assms obtain u where "lock_section (d, w) = (u, (d', w'))"
    by (auto simp: run_critical_def dest: void_state)
  with InLock show ?thesis by (auto simp: lock_section_def split: if_splits)
next
  case InUnlock
  with assms obtain u where "dev_unlock c d = (u, d')"
    by (auto simp: run_critical_def local_def split: prod.splits dest: void_state)
  with InUnlock show ?thesis by (auto simp: dev_unlock_def split: if_splits)
next
  case InRelease
  have "users (dev_release c d) = users d - {c}" by (simp add: dev_release_def Let_def)
  moreover have "d' = dev_release c d" using InRelease assms by (simp add: run_critical_def quiet_def)
  ultimately show ?thesis using InRelease by simp
next
  case InClose
  with assms show ?thesis by (auto simp: run_critical_def dev_close_def)
next
  case InLogStart
  with assms show ?thesis by (auto simp: run_critical_def quiet_def dev_log_start_def)
next
  case InLogFinish
  with assms show ?thesis by (auto simp: run_critical_def quiet_def dev_log_finish_def)
next
  case InLogGet
  with assms obtain u where "dev_log_get c d = (u, d')"
    by (auto simp: run_critical_def local_def split: prod.splits)
  with InLogGet show ?thesis by (auto simp: dev_log_get_def split: option.splits prod.splits)
qed

lemma log_answer_frame [simp]:
  "users (log_answer r d) = users d" "drv (log_answer r d) = drv d" "locked (log_answer r d) = locked d"
  by (simp_all add: log_answer_def log_message_frame split: sum.split exn.split)

lemma drv_call_users:
  assumes "drv_call V m (d, w) = (r, (d', w'))"
  shows "users d' = users d" and "locked d' = locked d" and "drv d' = None \<longleftrightarrow> drv d = None"
  using assms by (auto simp: drv_call_def split: option.splits prod.splits)

lemma advance_users:
  assumes "advance V c s = Some s'" and "users_inv (tdev s)"
  shows "users_inv (tdev s')"
  using assms(1)
proof (cases rule: advance_cases)
  case (leave q r p)
  obtain d' w' where p: "p = (d', w')" by fastforce
  from run_critical_users [OF leave(2) [unfolded p]] assms(2) p leave(4) show ?thesis
    by (auto simp: users_inv_def split: critical.splits if_splits)
next
  case (call b m r p)
  obtain d' w' where p: "p = (d', w')" by fastforce
  from drv_call_users [OF call(2) [unfolded p]] assms(2) p call(4) show ?thesis
    by (auto simp: users_inv_def)
qed (use assms(2) in \<open>auto simp: users_inv_def log_message_frame\<close>)

text \<open>Where a thread relies on being a user of the device, and where it must not be.\<close>

definition needs_user :: "pc \<Rightarrow> bool" where
  "needs_user p = (case p of
      Wait InLock \<Rightarrow> True | Hold InLock \<Rightarrow> True | WaitCmd m \<Rightarrow> True | Cmd m \<Rightarrow> True | Call b m \<Rightarrow> True
    | _ \<Rightarrow> False)"

definition excluded :: "pc \<Rightarrow> bool" where
  "excluded p \<longleftrightarrow> p = Wait InClose \<or> p = Hold InClose \<or> p = Logged (Inl UB)"

definition open_inv :: "('d, 'w) threads \<Rightarrow> bool" where
  "open_inv s \<longleftrightarrow> users_inv (tdev s) \<and>
     (\<forall>c. (needs_user (pcs s c) \<longrightarrow> c \<in> users (tdev s)) \<and> \<not> excluded (pcs s c) \<and>
        replies s c \<noteq> Some (Inl UB))"

lemma needs_user_simps [simp]:
  "\<not> needs_user Idle" "\<not> needs_user (Entry t)" "\<not> needs_user (Check t)" "\<not> needs_user (CheckLocked t)"
  "needs_user (WaitCmd m)" "needs_user (Cmd m)" "needs_user (Call b m)" "\<not> needs_user (Logged r)"
  "needs_user (Wait q) \<longleftrightarrow> q = InLock" "needs_user (Hold q) \<longleftrightarrow> q = InLock"
  by (simp_all add: needs_user_def split: critical.split)

lemma excluded_simps [simp]:
  "\<not> excluded Idle" "\<not> excluded (Entry t)" "\<not> excluded (Check t)" "\<not> excluded (CheckLocked t)"
  "\<not> excluded (WaitCmd m)" "\<not> excluded (Cmd m)" "\<not> excluded (Call b m)"
  "excluded (Logged r) \<longleftrightarrow> r = Inl UB"
  "excluded (Wait q) \<longleftrightarrow> q = InClose" "excluded (Hold q) \<longleftrightarrow> q = InClose"
  by (simp_all add: excluded_def)

lemma after_use_needs: "\<not> excluded (pcs (after_use c t s) c)"
  by (cases t) (simp_all add: thread_defs)

lemma after_use_replies:
  "replies (after_use c t s) c' = (if t = Return \<and> c' = c then Some (Inr []) else replies s c')"
  by (cases t) (simp_all add: thread_defs)

lemma run_critical_no_UB:
  assumes "safe_vtable V" and "run_critical V c q (d, w) = (r, p)"
  shows "r \<noteq> Inl UB"
proof (cases q)
  case (InUse t)
  with assms(2) obtain u where u: "use_section V c (d, w) = (u, p)"
      "r = (case u of Inl e \<Rightarrow> Inl e | Inr x \<Rightarrow> Inr [])" by (auto simp: run_critical_def void_result)
  moreover have "fst (vt_create V (drv_name d) (drv_args d) w) \<noteq> Inl UB"
    using assms(1) by (simp add: safe_vtable_def)
  ultimately show ?thesis
    by (auto simp: use_section_def split: option.splits prod.splits sum.splits)
qed (use assms(2) in \<open>auto simp: run_critical_def void_result lock_section_def local_def quiet_def
      dev_unlock_def dev_log_get_def split: prod.splits if_splits option.splits\<close>)

lemma open_inv_move:
  assumes "open_inv s" and "users_inv (tdev s')"
    and "\<And>c'. c' \<noteq> c \<Longrightarrow> pcs s' c' = pcs s c' \<and> replies s' c' = replies s c'"
    and "users (tdev s) - {c} \<subseteq> users (tdev s')"
    and "needs_user (pcs s' c) \<Longrightarrow> c \<in> users (tdev s')" and "\<not> excluded (pcs s' c)"
    and "replies s' c = replies s c \<or> replies s' c \<noteq> Some (Inl UB)"
  shows "open_inv s'"
proof -
  have "(needs_user (pcs s' c') \<longrightarrow> c' \<in> users (tdev s')) \<and> \<not> excluded (pcs s' c') \<and>
      replies s' c' \<noteq> Some (Inl UB)" for c'
  proof (cases "c' = c")
    case True
    with assms(1,5-7) show ?thesis by (auto simp: open_inv_def)
  next
    case False
    with assms(1,3,4) show ?thesis by (auto simp: open_inv_def)
  qed
  with assms(2) show ?thesis by (simp add: open_inv_def)
qed

lemma reply_replies [simp]: "replies (reply c r s) c' = (if c' = c then Some r else replies s c')"
  by (simp add: reply_def)

lemma goto_store_replies [simp]: "replies (goto c p s) = replies s" "replies (store q s) = replies s"
  by (simp_all add: goto_def store_def)

lemma after_critical_replies:
  "c' \<noteq> c \<Longrightarrow> replies (after_critical c q r s) c' = replies s c'"
  "r \<noteq> Inl UB \<Longrightarrow> replies (after_critical c q r s) c = replies s c \<or>
     replies (after_critical c q r s) c \<noteq> Some (Inl UB)"
  "\<not> excluded (pcs (after_critical c q r s) c)"
  "needs_user (pcs (after_critical c q r s) c) \<Longrightarrow> (\<exists>t. q = InUse t) \<and> \<not> isl r"
  by (cases q; cases r; auto simp: after_critical_def after_use_replies after_use_needs)+

lemma drv_call_no_UB:
  assumes "safe_vtable V" and "drv d \<noteq> None" and "drv_call V m (d, w) = (r, p)"
  shows "r \<noteq> Inl UB"
proof -
  obtain x where x: "drv d = Some x" using assms(2) by blast
  obtain q x' w' where q: "vt_ask V m (x, w) = (q, (x', w'))" by (metis prod.exhaust)
  have "fst (vt_ask V m (x, w)) \<noteq> Inl UB" using assms(1) by (simp add: safe_vtable_def)
  with q x assms(3) show ?thesis by (auto simp: drv_call_def)
qed

lemma advance_open:
  assumes "advance V c s = Some s'" and "open_inv s" and "safe_vtable V"
  shows "open_inv s'"
proof -
  have u: "users_inv (tdev s')"
    by (rule advance_users [OF assms(1)]) (use assms(2) in \<open>simp add: open_inv_def\<close>)
  have own: "needs_user (pcs s c) \<Longrightarrow> c \<in> users (tdev s)" "\<not> excluded (pcs s c)"
    using assms(2) by (simp_all add: open_inv_def)
  note move = open_inv_move [OF assms(2) u, of c]
  from assms(1) show ?thesis
  proof (cases rule: advance_cases)
    case (leave q r p)
    obtain d' w' where p: "p = (d', w')" by fastforce
    note rc = leave(2) [unfolded p]
    have "q \<noteq> InClose" using own(2) leave(1) by simp
    then have d: "users (tdev s) - {c} \<subseteq> users d'" "(\<exists>t. q = InUse t) \<and> \<not> isl r \<Longrightarrow> c \<in> users d'"
      using run_critical_users [OF rc] by (auto split: critical.splits if_splits)
    show ?thesis
    proof (rule move)
      show "needs_user (pcs s' c) \<Longrightarrow> c \<in> users (tdev s')"
        using after_critical_replies(4) [of c q r "store p (s\<lparr>data_mutex := None\<rparr>)"] d(2)
        by (simp add: leave(4) p)
      show "replies s' c = replies s c \<or> replies s' c \<noteq> Some (Inl UB)"
        using after_critical_replies(2) [OF run_critical_no_UB [OF assms(3) rc],
          of c q "store p (s\<lparr>data_mutex := None\<rparr>)"] by (simp add: leave(4))
    qed (use d(1) in \<open>simp_all add: leave(4) p after_critical_replies(1,3)\<close>)
  next
    case (call b m r p)
    obtain d' w' where p: "p = (d', w')" by fastforce
    have "c \<in> users (tdev s)" using own(1) call(1) by simp
    moreover have "users_inv (tdev s)" using assms(2) by (simp add: open_inv_def)
    ultimately have "drv (tdev s) \<noteq> None" by (auto simp: users_inv_def)
    then have "r \<noteq> Inl UB" by (rule drv_call_no_UB [OF assms(3) _ call(2)])
    with drv_call_users [OF call(2) [unfolded p]] p call(4) show ?thesis
      by (intro move; cases b; simp)
  qed (rule move; use own in \<open>auto simp: after_use_needs after_use_replies split: if_splits\<close>)+
qed

lemma begin_frame:
  "tdev (begin_op c a s) = tdev s" "data_mutex (begin_op c a s) = data_mutex s"
  "cmd_mutex (begin_op c a s) = cmd_mutex s" "c' \<noteq> c \<Longrightarrow> pcs (begin_op c a s) c' = pcs s c'"
  "\<not> in_data (pcs (begin_op c a s) c)" "\<not> in_cmd (pcs (begin_op c a s) c)"
  "\<not> needs_user (pcs (begin_op c a s) c)" "a \<noteq> Close \<Longrightarrow> \<not> excluded (pcs (begin_op c a s) c)"
  "c' \<noteq> c \<Longrightarrow> replies (begin_op c a s) c' = replies s c'"
  "replies (begin_op c a s) c = replies s c \<or> replies (begin_op c a s) c \<noteq> Some (Inl UB)"
  by (cases a; simp add: begin_op_def)+

lemma begin_mutex: "mutex_inv s \<Longrightarrow> pcs s c = Idle \<Longrightarrow> mutex_inv (begin_op c a s)"
proof -
  assume s: "mutex_inv s" "pcs s c = Idle"
  have "\<not> in_data (pcs s c)" "\<not> in_cmd (pcs s c)" using s(2) by simp_all
  with s(1) have "data_mutex s \<noteq> Some c" "cmd_mutex s \<noteq> Some c" by (auto simp: mutex_inv_def)
  then show ?thesis by (intro mutex_inv_move [OF s(1), of c]) (simp_all add: begin_frame(1-6))
qed

text \<open>Properties of states that steps keep hold after every schedule.\<close>

lemma run_sched_inv:
  assumes "P s" and "\<And>s c a. P s \<Longrightarrow> pcs s c = Idle \<Longrightarrow> Begin c a \<in> set xs \<Longrightarrow> P (begin_op c a s)"
    and "\<And>s c s'. P s \<Longrightarrow> Go c \<in> set xs \<Longrightarrow> advance V c s = Some s' \<Longrightarrow> P s'"
  shows "P (run_sched V xs s)"
  using assms
proof (induction xs arbitrary: s)
  case (Cons x xs)
  have "P (sched_step V x s)"
  proof (cases x)
    case (Begin c a)
    with Cons.prems(1,2) show ?thesis by (simp add: sched_step_def)
  next
    case (Go c)
    with Cons.prems(1) Cons.prems(3) [of s c] show ?thesis
      by (simp add: sched_step_def split: option.split)
  qed
  then have "P (run_sched V xs (sched_step V x s))"
  proof (rule Cons.IH)
    show "\<And>s c a. P s \<Longrightarrow> pcs s c = Idle \<Longrightarrow> Begin c a \<in> set xs \<Longrightarrow> P (begin_op c a s)"
      by (rule Cons.prems(2)) simp_all
    show "\<And>s c s'. P s \<Longrightarrow> Go c \<in> set xs \<Longrightarrow> advance V c s = Some s' \<Longrightarrow> P s'"
      by (rule Cons.prems(3)) simp_all
  qed
  then show ?case by (simp add: run_sched_def)
qed (simp add: run_sched_def)

text \<open>
  C9. In every interleaving of any number of connections, at most one thread is in a section
  of the data mutex and at most one talks to the driver, each of them the holder of its mutex;
  and a device somebody uses is open.
\<close>

theorem threads_exclude:
  assumes "dev_inv d"
  shows "mutex_inv (run_sched V xs (start d w)) \<and> users_inv (tdev (run_sched V xs (start d w)))"
proof (rule run_sched_inv)
  show "mutex_inv (start d w) \<and> users_inv (tdev (start d w))"
    using assms by (simp add: start_def mutex_inv_def users_inv_def dev_inv_def)
qed (use begin_mutex begin_frame(1) in \<open>metis advance_mutex advance_users\<close>)+

theorem threads_exclude_witness:
  "mutex_inv (run_sched test_vtable [Begin 1 Lock, Begin 2 (Ask ''x''), Go 2, Go 1, Go 2, Go 1]
     (start (new_device ''a'' ''test'' [] :: string device) 0))"
  by (rule threads_exclude [OF new_device_inv, THEN conjunct1])

definition no_close :: "sched list \<Rightarrow> bool" where
  "no_close xs \<longleftrightarrow> list_all (\<lambda>x. case x of Begin c a \<Rightarrow> a \<noteq> Close | Go c \<Rightarrow> True) xs"

text \<open>
  C13. As long as nobody closes the device, no interleaving calls through a null driver
  pointer: no request of any thread meets undefined behaviour, provided the drivers have none.
\<close>

theorem threads_no_UB:
  assumes "dev_inv d" and "safe_vtable V" and "no_close xs"
  shows "replies (run_sched V xs (start d w)) c \<noteq> Some (Inl UB)"
proof -
  have "open_inv (run_sched V xs (start d w))"
  proof (rule run_sched_inv)
    show "open_inv (start d w)"
      using assms(1) by (simp add: start_def open_inv_def users_inv_def dev_inv_def)
    show "open_inv (begin_op c a s)" if "open_inv s" "pcs s c = Idle" "Begin c a \<in> set xs" for s c a
    proof -
      have "a \<noteq> Close" using that(3) assms(3) by (auto simp: no_close_def list_all_iff)
      moreover have "users_inv (tdev (begin_op c a s))"
        using that(1) by (simp add: begin_frame open_inv_def)
      ultimately show ?thesis
        by (intro open_inv_move [OF that(1), of _ c]) (simp_all add: begin_frame(1-9), rule begin_frame(10))
    qed
  qed (use advance_open assms(2) in blast)
  then show ?thesis by (simp add: open_inv_def)
qed

theorem threads_no_UB_witness:
  "replies (run_sched test_vtable [Begin 1 Use, Go 1, Begin 2 (Ask ''x''), Go 1, Go 2, Go 1]
     (start (new_device ''a'' ''test'' []) 0)) 2 \<noteq> Some (Inl UB)"
  by (rule threads_no_UB [OF new_device_inv])
    (auto simp: safe_vtable_def test_vtable_def no_close_def)

section \<open>Locks\<close>

text \<open>
  A thread that has passed the tests of \<^verbatim>\<open>use\<close>, or that is a user or about to close the
  device, is past the point where a lock stops it.
\<close>

definition past_lock :: "pc \<Rightarrow> bool" where
  "past_lock p \<longleftrightarrow> needs_user p \<or> excluded p \<or> (\<exists>t. p = Wait (InUse t) \<or> p = Hold (InUse t)) \<or>
     (\<exists>r. p = Logged r)"

lemma past_lock_simps [simp]:
  "\<not> past_lock Idle" "\<not> past_lock (Entry t)" "\<not> past_lock (Check t)" "\<not> past_lock (CheckLocked t)"
  "past_lock (WaitCmd m)" "past_lock (Cmd m)" "past_lock (Call b m)" "past_lock (Logged r)"
  "past_lock (Wait q) \<longleftrightarrow> q \<in> {InLock, InClose} \<or> (\<exists>t. q = InUse t)"
  "past_lock (Hold q) \<longleftrightarrow> q \<in> {InLock, InClose} \<or> (\<exists>t. q = InUse t)"
  by (auto simp: past_lock_def)

text \<open>Connection \<open>c\<close> is the only user of the locked device, and no other thread is past the lock.\<close>

definition firm_lock :: "conn \<Rightarrow> ('d, 'w) threads \<Rightarrow> bool" where
  "firm_lock c s \<longleftrightarrow> locked (tdev s) \<and> users (tdev s) = {c} \<and> pcs s c = Idle \<and>
     (\<forall>c'. \<not> past_lock (pcs s c'))"

definition others_only :: "conn \<Rightarrow> sched list \<Rightarrow> bool" where
  "others_only c xs \<longleftrightarrow> list_all (\<lambda>x. case x of Begin c' a \<Rightarrow> c' \<noteq> c \<and> a \<noteq> Close | Go c' \<Rightarrow> True) xs"

lemma run_critical_outsider:
  assumes "run_critical V c q (d, w) = (r, (d', w'))" and "\<not> past_lock (Hold q)"
    and "c \<notin> users d"
  shows "users d' = users d \<and> locked d' = locked d \<and> drv d' = drv d \<and> w' = w"
proof (cases q)
  case InUnlock
  with assms obtain u where u: "dev_unlock c d = (u, d')" and "w' = w"
    by (auto simp: run_critical_def local_def void_result split: prod.splits)
  with assms(3) show ?thesis by (auto simp: dev_unlock_def split: if_splits)
next
  case InRelease
  with assms(1) have d: "d' = dev_release c d" "w' = w"
    by (simp_all add: run_critical_def quiet_def)
  from dev_release_other [OF assms(3)] show ?thesis unfolding d by simp
next
  case InLogGet
  with assms obtain u where "dev_log_get c d = (u, d')" and "w' = w"
    by (auto simp: run_critical_def local_def split: prod.splits)
  then show ?thesis by (auto simp: dev_log_get_def split: option.splits prod.splits)
next
  case InLogStart
  with assms(1) show ?thesis by (auto simp: run_critical_def quiet_def dev_log_start_def)
next
  case InLogFinish
  with assms(1) show ?thesis by (auto simp: run_critical_def quiet_def dev_log_finish_def)
qed (use assms(2) in simp_all)

lemma after_critical_not_past:
  "\<not> past_lock (Hold q) \<Longrightarrow> pcs (after_critical c q r s) c = Idle"
  by (cases q; cases r) (simp_all add: after_critical_def)

lemma advance_outsider:
  assumes "advance V c' s = Some s'" and "firm_lock c s"
  shows "firm_lock c s' \<and> drv (tdev s') = drv (tdev s) \<and> tworld s' = tworld s"
proof -
  have c': "c' \<noteq> c" and out: "c' \<notin> users (tdev s)" and np: "\<not> past_lock (pcs s c')"
    using assms by (auto simp: firm_lock_def advance_def)
  have move: "firm_lock c s'" if "tdev s' = tdev s \<or> users (tdev s') = users (tdev s) \<and>
      locked (tdev s') = locked (tdev s)" "\<not> past_lock (pcs s' c')"
      "\<And>x. x \<noteq> c' \<Longrightarrow> pcs s' x = pcs s x"
  proof -
    have "\<not> past_lock (pcs s' x)" for x
      using that(2,3) assms(2) by (cases "x = c'") (simp_all add: firm_lock_def)
    with that c' assms(2) show ?thesis by (auto simp: firm_lock_def)
  qed
  from assms(1) show ?thesis
  proof (cases rule: advance_cases)
    case (leave q r p)
    obtain d' w' where p: "p = (d', w')" by fastforce
    have "\<not> past_lock (Hold q)" using np leave(1) by simp
    note * = run_critical_outsider [OF leave(2) [unfolded p] this out]
      and idle = after_critical_not_past [OF this]
    have "firm_lock c s'" by (rule move) (use * in \<open>simp_all add: leave(4) p idle\<close>)
    with * show ?thesis by (simp add: leave(4) p)
  qed (use np out assms(2) move in \<open>auto simp: firm_lock_def\<close>)
qed



section \<open>Races\<close>

lemmas run_one = run_sched_def sched_step_def begin_op_def advance_def goto_def reply_def store_def
  run_critical_def after_critical_def use_section_def lock_section_def drv_call_def void_def
  bind_act_def new_device_def test_vtable_def start_def dev_close_def

text \<open>
  The test of the lock and the entry of a user are not one atomic step: there is an
  interleaving of two connections, none of which closes the device, that leaves it locked with
  two users.
\<close>

theorem lock_race:
  "\<exists>xs. no_close xs \<and> locked (tdev (run_sched test_vtable xs fresh_threads)) \<and>
     users (tdev (run_sched test_vtable xs fresh_threads)) = {1, 2}"
proof -
  let ?xs = "[Begin 2 Use, Go 2, Go 2, Begin 1 Lock, Go 1, Go 1, Go 1, Go 1, Go 1, Go 1, Go 1,
    Go 2, Go 2]"
  have "tdev (run_sched test_vtable ?xs fresh_threads) =
      (new_device ''a'' ''test'' [])\<lparr>drv := Some [], users := {2, 1}, locked := True\<rparr>"
    by (simp add: fresh_threads_def run_one)
  moreover have "no_close ?xs" by (simp add: no_close_def)
  ultimately show ?thesis by (intro exI [of _ ?xs]) auto
qed


text \<open>
  The log buffers are read and written under both mutexes: there is an interleaving in
  which one thread logs a message, holding the command mutex, while another empties its log
  buffer, holding the data mutex.
\<close>

theorem log_race:
  "\<exists>xs. pcs (run_sched test_vtable xs fresh_threads) 1 = Cmd ''x'' \<and>
     pcs (run_sched test_vtable xs fresh_threads) 2 = Hold InLogGet \<and>
     log_bufs (tdev (run_sched test_vtable xs fresh_threads)) = [(2, [])]"
proof -
  let ?xs = "[Begin 2 LogStart, Go 2, Go 2, Begin 1 (Ask ''x''), Go 1, Go 1, Go 1, Go 1, Go 1, Go 1,
    Begin 2 LogGet, Go 2]"
  show ?thesis
    by (intro exI [of _ ?xs]) (simp add: fresh_threads_def run_one quiet_def dev_log_start_def)
qed

end
