(* ===== verification/Threads_Progress.thy ===== *)
theory Threads_Progress
  imports Device_Threads
begin

text \<open>
  The threads of a device do not block each other for ever. A thread holds at most one mutex
  and never waits while it holds one, so some thread can always go on; and every step brings
  its thread closer to the end of its request. Together: from every reachable state there is
  a schedule that completes every request, as long as the drivers return.
\<close>

definition live_vtable :: "('d, 'w) vtable \<Rightarrow> bool" where
  "live_vtable V \<longleftrightarrow> (\<forall>n a w. fst (vt_create V n a w) \<noteq> Inl Hang) \<and>
     (\<forall>m s. fst (vt_ask V m s) \<noteq> Inl Hang)"

lemma run_critical_live:
  assumes "live_vtable V" and "run_critical V c q (d, w) = (r, p)"
  shows "r \<noteq> Inl Hang"
proof (cases q)
  case (InUse t)
  with assms(2) obtain u where u: "use_section V c (d, w) = (u, p)"
      "r = (case u of Inl e \<Rightarrow> Inl e | Inr x \<Rightarrow> Inr [])" by (auto simp: run_critical_def void_result)
  moreover have "fst (vt_create V (drv_name d) (drv_args d) w) \<noteq> Inl Hang"
    using assms(1) by (simp add: live_vtable_def)
  ultimately show ?thesis
    by (auto simp: use_section_def split: option.splits prod.splits sum.splits)
qed (use assms(2) in \<open>auto simp: run_critical_def void_result lock_section_def local_def quiet_def
      dev_unlock_def dev_log_get_def split: prod.splits if_splits option.splits\<close>)

lemma drv_call_live:
  assumes "live_vtable V" and "drv_call V m (d, w) = (r, p)"
  shows "r \<noteq> Inl Hang"
proof (cases "drv d")
  case None
  with assms(2) show ?thesis by (auto simp: drv_call_def)
next
  case (Some x)
  obtain q x' w' where q: "vt_ask V m (x, w) = (q, (x', w'))" by (metis prod.exhaust)
  have "fst (vt_ask V m (x, w)) \<noteq> Inl Hang" using assms(1) by (simp add: live_vtable_def)
  with q Some assms(2) show ?thesis by (auto simp: drv_call_def)
qed

text \<open>A thread that is not waiting for a mutex can go on.\<close>

lemma advance_possible:
  assumes "live_vtable V" and "pcs s c \<noteq> Idle"
    and "\<And>q. pcs s c = Wait q \<Longrightarrow> data_mutex s = None"
    and "\<And>m. pcs s c = WaitCmd m \<Longrightarrow> cmd_mutex s = None"
  shows "\<exists>s'. advance V c s = Some s'"
proof (cases "pcs s c")
  case (Hold q)
  obtain r p where "run_critical V c q (tdev s, tworld s) = (r, p)" by (meson surj_pair)
  with Hold run_critical_live [OF assms(1) this] show ?thesis by (simp add: advance_def)
next
  case (Call b m)
  obtain r p where "drv_call V m (tdev s, tworld s) = (r, p)" by (meson surj_pair)
  with Call drv_call_live [OF assms(1) this] show ?thesis by (simp add: advance_def)
qed (use assms(2-4) in \<open>simp_all add: advance_def\<close>)

text \<open>No deadlock: if some thread is busy, some thread can go on.\<close>

lemma no_deadlock:
  assumes "mutex_inv s" and "live_vtable V" and "pcs s c \<noteq> Idle"
  shows "\<exists>c' s'. advance V c' s = Some s'"
proof (cases "data_mutex s")
  case (Some c')
  then have "in_data (pcs s c')" using assms(1) by (simp add: mutex_inv_def)
  then obtain q where "pcs s c' = Hold q" by (auto simp: in_data_def split: pc.splits)
  then show ?thesis using advance_possible [OF assms(2), of s c'] by auto
next
  case None
  show ?thesis
  proof (cases "cmd_mutex s")
    case (Some c')
    then have "in_cmd (pcs s c')" using assms(1) by (simp add: mutex_inv_def)
    then have "pcs s c' \<noteq> Idle \<and> (\<forall>q. pcs s c' \<noteq> Wait q) \<and> (\<forall>m. pcs s c' \<noteq> WaitCmd m)" by auto
    then show ?thesis using advance_possible [OF assms(2), of s c'] by blast
  next
    case free: None
    show ?thesis using advance_possible [OF assms(2,3) None free] by blast
  qed
qed

text \<open>How many steps a thread has left, at most.\<close>

fun task_steps :: "task \<Rightarrow> nat" where
  "task_steps Return = 0"
| "task_steps TakeLock = 2"
| "task_steps (Send m) = 4"

fun steps_left :: "pc \<Rightarrow> nat" where
  "steps_left Idle = 0"
| "steps_left (Entry t) = 5 + task_steps t"
| "steps_left (Check t) = 4 + task_steps t"
| "steps_left (CheckLocked t) = 3 + task_steps t"
| "steps_left (Wait q) = (case q of InUse t \<Rightarrow> 2 + task_steps t | _ \<Rightarrow> 2)"
| "steps_left (Hold q) = (case q of InUse t \<Rightarrow> 1 + task_steps t | _ \<Rightarrow> 1)"
| "steps_left (WaitCmd m) = 4"
| "steps_left (Cmd m) = 3"
| "steps_left (Call b m) = 2"
| "steps_left (Logged r) = 1"

lemma steps_left_zero [simp]: "steps_left p = 0 \<longleftrightarrow> p = Idle"
  by (cases p) (auto split: critical.split)

lemma steps_after_use: "steps_left (pcs (after_use c t s) c) = task_steps t"
  by (cases t) simp_all

lemma advance_closer:
  assumes "advance V c s = Some s'"
  shows "steps_left (pcs s' c) < steps_left (pcs s c)" and "c' \<noteq> c \<Longrightarrow> pcs s' c' = pcs s c'"
proof -
  show "steps_left (pcs s' c) < steps_left (pcs s c)"
    using assms
  proof (cases rule: advance_cases)
    case (leave q r p)
    then show ?thesis
      by (cases q; cases r) (simp_all add: after_critical_def steps_after_use)
  qed (auto simp: steps_after_use split: critical.split)
  show "c' \<noteq> c \<Longrightarrow> pcs s' c' = pcs s c'"
    using assms by (cases rule: advance_cases) simp_all
qed

lemma steps_at_most_nine: "steps_left (pcs (begin_op c a s) c) \<le> 9"
  by (cases a) (simp_all add: begin_op_def)

text \<open>The steps all threads have left.\<close>

definition work :: "('d, 'w) threads \<Rightarrow> nat" where
  "work s = (\<Sum>c\<in>UNIV. steps_left (pcs s c))"

lemma work_advance: "advance V c s = Some s' \<Longrightarrow> work s' < work s"
  unfolding work_def
proof (rule sum_strict_mono_ex1)
  assume a: "advance V c s = Some s'"
  show "\<forall>x\<in>UNIV. steps_left (pcs s' x) \<le> steps_left (pcs s x)"
    using advance_closer [OF a] by (metis nat_less_le order_refl)
  show "\<exists>x\<in>UNIV. steps_left (pcs s' x) < steps_left (pcs s x)"
    using advance_closer(1) [OF a] by blast
qed simp

lemma work_begin: "pcs s c = Idle \<Longrightarrow> work (begin_op c a s) \<le> work s + 9"
proof -
  assume "pcs s c = Idle"
  have "work (begin_op c a s) = steps_left (pcs (begin_op c a s) c) +
      (\<Sum>x\<in>UNIV - {c}. steps_left (pcs (begin_op c a s) x))"
    unfolding work_def by (rule sum.remove) simp_all
  also have "(\<Sum>x\<in>UNIV - {c}. steps_left (pcs (begin_op c a s) x)) =
      (\<Sum>x\<in>UNIV - {c}. steps_left (pcs s x))"
    by (rule sum.cong) (simp_all add: begin_frame)
  also have "\<dots> \<le> work s" unfolding work_def by (rule sum_mono2) simp_all
  finally show ?thesis using steps_at_most_nine [of c a s] by simp
qed

lemma work_sched: "work (run_sched V xs s) \<le> work s + 9 * length xs"
proof (induction xs arbitrary: s)
  case (Cons x xs)
  have "work (sched_step V x s) \<le> work s + 9"
  proof (cases x)
    case (Begin c a)
    then show ?thesis using work_begin [of s c a] by (simp add: sched_step_def)
  next
    case (Go c)
    then show ?thesis using work_advance [of V c s] by (auto simp: sched_step_def split: option.split)
  qed
  with Cons.IH [of "sched_step V x s"] show ?case by (simp add: run_sched_def)
qed (simp add: run_sched_def)

lemma can_complete:
  assumes "mutex_inv s" and "live_vtable V"
  shows "\<exists>cs. length cs \<le> work s \<and> (\<forall>c. pcs (run_sched V (map Go cs) s) c = Idle)"
  using assms(1)
proof (induction "work s" arbitrary: s rule: less_induct)
  case less
  show ?case
  proof (cases "\<forall>c. pcs s c = Idle")
    case True
    then show ?thesis by (intro exI [of _ "[]"]) (simp add: run_sched_def)
  next
    case False
    then obtain c s' where a: "advance V c s = Some s'"
      using no_deadlock [OF less.prems assms(2)] by blast
    obtain cs where cs: "length cs \<le> work s'" "\<forall>c. pcs (run_sched V (map Go cs) s') c = Idle"
      using less.hyps [OF work_advance [OF a] advance_mutex [OF a less.prems]] by blast
    have "run_sched V (map Go (c # cs)) s = run_sched V (map Go cs) s'"
      using a by (simp add: run_sched_def sched_step_def)
    with cs work_advance [OF a] show ?thesis by (intro exI [of _ "c # cs"]) simp
  qed
qed

lemma run_sched_append: "run_sched V (xs @ ys) s = run_sched V ys (run_sched V xs s)"
  by (simp add: run_sched_def)

text \<open>
  C11. No deadlock: whatever requests the connections have begun and however their threads have
  been interleaved so far, there is a continuation in which every request completes, of at
  most nine steps for each event so far, provided the drivers return.
\<close>

theorem threads_complete:
  assumes "live_vtable V"
  shows "\<exists>cs. length cs \<le> 9 * length xs \<and>
    (\<forall>c. pcs (run_sched V (xs @ map Go cs) (start d w)) c = Idle)"
proof -
  let ?s = "run_sched V xs (start d w)"
  have "work (start d w) = 0" by (simp add: work_def start_def)
  then have "work ?s \<le> 9 * length xs" using work_sched [of V xs "start d w"] by simp
  moreover have "mutex_inv ?s"
  proof (rule run_sched_inv)
    show "mutex_inv (start d w)" by (simp add: start_def mutex_inv_def)
  qed (blast intro: advance_mutex begin_mutex)+
  from can_complete [OF this assms] obtain cs where "length cs \<le> work ?s"
    "\<forall>c. pcs (run_sched V (map Go cs) ?s) c = Idle" by blast
  ultimately show ?thesis by (intro exI [of _ cs]) (simp add: run_sched_append)
qed

theorem threads_complete_witness:
  "\<exists>cs. length cs \<le> 27 \<and> (\<forall>c. pcs (run_sched test_vtable ([Begin 1 Lock, Begin 2 (Ask ''x''), Go 2] @ map Go cs)
     (start (new_device ''a'' ''test'' []) 0)) c = Idle)"
proof -
  have "live_vtable test_vtable" by (auto simp: live_vtable_def test_vtable_def)
  from threads_complete [OF this, of "[Begin 1 Lock, Begin 2 (Ask ''x''), Go 2]"]
  show ?thesis by simp
qed

end
