(* ===== verification/Log_Bounds.thy ===== *)
theory Log_Bounds
  imports Device_Threads
begin

text \<open>
  The log buffers under concurrency: the limit of \<^verbatim>\<open>Device::log_message\<close> holds whatever the
  threads do, although a message may be logged while another connection opens or empties its
  buffer.
\<close>

definition logs_bounded :: "nat \<Rightarrow> 'd device \<Rightarrow> bool" where
  "logs_bounded n d \<longleftrightarrow> max_log_size d = n \<and> smap_ok (log_bufs d) \<and> logs_ok n (log_bufs d)"

lemma logs_bounded_message: "logs_bounded n d \<Longrightarrow> logs_bounded n (log_message p m d)"
  by (auto simp: logs_bounded_def log_message_def Let_def logs_ok_def trim_front_drop)

lemma logs_bounded_answer: "logs_bounded n d \<Longrightarrow> logs_bounded n (log_answer r d)"
  by (cases r rule: sum.exhaust; simp add: log_answer_def logs_bounded_message)
    (rename_tac e, case_tac e; simp add: logs_bounded_message)

lemma logs_bounded_same:
  "\<lbrakk> logs_bounded n d; log_bufs d' = log_bufs d; max_log_size d' = max_log_size d \<rbrakk> \<Longrightarrow> logs_bounded n d'"
  by (simp add: logs_bounded_def)

lemma drv_call_bounded: "drv_call V m (d, w) = (r, p) \<Longrightarrow> logs_bounded n d \<Longrightarrow> logs_bounded n (fst p)"
  by (auto simp: drv_call_def split: option.splits prod.splits intro: logs_bounded_same)

lemma run_critical_bounded:
  assumes "run_critical V c q (d, w) = (r, p)" and "logs_bounded n d"
  shows "logs_bounded n (fst p)"
proof (cases q)
  case (InUse t)
  with assms show ?thesis
    by (auto simp: run_critical_def void_def bind_act_def use_section_def split: option.splits sum.splits prod.splits if_splits
        intro: logs_bounded_same)
next
  case InLogGet
  with assms show ?thesis
    by (auto simp: run_critical_def local_def dev_log_get_def drain_concat logs_bounded_def
        split: option.splits prod.splits)
next
  case InRelease
  with assms show ?thesis
    by (auto simp: run_critical_def quiet_def dev_release_def Let_def logs_bounded_def)
qed (use assms in \<open>auto simp: run_critical_def void_def bind_act_def local_def quiet_def lock_section_def dev_unlock_def dev_close_def
      dev_log_start_def dev_log_finish_def logs_bounded_def split: option.splits sum.splits prod.splits if_splits\<close>)

lemma advance_bounded:
  assumes "advance V c s = Some s'" and "logs_bounded n (tdev s)"
  shows "logs_bounded n (tdev s')"
proof (cases "pcs s c")
  case (Hold q)
  obtain r p where run: "run_critical V c q (tdev s, tworld s) = (r, p)" by (meson surj_pair)
  from run_critical_bounded [OF this assms(2)] assms(1) Hold run show ?thesis
    by (auto simp: advance_def thread_defs split: if_splits sum.splits critical.splits task.splits)
next
  case (Call b m)
  obtain r p where run: "drv_call V m (tdev s, tworld s) = (r, p)" by (meson surj_pair)
  from drv_call_bounded [OF this assms(2)] assms(1) Call run show ?thesis
    by (auto simp: advance_def thread_defs split: if_splits)
next
  case (Entry t)
  with assms show ?thesis by (cases t) (auto simp: advance_def thread_defs split: if_splits)
next
  case (Check t)
  with assms show ?thesis by (cases t) (auto simp: advance_def thread_defs split: if_splits)
qed (use assms logs_bounded_message logs_bounded_answer in
    \<open>auto simp: advance_def thread_defs split: if_splits\<close>)

lemma begin_bounded: "logs_bounded n (tdev s) \<Longrightarrow> logs_bounded n (tdev (begin_op c a s))"
  by (cases a) (simp_all add: begin_op_def thread_defs)


end
