(* ===== verification/Os.thy ===== *)
theory Os
  imports Driver_Iface
begin

text \<open>
  The system calls the hardware drivers make. The operating system is outside the repository:
  \<open>'w os\<close> is a parameter of the drivers, with one function for each call; \<open>'w\<close> is the outside
  world it changes. The constants are those of Linux.
\<close>

record 'w os =
  os_open :: "string \<Rightarrow> 32 word \<Rightarrow> ('w, nat) sys"
  os_close :: "nat \<Rightarrow> 'w \<Rightarrow> 'w"
  os_read :: "nat \<Rightarrow> nat \<Rightarrow> ('w, string) sys"     \<comment> \<open>at most so many bytes; none at the end\<close>
  os_write :: "nat \<Rightarrow> string \<Rightarrow> ('w, nat) sys"
  os_usleep :: "int \<Rightarrow> 'w \<Rightarrow> 'w"                \<comment> \<open>microseconds\<close>
  strerror :: "nat \<Rightarrow> string"

definition EAGAIN :: nat where "EAGAIN = 11"
definition O_RDWR :: "32 word" where "O_RDWR = 0x2"
definition O_NOCTTY :: "32 word" where "O_NOCTTY = 0x100"
definition O_NDELAY :: "32 word" where "O_NDELAY = 0x800"

text \<open>\<^verbatim>\<open>usleep(t*1e6)\<close>\<close>

definition usleep_s :: "('w, 'a) os_scheme \<Rightarrow> 'f conv \<Rightarrow> 'f \<Rightarrow> 'w \<Rightarrow> 'w" where
  "usleep_s I F t w = os_usleep I (f_trunc F (f_mul F t (f_lit F ''1e6''))) w"

text \<open>\<^verbatim>\<open>if (t > 0) usleep(t*1e6)\<close>\<close>

definition delay_after :: "('w, 'a) os_scheme \<Rightarrow> 'f conv \<Rightarrow> 'f \<Rightarrow> ('w, unit) act" where
  "delay_after I F t = (\<lambda>w. (Inr (), if f_less F (f_lit F ''0'') t then usleep_s I F t w else w))"

text \<open>An exception thrown when a call fails: a prefix, what was tried, the reason.\<close>

definition sys_check :: "('w, 'a) os_scheme \<Rightarrow> string \<Rightarrow> ('w, 'b) sys \<Rightarrow> ('w, 'b) act" where
  "sys_check I pref f = (\<lambda>w. case f w of
      (Inl en, w1) \<Rightarrow> (Inl (Err (pref @ strerror I en)), w1)
    | (Inr x, w1) \<Rightarrow> (Inr x, w1))"

lemma sys_check_ok [simp]: "f w = (Inr x, w1) \<Longrightarrow> sys_check I p f w = (Inr x, w1)"
  by (simp add: sys_check_def)

lemma sys_check_err [simp]: "f w = (Inl en, w1) \<Longrightarrow> sys_check I p f w = (Inl (Err (p @ strerror I en)), w1)"
  by (simp add: sys_check_def)

lemma delay_after_ok: "fst (delay_after I F t w) = Inr ()"
  by (simp add: delay_after_def)

end
