(* ===== verification/Drv_Serial.thy ===== *)
theory Drv_Serial
  imports Os
begin

text \<open>
  \<^verbatim>\<open>server/drv_serial.h\<close> and \<^verbatim>\<open>server/drv_serial.cpp\<close>: the driver for serial ports. The first
  part translates the options into the \<^verbatim>\<open>termios\<close> structure (the constants are those of
  Linux), the second is the exchange of messages.

  The terminal calls of the operating system extend the parameter \<open>os\<close>. The three functions
  that store a speed in the structure belong to the C library and are parameters as well.
\<close>

unbundle bit_operations_syntax

record termios =
  c_iflag :: "32 word"
  c_oflag :: "32 word"
  c_cflag :: "32 word"
  c_lflag :: "32 word"
  c_cc :: "8 word list"

record 'w serial_os = "'w os" +
  fcntl_setfl :: "nat \<Rightarrow> 32 word \<Rightarrow> ('w, unit) sys"
  tcgetattr :: "nat \<Rightarrow> ('w, termios) sys"
  tcsetattr :: "nat \<Rightarrow> termios \<Rightarrow> ('w, unit) sys"
  tcflush :: "nat \<Rightarrow> 'w \<Rightarrow> 'w"
  cfsetspeed :: "32 word \<Rightarrow> termios \<Rightarrow> termios"
  cfsetispeed :: "32 word \<Rightarrow> termios \<Rightarrow> termios"
  cfsetospeed :: "32 word \<Rightarrow> termios \<Rightarrow> termios"

section \<open>Options to terminal settings\<close>

definition set_opt :: "'f conv \<Rightarrow> opt \<Rightarrow> string \<Rightarrow> 32 word \<Rightarrow> 32 word \<Rightarrow> 32 word result" where
  "set_opt F opts oname bits par =
     (if opt_exists opts oname
      then bind_res (opt_get_as (p_bool F) opts oname True)
             (\<lambda>b. Inr (if b then par OR bits else par AND NOT bits))
      else Inr par)"

text \<open>A sequence of such calls on one word.\<close>

fun set_opts :: "'f conv \<Rightarrow> opt \<Rightarrow> (string \<times> 32 word) list \<Rightarrow> 32 word \<Rightarrow> 32 word result" where
  "set_opts F opts [] par = Inr par"
| "set_opts F opts ((oname, bits) # r) par =
     bind_res (set_opt F opts oname bits par) (set_opts F opts r)"

definition baud_table :: "(int \<times> int) list" where
  "baud_table =
     [(0, 0), (50, 1), (75, 2), (110, 3), (134, 4), (150, 5), (200, 6), (300, 7), (600, 8),
      (1200, 9), (1800, 10), (2400, 11), (4800, 12), (9600, 13), (19200, 14), (38400, 15),
      (57600, 0x1001), (115200, 0x1002), (230400, 0x1003), (460800, 0x1004), (500000, 0x1005),
      (576000, 0x1006), (921600, 0x1007), (1000000, 0x1008), (1152000, 0x1009),
      (1500000, 0x100A), (2000000, 0x100B), (2500000, 0x100C), (3000000, 0x100D),
      (3500000, 0x100E), (4000000, 0x100F)]"

definition baud_to_mask :: "int \<Rightarrow> int" where
  "baud_to_mask b = (case map_of baud_table b of Some m \<Rightarrow> m | None \<Rightarrow> -1)"

text \<open>The message quotes an option with another name.\<close>

definition speed_opt :: "'f conv \<Rightarrow> string \<Rightarrow> opt \<Rightarrow> string \<Rightarrow> (32 word \<Rightarrow> termios \<Rightarrow> termios) \<Rightarrow>
    termios \<Rightarrow> termios result" where
  "speed_opt F ep opts oname store t =
     (if opt_exists opts oname
      then bind_res (opt_get_as (p_int F) opts oname (-1)) (\<lambda>b.
        if baud_to_mask b = -1
        then Inl (Err (ep @ ''unknown baud setting: '' @ opt_get opts ''baud'' []))
        else Inr (store (word_of_int (baud_to_mask b)) t))
      else Inr t)"

text \<open>An option with the values \<open>lo\<close>, \<open>lo + 1\<close> and so on replaces the bits of \<open>bits\<close>.\<close>

definition choice_opt :: "'f conv \<Rightarrow> string \<Rightarrow> opt \<Rightarrow> string \<Rightarrow> int \<Rightarrow> 32 word list \<Rightarrow>
    32 word \<Rightarrow> 32 word \<Rightarrow> 32 word result" where
  "choice_opt F what opts oname lo vals bits par =
     (if opt_exists opts oname
      then bind_res (opt_get_as (p_int F) opts oname (-1)) (\<lambda>v.
        if lo \<le> v \<and> v < lo + int (length vals)
        then Inr ((par AND NOT bits) OR vals ! nat (v - lo))
        else Inl (Err (what @ opt_get opts oname [])))
      else Inr par)"

definition CSIZE :: "32 word" where "CSIZE = 0x30"
definition CS7 :: "32 word" where "CS7 = 0x20"
definition CS8 :: "32 word" where "CS8 = 0x30"
definition CSTOPB :: "32 word" where "CSTOPB = 0x40"
definition PARENB :: "32 word" where "PARENB = 0x100"
definition PARODD :: "32 word" where "PARODD = 0x200"
definition INPCK :: "32 word" where "INPCK = 0x10"
definition ISTRIP :: "32 word" where "ISTRIP = 0x20"
definition ISIG :: "32 word" where "ISIG = 0x1"
definition ICANON :: "32 word" where "ICANON = 0x2"
definition ECHO :: "32 word" where "ECHO = 0x8"
definition ECHOE :: "32 word" where "ECHOE = 0x10"
definition ICRNL :: "32 word" where "ICRNL = 0x100"
definition IUCLC :: "32 word" where "IUCLC = 0x200"
definition IXON :: "32 word" where "IXON = 0x400"
definition IXANY :: "32 word" where "IXANY = 0x800"
definition IXOFF :: "32 word" where "IXOFF = 0x1000"
definition OLCUC :: "32 word" where "OLCUC = 0x2"
definition ONLCR :: "32 word" where "ONLCR = 0x4"
definition VTIME :: nat where "VTIME = 5"
definition VMIN :: nat where "VMIN = 6"

lemmas termios_bits = CSIZE_def CS7_def CS8_def CSTOPB_def PARENB_def PARODD_def INPCK_def
  ISTRIP_def ISIG_def ICANON_def ECHO_def ECHOE_def ICRNL_def IUCLC_def IXON_def IXANY_def
  IXOFF_def OLCUC_def ONLCR_def

definition control_opts :: "'f conv \<Rightarrow> string \<Rightarrow> opt \<Rightarrow> 32 word \<Rightarrow> 32 word result" where
  "control_opts F ep opts c =
     bind_res (set_opts F opts [(''clocal'', 0x800), (''cread'', 0x80), (''crtscts'', 0x80000000)] c) (\<lambda>c.
     bind_res (choice_opt F (ep @ ''character size should be in [5..8]: '') opts ''cs'' 5
        [0, 0x10, CS7, CS8] CSIZE c) (\<lambda>c.
     set_opts F opts [(''cstopb'', CSTOPB), (''hup'', 0x400), (''parenb'', PARENB),
       (''parodd'', PARODD), (''cmspar'', 0x40000000)] c))"

definition input_opts :: "'f conv \<Rightarrow> opt \<Rightarrow> 32 word \<Rightarrow> 32 word result" where
  "input_opts F opts =
     set_opts F opts [(''icrnl'', ICRNL), (''inlcr'', 0x40), (''igncr'', 0x80), (''iuclc'', IUCLC),
       (''iutf8'', 0x4000), (''brkint'', 0x2), (''ignbrk'', 0x1), (''imaxbel'', 0x2000),
       (''inpck'', INPCK), (''ignpar'', 0x4), (''istrip'', ISTRIP), (''parmrk'', 0x8),
       (''ixany'', IXANY), (''ixoff'', IXOFF), (''ixon'', IXON)]"

definition output_opts :: "'f conv \<Rightarrow> string \<Rightarrow> opt \<Rightarrow> 32 word \<Rightarrow> 32 word result" where
  "output_opts F ep opts c =
     bind_res (choice_opt F (ep @ ''backspace delay style should be in [0..1]: '') opts ''bs'' 0
        [0, 0x2000] 0x2000 c) (\<lambda>c.
     bind_res (choice_opt F (ep @ ''carriage return delay style should be in [0..3]: '') opts ''cr'' 0
        [0, 0x200, 0x400, 0x600] 0x600 c) (\<lambda>c.
     bind_res (choice_opt F (ep @ ''form feed style should be in [0..1]: '') opts ''ff'' 0
        [0, 0x8000] 0x8000 c) (\<lambda>c.
     bind_res (choice_opt F (ep @ ''newline delay style should be in [0..1]: '') opts ''nl'' 0
        [0, 0x100] 0x100 c) (\<lambda>c.
     bind_res (choice_opt F (ep @ ''tab delay style should be in [0..3]: '') opts ''tab'' 0
        [0, 0x800, 0x1000, 0x1800] 0x1800 c) (\<lambda>c.
     bind_res (choice_opt F (ep @ ''vertical tab delay style should be in [0..1]: '') opts ''vt'' 0
        [0, 0x4000] 0x4000 c) (\<lambda>c.
     set_opts F opts [(''ocrnl'', 0x8), (''onlcr'', ONLCR), (''onlret'', 0x20), (''onocr'', 0x10),
       (''ofdel'', 0x80), (''ofill'', 0x40), (''olcuc'', OLCUC), (''opost'', 0x1)] c))))))"

definition local_opts :: "'f conv \<Rightarrow> opt \<Rightarrow> 32 word \<Rightarrow> 32 word result" where
  "local_opts F opts =
     set_opts F opts [(''echo'', ECHO), (''echoctl'', 0x200), (''echoe'', ECHOE), (''echok'', 0x20),
       (''echoke'', 0x800), (''echonl'', 0x40), (''echoprt'', 0x400), (''extproc'', 0x10000),
       (''flusho'', 0x1000), (''icanon'', ICANON), (''iexten'', 0x8000), (''isig'', ISIG),
       (''noflsh'', 0x80), (''tostop'', 0x100), (''xcase'', 0x4)]"

definition parity_opt :: "string \<Rightarrow> opt \<Rightarrow> 32 word \<Rightarrow> 32 word result" where
  "parity_opt ep opts c =
     (if opt_exists opts ''parity'' then
        (let par = opt_get opts ''parity'' ''8N1'' in
         if par = ''8N1'' \<or> par = ''7S1''
         then Inr (c AND NOT PARENB AND NOT CSTOPB AND NOT CSIZE OR CS8)
         else if par = ''7E1''
         then Inr (((c OR PARENB) AND NOT PARODD) AND NOT CSTOPB AND NOT CSIZE OR CS7)
         else if par = ''7O1''
         then Inr ((c OR PARENB OR PARODD) AND NOT CSTOPB AND NOT CSIZE OR CS7)
         else if par \<noteq> []
         then Inl (Err (ep @ ''unknown parity setting (expected 8N1, 7E1, 7O1, or 7S1): '' @ par))
         else Inr c)
      else Inr c)"

definition raw_opt :: "'f conv \<Rightarrow> opt \<Rightarrow> 32 word \<Rightarrow> 32 word result" where
  "raw_opt F opts l =
     (if opt_exists opts ''raw''
      then bind_res (opt_get_as (p_bool F) opts ''raw'' True) (\<lambda>b.
        Inr (if b then l AND NOT (ICANON OR ECHO OR ECHOE OR ISIG) else l OR (ICANON OR ECHO OR ECHOE)))
      else Inr l)"

definition timeout_opt :: "'f conv \<Rightarrow> string \<Rightarrow> opt \<Rightarrow> 8 word list \<Rightarrow> 8 word list result" where
  "timeout_opt F ep opts cc =
     (if opt_exists opts ''timeout''
      then bind_res (opt_get_as (p_double F) opts ''timeout'' (f_lit F ''5.0'')) (\<lambda>t.
        if f_less F t (f_lit F ''0'') \<or> f_less F (f_lit F ''25.5'') t
        then Inl (Err (ep @ ''timeout 0..25.5 s expected''))
        else Inr (cc[VTIME := word_of_int (f_trunc F (f_mul F t (f_lit F ''10'')))]))
      else Inr cc)"

definition vmin_opt :: "'f conv \<Rightarrow> string \<Rightarrow> opt \<Rightarrow> 8 word list \<Rightarrow> 8 word list result" where
  "vmin_opt F ep opts cc =
     (if opt_exists opts ''vmin''
      then bind_res (opt_get_as (p_int F) opts ''vmin'' 0) (\<lambda>v.
        if v < 0 \<or> 255 < v then Inl (Err (ep @ ''vmin should be in [0..255]''))
        else Inr (cc[VMIN := word_of_int v]))
      else Inr cc)"

text \<open>All of it, in the order of the constructor.\<close>

definition serial_options :: "('w, 'a) serial_os_scheme \<Rightarrow> 'f conv \<Rightarrow> string \<Rightarrow> opt \<Rightarrow>
    termios \<Rightarrow> termios result" where
  "serial_options I F ep opts t =
     bind_res (speed_opt F ep opts ''speed'' (cfsetspeed I) t) (\<lambda>t.
     bind_res (speed_opt F ep opts ''ispeed'' (cfsetispeed I) t) (\<lambda>t.
     bind_res (speed_opt F ep opts ''ospeed'' (cfsetospeed I) t) (\<lambda>t.
     bind_res (control_opts F ep opts (c_cflag t)) (\<lambda>c.
     bind_res (input_opts F opts (c_iflag t)) (\<lambda>i.
     bind_res (output_opts F ep opts (c_oflag t)) (\<lambda>ofl.
     bind_res (local_opts F opts (c_lflag t)) (\<lambda>l.
     bind_res (parity_opt ep opts c) (\<lambda>c.
     let i = (if c AND PARENB \<noteq> 0 then i OR (INPCK OR ISTRIP) else i) in
     bind_res (raw_opt F opts l) (\<lambda>l.
     bind_res (set_opt F opts ''sfc'' (IXON OR IXOFF OR IXANY) i) (\<lambda>i.
     bind_res (set_opt F opts ''nlcnv'' ICRNL i) (\<lambda>i.
     bind_res (set_opt F opts ''nlcnv'' ONLCR ofl) (\<lambda>ofl.
     bind_res (set_opt F opts ''lcase'' IUCLC i) (\<lambda>i.
     bind_res (set_opt F opts ''lcase'' OLCUC ofl) (\<lambda>ofl.
     bind_res (timeout_opt F ep opts (c_cc t)) (\<lambda>cc.
     bind_res (vmin_opt F ep opts cc) (\<lambda>cc.
     Inr (t\<lparr>c_iflag := i, c_oflag := ofl, c_cflag := c, c_lflag := l, c_cc := cc\<rparr>)
     ))))))))))))))))"

section \<open>The driver\<close>

record 'f serial_drv =
  s_fd :: nat
  s_errpref :: string
  s_idn :: string
  s_ack :: string
  s_nack :: string
  s_add :: string
  s_trim :: string
  s_cond :: read_cond_t
  s_delay :: 'f
  s_flush_on_err :: bool

definition serial_known :: "string list" where
  "serial_known =
    [''errpref'', ''idn'', ''dev'', ''ndelay'', ''speed'', ''ispeed'', ''ospeed'',
     ''clocal'', ''cread'', ''crtscts'', ''cs'', ''cstopb'', ''hup'', ''parenb'', ''parodd'', ''cmspar'',
     ''icrnl'', ''inlcr'', ''igncr'', ''iuclc'', ''iutf8'', ''brkint'', ''ignbrk'', ''imaxbel'',
     ''inpck'', ''ignpar'', ''istrip'', ''parmrk'', ''ixany'', ''ixoff'', ''ixon'',
     ''bs'', ''cr'', ''ff'', ''nl'', ''tab'', ''vt'', ''ocrnl'', ''onlcr'', ''onlret'', ''onocr'',
     ''ofdel'', ''ofill'', ''olcuc'', ''opost'', ''echo'', ''echoctl'', ''echoe'', ''echok'',
     ''echoke'', ''echonl'', ''echoprt'', ''extproc'', ''flusho'', ''icanon'', ''iexten'', ''isig'',
     ''noflsh'', ''tostop'', ''xcase'', ''parity'', ''raw'', ''sfc'', ''nlcnv'', ''lcase'',
     ''timeout'', ''vmin'', ''delay'', ''add_str'', ''trim_str'', ''ack_str'', ''nack_str'',
     ''read_cond'', ''flush_on_err'']"

text \<open>The end of the constructor, from \<^verbatim>\<open>tcsetattr\<close> on.\<close>

definition serial_settings :: "('w, 'a) serial_os_scheme \<Rightarrow> 'f conv \<Rightarrow> string \<Rightarrow> nat \<Rightarrow> opt \<Rightarrow>
    termios \<Rightarrow> ('w, 'f serial_drv) act" where
  "serial_settings I F ep fd opts t =
     bind_act (sys_check I (ep @ ''can't set serial port parameters: '') (tcsetattr I fd t)) (\<lambda>_.
     bind_act (lift_res (opt_get_as (p_double F) opts ''delay'' (f_lit F ''0.1''))) (\<lambda>delay.
     bind_act (lift_res (str_to_read_cond (opt_get opts ''read_cond'' ''always''))) (\<lambda>cond.
     bind_act (lift_res (opt_get_as (p_bool F) opts ''flush_on_err'' True)) (\<lambda>fl.
     ok \<lparr>s_fd = fd, s_errpref = ep, s_idn = opt_get opts ''idn'' [],
         s_ack = opt_get opts ''ack_str'' [], s_nack = opt_get opts ''nack_str'' [],
         s_add = opt_get opts ''add_str'' [], s_trim = opt_get opts ''trim_str'' [],
         s_cond = cond, s_delay = delay, s_flush_on_err = fl\<rparr>))))"

text \<open>
  The constructor. When it throws after opening the port, the destructor does not run.
\<close>

definition serial_create :: "('w, 'a) serial_os_scheme \<Rightarrow> 'f conv \<Rightarrow> opt \<Rightarrow>
    ('w, 'f serial_drv) act" where
  "serial_create I F opts =
     bind_act (lift_res (opt_check_unknown serial_known opts)) (\<lambda>_.
     let ep0 = opt_get opts ''errpref'' ''serial: ''; dev = opt_get opts ''dev'' [];
         ep = ep0 @ dev @ '': '' in
     if dev = [] then throw (ep0 @ ''Parameter -dev is empty or missing'')
     else
       bind_act (sys_check I (ep @ ''can't open device: '')
         (os_open I (c_str dev) (O_RDWR OR O_NOCTTY OR O_NDELAY))) (\<lambda>fd.
       bind_act (if opt_exists opts ''ndelay''
         then bind_act (lift_res (opt_get_as (p_bool F) opts ''ndelay'' True)) (\<lambda>b.
           sys_check I (ep @ ''can't do fcntl: '') (fcntl_setfl I fd (if b then O_NDELAY else 0)))
         else ok ()) (\<lambda>_.
       bind_act (sys_check I (ep @ ''can't get serial port parameters: '') (tcgetattr I fd)) (\<lambda>t.
       bind_act (lift_res (serial_options I F ep opts t)) (\<lambda>t.
       serial_settings I F ep fd opts t)))))"

definition serial_destroy :: "('w, 'a) serial_os_scheme \<Rightarrow> 'f serial_drv \<Rightarrow> 'w \<Rightarrow> 'w" where
  "serial_destroy I d = os_close I (s_fd d)"

text \<open>
  The loop of \<^verbatim>\<open>read\<close>. It answers \<open>fail\<close> and the text before the \<^verbatim>\<open>-trim_str\<close> option applies.
\<close>

partial_function (option) serial_loop :: "('w, 'a) serial_os_scheme \<Rightarrow> 'f serial_drv \<Rightarrow> string \<Rightarrow>
    'w \<Rightarrow> ((bool \<times> string) result \<times> 'w) option" where
  "serial_loop I d ret w =
     (case os_read I (s_fd d) 4096 w of
        (Inl en, w1) \<Rightarrow>
          if en = EAGAIN then Some (Inr (False, ret), w1)
          else Some (Inl (Err (s_errpref d @ ''read error: '' @ strerror I en)),
                 if s_flush_on_err d then tcflush I (s_fd d) w1 else w1)
      | (Inr buf, w1) \<Rightarrow>
          if length buf = 0 then Some (Inl (Err (s_errpref d @ ''read timeout'')), w1)
          else if length (s_ack d) = 0 then Some (Inr (False, ret @ buf), w1)
          else (case trim_str (ret @ buf) (s_ack d) of (acked, r) \<Rightarrow>
            if acked then Some (Inr (False, r), w1)
            else (case trim_str r (s_nack d) of (nacked, r') \<Rightarrow>
              if nacked then Some (Inr (True, r'), w1)
              else serial_loop I d r' w1)))"

declare serial_loop.simps [code]

definition serial_read :: "('w, 'a) serial_os_scheme \<Rightarrow> 'f serial_drv \<Rightarrow> ('w, string) act" where
  "serial_read I d = bind_act (or_hang (serial_loop I d [])) (\<lambda>(fail, ret).
     let ret1 = snd (trim_str ret (s_trim d)) in
     if fail then throw (''nack from the device: '' @ ret1) else ok ret1)"

definition serial_write :: "('w, 'a) serial_os_scheme \<Rightarrow> 'f conv \<Rightarrow> 'f serial_drv \<Rightarrow> string \<Rightarrow>
    ('w, unit) act" where
  "serial_write I F d msg = (\<lambda>w.
     let m = (if 0 < length (s_add d) then msg @ s_add d else msg) in
     case os_write I (s_fd d) m w of
       (Inl en, w1) \<Rightarrow> (Inl (Err (s_errpref d @ ''write error: '' @ strerror I en)),
          if s_flush_on_err d then tcflush I (s_fd d) w1 else w1)
     | (Inr n, w1) \<Rightarrow> delay_after I F (s_delay d) w1)"

definition serial_ask :: "('w, 'a) serial_os_scheme \<Rightarrow> 'f conv \<Rightarrow> 'f serial_drv \<Rightarrow> string \<Rightarrow>
    ('w, string) act" where
  "serial_ask I F d msg =
     (if s_idn d \<noteq> [] \<and> strcaseeq msg ''*idn?'' then ok (s_idn d)
      else bind_act (serial_write I F d msg) (\<lambda>_.
        bind_act (lift_res (check_read_cond msg (cond_int (s_cond d)))) (\<lambda>b.
          if \<not> b then ok [] else serial_read I d)))"

lemma bind_if_not: "(if \<not> b then f else g) = (if b then g else f)"
  by simp

interpretation serial: message_driver "serial_write I F d" "serial_read I d" "serial_ask I F d"
    "s_idn d" "s_cond d" for I F d
  by unfold_locales (auto simp: serial_ask_def bind_if_not)

end
