(* ===== verification/Serial_Props.thy ===== *)
theory Serial_Props
  imports Drv_Serial
begin

text \<open>
  The serial driver: the terminal settings its options produce, and the exchange of messages,
  whose outcome does not depend on how the operating system cuts the answer into pieces.
\<close>

section \<open>Terminal settings\<close>

lemma set_opt_absent [simp]: "\<not> opt_exists opts k \<Longrightarrow> set_opt F opts k m p = Inr p"
  by (simp add: set_opt_def)

lemma set_opts_absent:
  "\<forall>(k, m) \<in> set tbl. \<not> opt_exists opts k \<Longrightarrow> set_opts F opts tbl p = Inr p"
  by (induction tbl) auto

lemma choice_opt_absent [simp]: "\<not> opt_exists opts k \<Longrightarrow> choice_opt F wh opts k lo vs m p = Inr p"
  by (simp add: choice_opt_def)

lemma speed_opt_absent [simp]: "\<not> opt_exists opts k \<Longrightarrow> speed_opt F ep opts k st t = Inr t"
  by (simp add: speed_opt_def)

text \<open>The options that do not concern the port.\<close>

definition message_opts :: "string set" where
  "message_opts = {''errpref'', ''idn'', ''dev'', ''ndelay'', ''delay'', ''add_str'', ''trim_str'',
     ''ack_str'', ''nack_str'', ''read_cond'', ''flush_on_err''}"

text \<open>
  Settings of the port that no option names keep the value they have, with one exception:
  when the port already generates parity, parity checking and stripping are switched on.
\<close>

theorem serial_options_untouched:
  assumes "\<And>k. opt_exists opts k \<Longrightarrow> k \<in> message_opts"
  shows "serial_options I F ep opts t =
    Inr (if c_cflag t AND PARENB \<noteq> 0 then t\<lparr>c_iflag := c_iflag t OR (INPCK OR ISTRIP)\<rparr> else t)"
proof -
  have no: "k \<notin> message_opts \<Longrightarrow> \<not> opt_exists opts k" for k using assms by blast
  have "control_opts F ep opts c = Inr c" for c
    unfolding control_opts_def
    by (simp add: set_opts_absent no message_opts_def)
  moreover have "input_opts F opts c = Inr c" for c
    unfolding input_opts_def by (rule set_opts_absent) (auto simp: no message_opts_def)
  moreover have "output_opts F ep opts c = Inr c" for c
    unfolding output_opts_def by (auto intro!: set_opts_absent simp: no message_opts_def)
  moreover have "local_opts F opts c = Inr c" for c
    unfolding local_opts_def by (rule set_opts_absent) (auto simp: no message_opts_def)
  ultimately show ?thesis
    by (simp add: serial_options_def no message_opts_def parity_opt_def raw_opt_def
        timeout_opt_def vmin_opt_def Let_def)
qed

theorem serial_options_untouched_witness:
  "\<exists>F I. serial_options (I :: unit serial_os) (F :: nat conv) ''p'' [(''dev'', ''/dev/x'')]
     \<lparr>c_iflag = 0, c_oflag = 1, c_cflag = PARENB, c_lflag = 2, c_cc = []\<rparr> =
   Inr \<lparr>c_iflag = 0x30, c_oflag = 1, c_cflag = PARENB, c_lflag = 2, c_cc = []\<rparr>"
proof -
  have e: "opt_exists [(''dev'', ''/dev/x'')] k \<Longrightarrow> k \<in> message_opts" for k
    by (simp add: opt_exists_def sm_has_def message_opts_def)
  show ?thesis
    by (subst serial_options_untouched [OF e]) (simp_all add: termios_bits)
qed

text \<open>The masks of the control word as sets of bits.\<close>

lemma cflag_bits:
  "bit PARENB n \<longleftrightarrow> n = 8" "bit PARODD n \<longleftrightarrow> n = 9" "bit CSTOPB n \<longleftrightarrow> n = 6"
  "bit CSIZE n \<longleftrightarrow> n = 4 \<or> n = 5" "bit CS7 n \<longleftrightarrow> n = 5" "bit CS8 n \<longleftrightarrow> n = 4 \<or> n = 5"
proof -
  have p: "PARENB = 2 ^ 8" "PARODD = 2 ^ 9" "CSTOPB = 2 ^ 6" "CSIZE = 2 ^ 4 OR 2 ^ 5" "CS7 = 2 ^ 5"
    "CS8 = 2 ^ 4 OR 2 ^ 5"
    by (simp_all add: termios_bits)
  show "bit PARENB n \<longleftrightarrow> n = 8" "bit PARODD n \<longleftrightarrow> n = 9" "bit CSTOPB n \<longleftrightarrow> n = 6"
    "bit CSIZE n \<longleftrightarrow> n = 4 \<or> n = 5" "bit CS7 n \<longleftrightarrow> n = 5" "bit CS8 n \<longleftrightarrow> n = 4 \<or> n = 5"
    unfolding p bit_or_iff bit_exp_iff by auto
qed

lemma parity_words:
  fixes c :: "32 word"
  shows "(c AND NOT PARENB AND NOT CSTOPB AND NOT CSIZE OR CS8) AND PARENB = 0"
    "(c AND NOT PARENB AND NOT CSTOPB AND NOT CSIZE OR CS8) AND CSIZE = CS8"
    "(c AND NOT PARENB AND NOT CSTOPB AND NOT CSIZE OR CS8) AND CSTOPB = 0"
    "(((c OR PARENB) AND NOT PARODD) AND NOT CSTOPB AND NOT CSIZE OR CS7) AND PARENB = PARENB"
    "(((c OR PARENB) AND NOT PARODD) AND NOT CSTOPB AND NOT CSIZE OR CS7) AND PARODD = 0"
    "(((c OR PARENB) AND NOT PARODD) AND NOT CSTOPB AND NOT CSIZE OR CS7) AND CSIZE = CS7"
    "(((c OR PARENB) AND NOT PARODD) AND NOT CSTOPB AND NOT CSIZE OR CS7) AND CSTOPB = 0"
    "((c OR PARENB OR PARODD) AND NOT CSTOPB AND NOT CSIZE OR CS7) AND PARENB = PARENB"
    "((c OR PARENB OR PARODD) AND NOT CSTOPB AND NOT CSIZE OR CS7) AND PARODD = PARODD"
    "((c OR PARENB OR PARODD) AND NOT CSTOPB AND NOT CSIZE OR CS7) AND CSIZE = CS7"
    "((c OR PARENB OR PARODD) AND NOT CSTOPB AND NOT CSIZE OR CS7) AND CSTOPB = 0"
  by (rule bit_word_eqI; auto simp: bit_and_iff bit_or_iff bit_not_iff cflag_bits)+

definition parity_mask :: "32 word" where
  "parity_mask = PARENB OR PARODD OR CSTOPB OR CSIZE"

lemma parity_rest:
  fixes c :: "32 word"
  shows "(c AND NOT PARENB AND NOT CSTOPB AND NOT CSIZE OR CS8) AND NOT parity_mask = c AND NOT parity_mask"
    "(((c OR PARENB) AND NOT PARODD) AND NOT CSTOPB AND NOT CSIZE OR CS7) AND NOT parity_mask = c AND NOT parity_mask"
    "((c OR PARENB OR PARODD) AND NOT CSTOPB AND NOT CSIZE OR CS7) AND NOT parity_mask = c AND NOT parity_mask"
  unfolding parity_mask_def
  by (rule bit_word_eqI; auto simp: bit_and_iff bit_or_iff bit_not_iff cflag_bits)+

text \<open>
  The parity option: \<^verbatim>\<open>8N1\<close> and \<^verbatim>\<open>7S1\<close> select eight bits without parity, \<^verbatim>\<open>7E1\<close> and
  \<^verbatim>\<open>7O1\<close> seven bits with even and odd parity, always one stop bit, and no other bit of the
  control word changes; the empty text changes nothing and any other text is an error.
\<close>

theorem parity_opt_correct:
  assumes "smap_ok opts" and "sm_find opts ''parity'' = Some par"
  shows "case parity_opt ep opts c of
     Inl e \<Rightarrow> par \<notin> {''8N1'', ''7S1'', ''7E1'', ''7O1'', []}
   | Inr c' \<Rightarrow> par \<in> {''8N1'', ''7S1'', ''7E1'', ''7O1'', []} \<and>
       (par = [] \<longrightarrow> c' = c) \<and>
       (par \<in> {''8N1'', ''7S1''} \<longrightarrow> c' AND PARENB = 0 \<and> c' AND CSIZE = CS8) \<and>
       (par = ''7E1'' \<longrightarrow> c' AND PARENB = PARENB \<and> c' AND PARODD = 0 \<and> c' AND CSIZE = CS7) \<and>
       (par = ''7O1'' \<longrightarrow> c' AND PARENB = PARENB \<and> c' AND PARODD = PARODD \<and> c' AND CSIZE = CS7) \<and>
       (par \<noteq> [] \<longrightarrow> c' AND CSTOPB = 0) \<and>
       c' AND NOT parity_mask = c AND NOT parity_mask"
proof -
  have opt: "parity_opt ep opts c = (if par = ''8N1'' \<or> par = ''7S1''
      then Inr (c AND NOT PARENB AND NOT CSTOPB AND NOT CSIZE OR CS8)
      else if par = ''7E1''
      then Inr (((c OR PARENB) AND NOT PARODD) AND NOT CSTOPB AND NOT CSIZE OR CS7)
      else if par = ''7O1''
      then Inr ((c OR PARENB OR PARODD) AND NOT CSTOPB AND NOT CSIZE OR CS7)
      else if par \<noteq> []
      then Inl (Err (ep @ ''unknown parity setting (expected 8N1, 7E1, 7O1, or 7S1): '' @ par))
      else Inr c)"
    using assms by (simp add: parity_opt_def opt_exists_find opt_get_def)
  consider "par = ''8N1''" | "par = ''7S1''" | "par = ''7E1''" | "par = ''7O1''" | "par = []"
    | "par \<notin> {''8N1'', ''7S1'', ''7E1'', ''7O1'', []}" by blast
  then show ?thesis
    unfolding opt by cases (simp_all add: parity_words parity_rest)
qed

theorem parity_opt_correct_witness:
  "\<exists>c'. parity_opt ''p'' [(''parity'', ''7E1'')] 0x2FF = Inr c' \<and> c' AND PARENB = PARENB \<and>
     c' AND PARODD = 0 \<and> c' AND CSIZE = CS7 \<and> c' AND CSTOPB = 0"
proof -
  have "smap_ok [(''parity'', ''7E1'')]" "sm_find [(''parity'', ''7E1'')] ''parity'' = Some ''7E1''"
    by (simp_all add: smap_ok_def sm_find_def)
  from parity_opt_correct [OF this, where ep = "''p''" and c = "0x2FF"] show ?thesis
    by (cases "parity_opt ''p'' [(''parity'', ''7E1'')] 0x2FF") simp_all
qed

definition documented_rates :: "int set" where
  "documented_rates = {0, 50, 75, 110, 134, 150, 200, 300, 600, 1200, 1800, 2400, 4800,
      9600, 19200, 38400, 57600, 115200, 230400, 460800, 500000, 576000, 921600, 1000000, 1152000,
      1500000, 2000000, 2500000, 3000000, 3500000, 4000000}"

text \<open>
  The conversion of baud rates knows exactly the 31 rates of the documentation, never
  gives two of them the same mask, and answers -1 for any other number.
\<close>

theorem baud_to_mask_correct:
  "(\<forall>b. (baud_to_mask b = -1) = (b \<notin> documented_rates)) \<and> inj_on baud_to_mask documented_rates"
proof -
  have keys: "fst ` set baud_table = documented_rates"
    by (simp add: baud_table_def documented_rates_def)
  have vals: "\<forall>m \<in> snd ` set baud_table. m \<noteq> -1" by (simp add: baud_table_def)
  have dist: "distinct (map snd baud_table)" by (simp add: baud_table_def)
  have *: "baud_to_mask b = -1 \<longleftrightarrow> b \<notin> fst ` set baud_table" for b
  proof (cases "map_of baud_table b")
    case None
    then have "baud_to_mask b = -1" by (simp add: baud_to_mask_def)
    with None show ?thesis by (simp add: map_of_eq_None_iff)
  next
    case (Some m)
    then have "(b, m) \<in> set baud_table" by (rule map_of_SomeD)
    with Some vals show ?thesis by (force simp: baud_to_mask_def)
  qed
  have "b = b'" if "baud_to_mask b = baud_to_mask b'" "baud_to_mask b \<noteq> -1" for b b'
  proof -
    from that obtain m where "map_of baud_table b = Some m" "map_of baud_table b' = Some m"
      by (auto simp: baud_to_mask_def split: option.splits)
    then have "(b, m) \<in> set baud_table" "(b', m) \<in> set baud_table" by (auto dest: map_of_SomeD)
    with dist show ?thesis by (metis distinct_map inj_on_eq_iff prod.inject snd_conv)
  qed
  with * keys show ?thesis unfolding inj_on_def by blast
qed

section \<open>Messages\<close>

text \<open>The successive pieces of the answer the system calls deliver, none of them empty.\<close>

fun arrives :: "('w, 'a) serial_os_scheme \<Rightarrow> nat \<Rightarrow> string list \<Rightarrow> 'w \<Rightarrow> 'w \<Rightarrow> bool" where
  "arrives I fd [] w w' = (w' = w)"
| "arrives I fd (c # cs) w w' =
     (c \<noteq> [] \<and> (\<exists>w1. os_read I fd 4096 w = (Inr c, w1) \<and> arrives I fd cs w1 w'))"

text \<open>No end of a message before the end of the text.\<close>

definition no_end :: "'f serial_drv \<Rightarrow> string \<Rightarrow> bool" where
  "no_end d s \<longleftrightarrow> \<not> fst (trim_str s (s_ack d)) \<and> \<not> fst (trim_str s (s_nack d))"

definition first_end :: "'f serial_drv \<Rightarrow> string \<Rightarrow> bool" where
  "first_end d s \<longleftrightarrow> (\<forall>p q. s = p @ q \<longrightarrow> q \<noteq> [] \<longrightarrow> no_end d p)"

lemma serial_loop_step:
  assumes "s_ack d \<noteq> []" and "os_read I (s_fd d) 4096 w = (Inr c, w1)" and "c \<noteq> []"
    and "no_end d (ret @ c)"
  shows "serial_loop I d ret w = serial_loop I d (ret @ c) w1"
  using assms trim_str_False [of "ret @ c" "s_ack d"] trim_str_False [of "ret @ c" "s_nack d"]
  by (simp add: serial_loop.simps [of I d ret w] no_end_def)

lemma serial_loop_end:
  assumes "s_ack d \<noteq> []" and "os_read I (s_fd d) 4096 w = (Inr c, w1)" and "c \<noteq> []"
    and "trim_str (ret @ c) (s_ack d) = (True, r) \<and> \<not> fail \<or>
      \<not> fst (trim_str (ret @ c) (s_ack d)) \<and> trim_str (ret @ c) (s_nack d) = (True, r) \<and> fail"
  shows "serial_loop I d ret w = Some (Inr (fail, r), w1)"
  using assms trim_str_False [of "ret @ c" "s_ack d"]
  by (auto simp: serial_loop.simps [of I d ret w])

lemma serial_loop_arrives:
  assumes "arrives I (s_fd d) cs w w'" and "cs \<noteq> []" and "s_ack d \<noteq> []"
    and "first_end d s" and "ret @ concat cs = s"
    and "trim_str s (s_ack d) = (True, r) \<and> \<not> fail \<or>
      \<not> fst (trim_str s (s_ack d)) \<and> trim_str s (s_nack d) = (True, r) \<and> fail"
  shows "serial_loop I d ret w = Some (Inr (fail, r), w')"
  using assms(1,2,5)
proof (induction cs arbitrary: ret w)
  case (Cons c cs)
  then obtain w1 where rd: "os_read I (s_fd d) 4096 w = (Inr c, w1)" "c \<noteq> []"
    and rest: "arrives I (s_fd d) cs w1 w'" by auto
  show ?case
  proof (cases "cs = []")
    case True
    with Cons.prems(3) rest have "ret @ c = s" "w1 = w'" by simp_all
    with serial_loop_end [OF assms(3) rd, of ret r fail] assms(6) show ?thesis by simp
  next
    case False
    with rest have "concat cs \<noteq> []" by (cases cs) auto
    moreover have "s = (ret @ c) @ concat cs" using Cons.prems(3) by simp
    ultimately have "no_end d (ret @ c)" using assms(4) unfolding first_end_def by blast
    from serial_loop_step [OF assms(3) rd this] Cons.IH [OF rest False, of "ret @ c"] Cons.prems(3)
    show ?thesis by simp
  qed
qed simp


text \<open>
  In the same way, an answer that ends in the negative sequence is thrown as an error
  with its text, however it is cut into pieces.
\<close>

theorem serial_read_nack:
  assumes "arrives I (s_fd d) cs w w'" and "concat cs = body @ s_nack d"
    and "s_ack d \<noteq> []" and "s_nack d \<noteq> []"
    and "first_end d (body @ s_nack d)" and "\<not> fst (trim_str (body @ s_nack d) (s_ack d))"
  shows "serial_read I d w =
    (Inl (Err (''nack from the device: '' @ snd (trim_str body (s_trim d)))), w')"
proof -
  have "cs \<noteq> []" using assms(2,4) by auto
  from serial_loop_arrives [OF assms(1) this assms(3,5), of "[]" body True] assms(2,4,6)
  show ?thesis by (simp add: serial_read_def)
qed

text \<open>
  C34. \<^verbatim>\<open>read\<close> returns as soon as the port has nothing more to say, in an error of the system
  call, at the end of the file or for lack of data, after any number of pieces.
\<close>

theorem serial_read_returns:
  assumes "arrives I (s_fd d) cs w w1" and "fst (os_read I (s_fd d) 4096 w1) \<in> range Inl \<union> {Inr []}"
  shows "fst (serial_read I d w) \<noteq> Inl Hang"
proof -
  have stop: "\<exists>r s. serial_loop I d ret w1 = Some (r, s) \<and> r \<noteq> Inl Hang" for ret
    using assms(2) by (cases "os_read I (s_fd d) 4096 w1") (auto simp: serial_loop.simps [of I d ret w1])
  have "\<exists>r s. serial_loop I d ret w = Some (r, s) \<and> r \<noteq> Inl Hang" for ret
    using assms(1)
  proof (induction cs arbitrary: ret w)
    case Nil
    with stop show ?case by simp
  next
    case (Cons c cs)
    then obtain w2 where rd: "os_read I (s_fd d) 4096 w = (Inr c, w2)" "c \<noteq> []"
      and rest: "arrives I (s_fd d) cs w2 w1" by auto
    show ?case
    proof (cases "s_ack d \<noteq> [] \<and> no_end d (ret @ c)")
      case True
      with serial_loop_step [OF _ rd] Cons.IH [OF rest] show ?thesis by simp
    next
      case False
      then consider "s_ack d = []" | r where "s_ack d \<noteq> []" "trim_str (ret @ c) (s_ack d) = (True, r)"
        | r where "s_ack d \<noteq> []" "\<not> fst (trim_str (ret @ c) (s_ack d))"
            "trim_str (ret @ c) (s_nack d) = (True, r)"
        unfolding no_end_def by (metis prod.collapse)
      then show ?thesis
      proof cases
        case 1
        with rd show ?thesis by (simp add: serial_loop.simps [of I d ret w])
      next
        case (2 r)
        with serial_loop_end [OF 2(1) rd, of ret r False] show ?thesis by simp
      next
        case (3 r)
        with serial_loop_end [OF 3(1) rd, of ret r True] show ?thesis by simp
      qed
    qed
  qed
  from this [of "[]"] show ?thesis
    by (auto simp: serial_read_def bind_act_def Let_def split: sum.splits if_splits)
qed

text \<open>A port that delivers a list of pieces, for the witnesses.\<close>

definition list_port :: "(string list \<times> string) serial_os" where
  "list_port = \<lparr>os_open = (\<lambda>p fl w. (Inr 3, w)), os_close = (\<lambda>fd w. w),
     os_read = (\<lambda>fd n (cs, o'). case cs of [] \<Rightarrow> (Inr [], ([], o')) | c # r \<Rightarrow> (Inr c, (r, o'))),
     os_write = (\<lambda>fd s (cs, o'). (Inr (length s), (cs, o' @ s))), os_usleep = (\<lambda>t w. w),
     strerror = dec, fcntl_setfl = (\<lambda>fd fl w. (Inr (), w)),
     tcgetattr = (\<lambda>fd w. (Inr \<lparr>c_iflag = 0, c_oflag = 0, c_cflag = 0, c_lflag = 0, c_cc = replicate 32 0\<rparr>, w)),
     tcsetattr = (\<lambda>fd t w. (Inr (), w)), tcflush = (\<lambda>fd w. w),
     cfsetspeed = (\<lambda>b t. t), cfsetispeed = (\<lambda>b t. t), cfsetospeed = (\<lambda>b t. t)\<rparr>"

definition list_serial :: "nat serial_drv" where
  "list_serial = \<lparr>s_fd = 3, s_errpref = ''serial: '', s_idn = [], s_ack = ''!'', s_nack = ''?'',
     s_add = [], s_trim = ''.'', s_cond = READCOND_ALWAYS, s_delay = 0, s_flush_on_err = False\<rparr>"

lemma first_end_check:
  "first_end d s \<longleftrightarrow> (\<forall>n \<in> set [0..<length s]. no_end d (take n s))"
proof
  assume *: "first_end d s"
  show "\<forall>n \<in> set [0..<length s]. no_end d (take n s)"
  proof
    fix n assume "n \<in> set [0..<length s]"
    then have "s = take n s @ drop n s" "drop n s \<noteq> []" by simp_all
    with * show "no_end d (take n s)" unfolding first_end_def by blast
  qed
next
  assume *: "\<forall>n \<in> set [0..<length s]. no_end d (take n s)"
  show "first_end d s"
    unfolding first_end_def
  proof (intro allI impI)
    fix p q assume "s = p @ q" "q \<noteq> []"
    then have "length p \<in> set [0..<length s]" by simp
    with * have "no_end d (take (length p) s)" by blast
    with \<open>s = p @ q\<close> show "no_end d p" by simp
  qed
qed


theorem serial_read_nack_witness:
  "serial_read list_port list_serial ([''E'', ''4?''], []) =
     (Inl (Err ''nack from the device: E4''), ([], []))"
proof -
  have "serial_read list_port list_serial ([''E'', ''4?''], []) =
      (Inl (Err (''nack from the device: '' @ snd (trim_str ''E4'' (s_trim list_serial)))), ([], []))"
    by (rule serial_read_nack [where cs = "[''E'', ''4?'']"])
      (simp_all add: list_port_def list_serial_def first_end_check upt_rec no_end_def trim_str_def)
  then show ?thesis by (simp add: list_serial_def trim_str_def)
qed

theorem serial_read_returns_witness:
  "fst (serial_read list_port list_serial ([''a'', ''b''], [])) \<noteq> Inl Hang"
  by (rule serial_read_returns [where cs = "[''a'', ''b'']" and ?w1.0 = "([], [])"])
    (simp_all add: list_port_def list_serial_def)

end
