(* ===== verification/Drv_Serial_Presets.thy ===== *)
theory Drv_Serial_Presets
  imports Serial_Props
begin

text \<open>
  The drivers derived from \<^verbatim>\<open>Driver_serial\<close> with fixed settings: \<^verbatim>\<open>server/drv_serial_asm340.h\<close>,
  \<^verbatim>\<open>_l300.h\<close>, \<^verbatim>\<open>_vs_ld.h\<close>, \<^verbatim>\<open>_tenma_ps.h\<close>, \<^verbatim>\<open>_et.h\<close>, \<^verbatim>\<open>_simple.h\<close>, \<^verbatim>\<open>_hm310t.h\<close> and
  \<^verbatim>\<open>_jds6600.h\<close>. Each is an \<^verbatim>\<open>add_opts\<close> in front of the constructor of \<^verbatim>\<open>Driver_serial\<close>: check
  the names of the options, force some settings, give defaults to others.
\<close>

section \<open>The option sets\<close>

definition put_all :: "(string \<times> string) list \<Rightarrow> opt \<Rightarrow> opt" where
  "put_all kvs o' = fold (\<lambda>(k, v). opt_put k v) kvs o'"

definition put_all_missing :: "(string \<times> string) list \<Rightarrow> opt \<Rightarrow> opt" where
  "put_all_missing kvs o' = fold (\<lambda>(k, v). opt_put_missing k v) kvs o'"

definition add_opts :: "string list \<Rightarrow> (string \<times> string) list \<Rightarrow> (string \<times> string) list \<Rightarrow>
    opt \<Rightarrow> opt result" where
  "add_opts known forced missing opts =
     bind_res (opt_check_unknown known opts) (\<lambda>_. Inr (put_all_missing missing (put_all forced opts)))"

definition asm340_opts :: "opt \<Rightarrow> opt result" where
  "asm340_opts = add_opts [''dev'', ''timeout'', ''sfc'', ''errpref'', ''idn'']
     [(''speed'', ''9600''), (''parity'', ''8N1''), (''cread'', ''1''), (''clocal'', ''1''), (''vmin'', ''0''),
      (''ndelay'', ''0''), (''icrnl'', ''0''), (''raw'', ''1''), (''delay'', ''0''), (''opost'', ''1''),
      (''lcase'', ''1''), (''ack_str'', [CHR 0x06]), (''nack_str'', [CHR 0x15]),
      (''add_str'', [CHR 0x0D]), (''trim_str'', [CHR 0x0D]), (''read_cond'', ''always'')]
     [(''timeout'', ''5''), (''sfc'', ''1''), (''errpref'', ''ASM340: ''),
      (''idn'', ''Adixen ASM340 leak detector'')]"

definition l300_opts :: "opt \<Rightarrow> opt result" where
  "l300_opts = add_opts [''dev'', ''timeout'', ''sfc'', ''errpref'', ''idn'']
     [(''speed'', ''19200''), (''parity'', ''8N1''), (''cread'', ''1''), (''clocal'', ''1''),
      (''icrnl'', ''0''), (''raw'', ''1''), (''sfc'', ''1''), (''crtscts'', ''0''),
      (''add_str'', [CHR 0x0D]), (''trim_str'', [CHR 0x0D]), (''read_cond'', ''always'')]
     [(''timeout'', ''5''), (''errpref'', ''L300: ''), (''idn'', ''PhoeniXL300'')]"

definition vs_ld_opts :: "opt \<Rightarrow> opt result" where
  "vs_ld_opts = add_opts [''dev'', ''timeout'', ''sfc'', ''errpref'', ''idn'']
     [(''speed'', ''9600''), (''parity'', ''8N1''), (''cread'', ''1''), (''clocal'', ''1''), (''vmin'', ''0''),
      (''ndelay'', ''0''), (''sfc'', ''0''), (''raw'', ''1''), (''crtscts'', ''0''), (''delay'', ''0.1''),
      (''igncr'', ''1''), (''opost'', ''0''), (''add_str'', [CHR 0x0D]), (''trim_str'', nl),
      (''ack_str'', ''ok'' @ nl), (''nack_str'', ''#?'' @ nl), (''read_cond'', ''always'')]
     [(''timeout'', ''5''), (''errpref'', ''Agilent VS: ''), (''idn'', ''Agilent VS leak detector'')]"

definition tenma_ps_opts :: "opt \<Rightarrow> opt result" where
  "tenma_ps_opts = add_opts [''dev'', ''timeout'', ''errpref'', ''idn'']
     [(''speed'', ''9600''), (''parity'', ''8N1''), (''cread'', ''1''), (''clocal'', ''1''), (''vmin'', ''0''),
      (''ndelay'', ''0''), (''sfc'', ''0''), (''raw'', ''1''), (''delay'', ''0.1''), (''opost'', ''1''),
      (''olcuc'', ''1''), (''read_cond'', ''qmark'')]
     [(''timeout'', ''5''), (''errpref'', ''TenmaPS: '')]"

definition et_opts :: "opt \<Rightarrow> opt result" where
  "et_opts = add_opts [''dev'', ''timeout'', ''errpref'', ''idn'']
     [(''speed'', ''9600''), (''parity'', ''8N1''), (''cread'', ''1''), (''clocal'', ''1''),
      (''ndelay'', ''1''), (''sfc'', ''1''), (''raw'', ''1''), (''delay'', ''0.1''), (''add_str'', nl),
      (''trim_str'', nl @ nl), (''read_cond'', ''always'')]
     [(''timeout'', ''2''), (''errpref'', ''EastTester: '')]"

definition simple_opts :: "opt \<Rightarrow> opt result" where
  "simple_opts = add_opts [''dev'', ''timeout'', ''sfc'', ''errpref'', ''read_cond'']
     [(''speed'', ''9600''), (''parity'', ''8N1''), (''cread'', ''1''), (''clocal'', ''1''), (''vmin'', ''0''),
      (''ndelay'', ''0''), (''icrnl'', ''1''), (''raw'', ''1''), (''delay'', ''0.1''), (''opost'', ''0''),
      (''add_str'', nl), (''trim_str'', nl)]
     [(''timeout'', ''5''), (''sfc'', ''1''), (''read_cond'', ''qmark1w'')]"

definition hm310t_opts :: "opt \<Rightarrow> opt result" where
  "hm310t_opts = add_opts [''dev'', ''timeout'', ''errpref'', ''idn'']
     [(''speed'', ''9600''), (''parity'', ''8N1''), (''cread'', ''1''), (''clocal'', ''1''), (''vmin'', ''0''),
      (''ndelay'', ''0''), (''sfc'', ''0''), (''raw'', ''1''), (''delay'', ''0.01''), (''opost'', ''0''),
      (''read_cond'', ''always'')]
     [(''timeout'', ''5''), (''errpref'', ''HM310T: ''), (''idn'', ''HM310T'')]"

definition jds6600_opts :: "opt \<Rightarrow> opt result" where
  "jds6600_opts = add_opts [''dev'', ''timeout'', ''errpref'', ''idn'']
     [(''speed'', ''115200''), (''parity'', ''8N1''), (''cread'', ''1''), (''clocal'', ''1''),
      (''sfc'', ''0''), (''raw'', ''1''), (''delay'', ''0.1''), (''onlcr'', ''1''), (''igncr'', ''1''),
      (''add_str'', nl), (''trim_str'', nl), (''read_cond'', ''always'')]
     [(''timeout'', ''5''), (''errpref'', ''JDS6600: ''), (''idn'', ''JDS6600'')]"

definition preset_create :: "(opt \<Rightarrow> opt result) \<Rightarrow> ('w, 'a) serial_os_scheme \<Rightarrow> 'f conv \<Rightarrow> opt \<Rightarrow>
    ('w, 'f serial_drv) act" where
  "preset_create p I F opts = bind_act (lift_res (p opts)) (serial_create I F)"

definition presets :: "(opt \<Rightarrow> opt result) list" where
  "presets = [asm340_opts, l300_opts, vs_ld_opts, tenma_ps_opts, et_opts, simple_opts, hm310t_opts,
     jds6600_opts]"

lemmas preset_defs = asm340_opts_def l300_opts_def vs_ld_opts_def tenma_ps_opts_def et_opts_def
  simple_opts_def hm310t_opts_def jds6600_opts_def

section \<open>What a preset does to the options\<close>

lemma put_all_ok: "smap_ok m \<Longrightarrow> smap_ok (put_all kvs m)"
  by (induction kvs arbitrary: m) (auto simp: put_all_def)

lemma put_all_find:
  "smap_ok m \<Longrightarrow> sm_find (put_all kvs m) k =
     (case map_of (rev kvs) k of Some v \<Rightarrow> Some v | None \<Rightarrow> sm_find m k)"
proof (induction kvs arbitrary: m)
  case (Cons e kvs)
  obtain a b where e: "e = (a, b)" by fastforce
  with Cons.IH [of "opt_put a b m"] Cons.prems show ?case
    by (auto simp: put_all_def map_add_def split: option.splits)
qed (simp add: put_all_def)

lemma put_all_missing_ok: "smap_ok m \<Longrightarrow> smap_ok (put_all_missing kvs m)"
  by (induction kvs arbitrary: m) (auto simp: put_all_missing_def)

lemma put_all_missing_find:
  "smap_ok m \<Longrightarrow> sm_find (put_all_missing kvs m) k =
     (case sm_find m k of Some v \<Rightarrow> Some v | None \<Rightarrow> map_of kvs k)"
proof (induction kvs arbitrary: m)
  case (Cons e kvs)
  obtain a b where e: "e = (a, b)" by fastforce
  with Cons.IH [of "opt_put_missing a b m"] Cons.prems show ?case
    by (auto simp: put_all_missing_def split: option.splits)
qed (simp add: put_all_missing_def split: option.splits)

text \<open>A forced setting wins over the user, the user over a default.\<close>

lemma add_opts_find:
  assumes "add_opts known forced missing opts = Inr o'" and "smap_ok opts"
  shows "smap_ok o'" and "sm_find o' k = (case map_of (rev forced) k of Some v \<Rightarrow> Some v
     | None \<Rightarrow> (case sm_find opts k of Some v \<Rightarrow> Some v | None \<Rightarrow> map_of missing k))"
proof -
  have o': "o' = put_all_missing missing (put_all forced opts)"
    using assms(1) by (auto simp: add_opts_def bind_res_Inr_iff)
  show "smap_ok o'" using assms(2) by (simp add: o' put_all_ok put_all_missing_ok)
  show "sm_find o' k = (case map_of (rev forced) k of Some v \<Rightarrow> Some v
     | None \<Rightarrow> (case sm_find opts k of Some v \<Rightarrow> Some v | None \<Rightarrow> map_of missing k))"
    using assms(2) by (simp add: o' put_all_missing_find put_all_find put_all_ok split: option.splits)
qed

lemma add_opts_known:
  assumes "add_opts known forced missing opts = Inr o'" and "smap_ok opts"
    and "set known \<union> fst ` set forced \<union> fst ` set missing \<subseteq> set serial_known"
  shows "opt_check_unknown serial_known o' = Inr ()"
  unfolding opt_check_unknown_find
proof (intro allI impI)
  fix k assume "sm_find o' k \<noteq> None"
  moreover have "k \<in> set known" if "sm_find opts k \<noteq> None"
    using assms(1) that by (auto simp: add_opts_def bind_res_Inr_iff opt_check_unknown_find)
  moreover have "k \<in> fst ` set forced" if "map_of (rev forced) k \<noteq> None"
    using that by (metis map_of_eq_None_iff set_rev)
  moreover have "k \<in> fst ` set missing" if "map_of missing k \<noteq> None"
    using that by (metis map_of_eq_None_iff)
  ultimately show "k \<in> set serial_known"
    using assms(3) add_opts_find(2) [OF assms(1,2), of k] by (auto split: option.splits)
qed

definition port_ok :: "opt \<Rightarrow> opt \<Rightarrow> bool" where
  "port_ok opts o' \<longleftrightarrow> opt_check_unknown serial_known o' = Inr () \<and>
    sm_find o' ''parity'' = Some ''8N1'' \<and> sm_find o' ''raw'' = Some ''1'' \<and>
    sm_find o' ''cread'' = Some ''1'' \<and> sm_find o' ''clocal'' = Some ''1'' \<and>
    sm_find o' ''dev'' = sm_find opts ''dev'' \<and>
    (sm_find opts ''errpref'' \<noteq> None \<longrightarrow> sm_find o' ''errpref'' = sm_find opts ''errpref'')"

lemma add_opts_port:
  assumes "smap_ok opts" and "add_opts known forced missing opts = Inr o'"
    and "set known \<union> fst ` set forced \<union> fst ` set missing \<subseteq> set serial_known"
    and "map_of (rev forced) ''parity'' = Some ''8N1''" and "map_of (rev forced) ''raw'' = Some ''1''"
    and "map_of (rev forced) ''cread'' = Some ''1''" and "map_of (rev forced) ''clocal'' = Some ''1''"
    and "map_of (rev forced) ''dev'' = None" and "map_of missing ''dev'' = None"
    and "map_of (rev forced) ''errpref'' = None"
  shows "port_ok opts o'"
  using add_opts_known [OF assms(2,1,3)] add_opts_find(2) [OF assms(2,1)] assms(4-)
  by (auto simp: port_ok_def split: option.splits)

lemma presets_port:
  assumes "p \<in> set presets" and "p opts = Inr o'" and "smap_ok opts"
  shows "port_ok opts o'"
proof -
  note port = add_opts_port [OF assms(3)]
  consider "asm340_opts opts = Inr o'" | "l300_opts opts = Inr o'" | "vs_ld_opts opts = Inr o'"
    | "tenma_ps_opts opts = Inr o'" | "et_opts opts = Inr o'" | "simple_opts opts = Inr o'"
    | "hm310t_opts opts = Inr o'" | "jds6600_opts opts = Inr o'"
    using assms(1,2) by (auto simp: presets_def)
  then show ?thesis
    by cases (unfold preset_defs, erule port; simp add: serial_known_def)+
qed

text \<open>
  Every derived driver hands \<^verbatim>\<open>Driver_serial\<close> only options it knows, asks for eight bits
  without parity in raw mode with the receiver on and the modem lines ignored, and takes the
  device name and the prefix of error messages from the user.
\<close>

theorem presets_accepted:
  assumes "p \<in> set presets" and "p opts = Inr o'" and "smap_ok opts"
  shows "opt_check_unknown serial_known o' = Inr () \<and>
    sm_find o' ''parity'' = Some ''8N1'' \<and> sm_find o' ''raw'' = Some ''1'' \<and>
    sm_find o' ''cread'' = Some ''1'' \<and> sm_find o' ''clocal'' = Some ''1'' \<and>
    sm_find o' ''dev'' = sm_find opts ''dev'' \<and>
    (sm_find opts ''errpref'' \<noteq> None \<longrightarrow> sm_find o' ''errpref'' = sm_find opts ''errpref'')"
  using presets_port [OF assms] by (simp add: port_ok_def)

theorem presets_accepted_witness:
  "\<exists>o'. asm340_opts [(''dev'', ''/dev/x''), (''errpref'', ''e'')] = Inr o' \<and>
     opt_check_unknown serial_known o' = Inr () \<and> sm_find o' ''errpref'' = Some ''e''"
proof -
  let ?opts = "[(''dev'', ''/dev/x''), (''errpref'', ''e'')]"
  obtain o' where o': "asm340_opts ?opts = Inr o'"
    by (simp add: asm340_opts_def add_opts_def opt_check_unknown_def)
  have "smap_ok ?opts" by code_simp
  from presets_accepted [where p = asm340_opts, OF _ o' this] o' show ?thesis
    by (simp add: presets_def) (simp add: sm_find_def)
qed

section \<open>The port a preset opens\<close>

lemma serial_options_flags:
  assumes "serial_options I F ep opts t = Inr t'"
  obtains c0 l0 where "parity_opt ep opts c0 = Inr (c_cflag t')" "raw_opt F opts l0 = Inr (c_lflag t')"
  using assms by (auto simp: serial_options_def bind_res_Inr_iff Let_def)

lemma flag_words:
  fixes c :: "32 word"
  shows "(c AND NOT (ICANON OR ECHO OR ECHOE OR ISIG)) AND (ICANON OR ECHO OR ECHOE OR ISIG) = 0"
  by (rule bit_word_eqI) (auto simp: bit_and_iff bit_or_iff bit_not_iff)

text \<open>
  When a derived driver opens its port, whatever the state of the port before, it ends up with
  eight bits, no parity, one stop bit and without line editing, echo or signal characters,
  provided a Boolean option \<^verbatim>\<open>1\<close> reads as true. Flags a preset does not name stay as they were.
\<close>

theorem presets_open_raw_port:
  assumes "p \<in> set presets" and "p opts = Inr o'" and "smap_ok opts" and "p_bool F ''1'' = Inr True"
    and "serial_options I F ep o' t = Inr t'"
  shows "c_cflag t' AND PARENB = 0 \<and> c_cflag t' AND CSIZE = CS8 \<and> c_cflag t' AND CSTOPB = 0 \<and>
    c_lflag t' AND (ICANON OR ECHO OR ECHOE OR ISIG) = 0"
proof -
  from presets_port [OF assms(1-3)] have o': "sm_find o' ''parity'' = Some ''8N1''"
    "sm_find o' ''raw'' = Some ''1''" by (simp_all add: port_ok_def)
  obtain c0 l0 where c: "parity_opt ep o' c0 = Inr (c_cflag t')" and l: "raw_opt F o' l0 = Inr (c_lflag t')"
    using assms(5) by (rule serial_options_flags)
  from c o' have "c_cflag t' = c0 AND NOT PARENB AND NOT CSTOPB AND NOT CSIZE OR CS8"
    by (simp add: parity_opt_def opt_exists_find opt_get_def)
  moreover from l o' assms(4) have "c_lflag t' = l0 AND NOT (ICANON OR ECHO OR ECHOE OR ISIG)"
    by (simp add: raw_opt_def opt_exists_find opt_get_as_def del: bit.de_Morgan_disj)
  ultimately show ?thesis by (simp only: parity_words flag_words simp_thms)
qed

definition bool_conv :: "nat conv" where
  "bool_conv = \<lparr>p_bool = (\<lambda>s. Inr (s = ''1'')),
     p_int = (\<lambda>s. if s = ''9600'' then Inr 9600 else Inr 0), p_uint = (\<lambda>s. Inr 0),
     p_double = (\<lambda>s. Inr 5), f_lit = (\<lambda>s. if s = ''0'' then 0 else 25), f_less = (<), f_mul = (*),
     f_sub = (-),
     f_pow = (\<lambda>x y. x ^ y), f_trunc = int, f_of_int = nat, f_str = dec\<rparr>"

theorem presets_open_raw_port_witness:
  "\<exists>o' t'. tenma_ps_opts [(''dev'', ''/dev/x'')] = Inr o' \<and>
     serial_options list_port bool_conv ''e'' o'
       \<lparr>c_iflag = 0, c_oflag = 0, c_cflag = 0x140, c_lflag = 0xFF, c_cc = replicate 32 0\<rparr> = Inr t' \<and>
     c_cflag t' AND PARENB = 0 \<and> c_lflag t' AND (ICANON OR ECHO OR ECHOE OR ISIG) = 0"
proof -
  let ?t = "\<lparr>c_iflag = 0, c_oflag = 0, c_cflag = 0x140, c_lflag = 0xFF, c_cc = replicate 32 0\<rparr>"
  have m: "smap_ok [(''dev'', ''/dev/x'')]" by (simp add: smap_ok_def)
  have "case tenma_ps_opts [(''dev'', ''/dev/x'')] of Inl e \<Rightarrow> False
      | Inr o' \<Rightarrow> \<not> isl (serial_options list_port bool_conv ''e'' o' ?t)"
    by code_simp
  then obtain o' t' where o': "tenma_ps_opts [(''dev'', ''/dev/x'')] = Inr o'"
    and t': "serial_options list_port bool_conv ''e'' o' ?t = Inr t'"
    by (auto simp: isl_def split: sum.splits) (metis isl_def sum.exhaust)
  from presets_open_raw_port [where p = tenma_ps_opts, OF _ o' m _ t'] o' t' show ?thesis
    by (auto simp: presets_def bool_conv_def)
qed

end
