(* ===== verification/Drv_Hm310t.thy ===== *)
theory Drv_Hm310t
  imports Drv_Serial_Presets
begin

text \<open>
  \<^verbatim>\<open>server/drv_serial_hm310t.h\<close> and \<^verbatim>\<open>server/drv_serial_hm310t.cpp\<close>: the Modbus driver for the
  HM310T power supply. Its object is a serial driver with the decimal point positions read
  from the device, which some requests update; so its operations act on the object and the
  outside world. Splitting a command into words (\<^verbatim>\<open>unquote_words\<close>, \<^verbatim>\<open>read_words\<close>) belongs to
  the \<^verbatim>\<open>mapsoft2-libs\<close> submodule and is the parameter \<open>W\<close>.
\<close>

unbundle bit_operations_syntax

section \<open>The checksum\<close>

definition byte :: "char \<Rightarrow> 16 word" where
  "byte c = word_of_nat (of_char c)"

definition crc_table :: "16 word list" where
  "crc_table = [0x0000, 0xA001]"

text \<open>One pass of the inner loop, the inner loop, and the function.\<close>

definition crc_bit :: "16 word \<Rightarrow> 16 word" where
  "crc_bit crc = drop_bit 1 crc XOR crc_table ! unat (crc AND 0x01)"

definition crc_byte :: "16 word \<Rightarrow> char \<Rightarrow> 16 word" where
  "crc_byte crc b = (crc_bit ^^ 8) (crc XOR byte b)"

definition modbus_crc :: "string \<Rightarrow> 16 word" where
  "modbus_crc buf = foldl crc_byte 0xFFFF buf"

text \<open>The low and the high byte of a word, as they are stored in a message.\<close>

definition lo_byte :: "16 word \<Rightarrow> char" where
  "lo_byte x = char_of (unat (x AND 0xFF))"

definition hi_byte :: "16 word \<Rightarrow> char" where
  "hi_byte x = char_of (unat (drop_bit 8 x))"

definition with_crc :: "string \<Rightarrow> string" where
  "with_crc m = m @ [lo_byte (modbus_crc m), hi_byte (modbus_crc m)]"

section \<open>Modbus functions\<close>

record 'f hm310t_drv =
  h_serial :: "'f serial_drv"
  h_Ve :: int
  h_Ie :: int
  h_Pe :: int
  h_dev_addr :: int

type_synonym ('f, 'w) hst = "'f hm310t_drv \<times> 'w"

text \<open>An operation of the serial driver underneath.\<close>

definition on_serial :: "('f serial_drv \<Rightarrow> ('w, 'r) act) \<Rightarrow> (('f, 'w) hst, 'r) act" where
  "on_serial f = (\<lambda>(d, w). case f (h_serial d) w of (r, w') \<Rightarrow> (r, (d, w')))"

definition schar :: "char \<Rightarrow> int" where
  "schar c = (let n = of_char c in if n < 128 then int n else int n - 256)"

text \<open>What both functions do with an answer that reports an exception.\<close>

definition modbus_exception :: "string \<Rightarrow> string \<Rightarrow> string \<Rightarrow> string" where
  "modbus_exception e wrong res =
     (if length res \<noteq> 5 then e @ ''can't parse error response, wrong length: '' @ dec (length res)
      else let c = schar (res ! 2); e1 = e @ ''exception code: '' @ dec_int c in
        e1 @ (if c = 1 then '' (unsupported function code)''
              else if c = 2 then wrong
              else if c = 3 then '' (wrong count)''
              else if c = 4 then '' (error during request processing)''
              else '' (unknown exception code)''))"

definition modbus_func3 :: "('w, 'a) serial_os_scheme \<Rightarrow> 'f conv \<Rightarrow> 16 word \<Rightarrow>
    (('f, 'w) hst, 16 word) act" where
  "modbus_func3 I F addr = (\<lambda>(d, w).
     let ep = s_errpref (h_serial d);
         msg = with_crc [char_of (nat (h_dev_addr d mod 256)), CHR 0x03, hi_byte addr, lo_byte addr,
                         CHR 0x00, CHR 0x01] in
     bind_act (on_serial (\<lambda>s. serial_write I F s msg)) (\<lambda>_.
     bind_act (on_serial (serial_read I)) (\<lambda>res.
       if length res < 2 then throw (ep @ ''short response'')
       else let fc = of_char (res ! 1) :: nat;
                e = ep @ ''modbus error: function code: '' @ dec fc @ '': '' in
         if fc = 0x83 then throw (modbus_exception e '' (wrong address)'' res)
         else if fc \<noteq> 3 then throw (e @ ''unknown function code'')
         else if length res \<noteq> 7 then throw (e @ ''unexpected response length'')
         else if res ! 2 \<noteq> CHR 0x02 then throw (e @ ''unexpected response count'')
         else ok (push_bit 8 (byte (res ! 3)) + byte (res ! 4)))) (d, w))"

definition modbus_func6 :: "('w, 'a) serial_os_scheme \<Rightarrow> 'f conv \<Rightarrow> 16 word \<Rightarrow> 16 word \<Rightarrow>
    (('f, 'w) hst, unit) act" where
  "modbus_func6 I F addr val = (\<lambda>(d, w).
     let ep = s_errpref (h_serial d);
         msg = with_crc [char_of (nat (h_dev_addr d mod 256)), CHR 0x06, hi_byte addr, lo_byte addr,
                         hi_byte val, lo_byte val] in
     bind_act (on_serial (\<lambda>s. serial_write I F s msg)) (\<lambda>_.
     bind_act (on_serial (serial_read I)) (\<lambda>res.
       if length res < 2 then throw (ep @ ''short response'')
       else let fc = of_char (res ! 1) :: nat;
                e = ep @ ''modbus error: function code: '' @ dec fc @ '': '' in
         if fc = 0x86 then throw (modbus_exception e '' (wrong value)'' res)
         else if fc \<noteq> 6 then throw (e @ ''unknown function code'')
         else if res \<noteq> msg then throw (e @ ''unexpected response'')
         else ok ())) (d, w))"

section \<open>Quantities\<close>

definition read_dpt :: "('w, 'a) serial_os_scheme \<Rightarrow> 'f conv \<Rightarrow> (('f, 'w) hst, unit) act" where
  "read_dpt I F = bind_act (modbus_func3 I F 0x05) (\<lambda>dpt (d, w).
     (Inr (), (d\<lparr>h_Ve := uint (drop_bit 8 dpt AND 0xF), h_Ie := uint (drop_bit 4 dpt AND 0xF),
                 h_Pe := uint (dpt AND 0xF)\<rparr>, w)))"

text \<open>\<^verbatim>\<open>type_to_str(pow(0.1,E)*n)\<close>\<close>

definition scaled :: "'f conv \<Rightarrow> int \<Rightarrow> int \<Rightarrow> string" where
  "scaled F E n = f_str F (f_mul F (f_pow F (f_lit F ''0.1'') (f_of_int F E)) (f_of_int F n))"

definition read_volt :: "('w, 'a) serial_os_scheme \<Rightarrow> 'f conv \<Rightarrow> 16 word \<Rightarrow> (('f, 'w) hst, string) act" where
  "read_volt I F addr = (\<lambda>s. bind_act (modbus_func3 I F addr)
     (\<lambda>v. ok (scaled F (h_Ve (fst s)) (uint v))) s)"

definition read_curr :: "('w, 'a) serial_os_scheme \<Rightarrow> 'f conv \<Rightarrow> 16 word \<Rightarrow> (('f, 'w) hst, string) act" where
  "read_curr I F addr = (\<lambda>s. bind_act (modbus_func3 I F addr)
     (\<lambda>v. ok (scaled F (h_Ie (fst s)) (uint v))) s)"

text \<open>
  In \<^verbatim>\<open>H<<16 + L\<close> the sum binds tighter than the shift. A shift by 32 or more has no meaning.
  The language leaves open which of the two registers is read first; the model takes \<open>H\<close>.
\<close>

definition pwr_word :: "16 word \<Rightarrow> 16 word \<Rightarrow> 32 word result" where
  "pwr_word h l = (if 16 + unat l < 32 then Inr (push_bit (16 + unat l) (ucast h)) else Inl UB)"

definition read_pwr :: "('w, 'a) serial_os_scheme \<Rightarrow> 'f conv \<Rightarrow> 16 word \<Rightarrow> 16 word \<Rightarrow>
    (('f, 'w) hst, string) act" where
  "read_pwr I F addrH addrL = (\<lambda>s.
     bind_act (modbus_func3 I F addrH) (\<lambda>h.
     bind_act (modbus_func3 I F addrL) (\<lambda>l.
     bind_act (lift_res (pwr_word h l)) (\<lambda>pwr.
       ok (scaled F (h_Pe (fst s)) (uint pwr))))) s)"

text \<open>
  \<^verbatim>\<open>pow(10,E)*str_to_type<double>(arg)\<close>, converted to an unsigned type with \<open>n\<close> bits: a number
  the type does not hold has no meaning.
\<close>

definition unscaled :: "'f conv \<Rightarrow> nat \<Rightarrow> int \<Rightarrow> string \<Rightarrow> int result" where
  "unscaled F n E arg = bind_res (p_double F arg) (\<lambda>x.
     let v = f_trunc F (f_mul F (f_pow F (f_lit F ''10'') (f_of_int F E)) x)
     in if 0 \<le> v \<and> v < 2 ^ n then Inr v else Inl UB)"

definition write_volt :: "('w, 'a) serial_os_scheme \<Rightarrow> 'f conv \<Rightarrow> 16 word \<Rightarrow> string \<Rightarrow>
    (('f, 'w) hst, unit) act" where
  "write_volt I F addr arg = (\<lambda>s. bind_act (lift_res (unscaled F 16 (h_Ve (fst s)) arg))
     (\<lambda>v. modbus_func6 I F addr (word_of_int v)) s)"

definition write_curr :: "('w, 'a) serial_os_scheme \<Rightarrow> 'f conv \<Rightarrow> 16 word \<Rightarrow> string \<Rightarrow>
    (('f, 'w) hst, unit) act" where
  "write_curr I F addr arg = (\<lambda>s. bind_act (lift_res (unscaled F 16 (h_Ie (fst s)) arg))
     (\<lambda>v. modbus_func6 I F addr (word_of_int v)) s)"

definition write_pwr :: "('w, 'a) serial_os_scheme \<Rightarrow> 'f conv \<Rightarrow> 16 word \<Rightarrow> 16 word \<Rightarrow> string \<Rightarrow>
    (('f, 'w) hst, unit) act" where
  "write_pwr I F addrH addrL arg = (\<lambda>s.
     bind_act (lift_res (unscaled F 32 (h_Pe (fst s)) arg)) (\<lambda>v.
       let pwr = word_of_int v :: 32 word in
       bind_act (modbus_func6 I F addrH (ucast (drop_bit 16 pwr)))
         (\<lambda>_. modbus_func6 I F addrL (ucast (pwr AND 0xFFFF)))) s)"

section \<open>Commands\<close>

definition hm310t_read :: "(('f, 'w) hst, string) act" where
  "hm310t_read = throw ''serial_hm310t driver: read() is not supported, use ask()''"

definition hm310t_write :: "('w, 'a) serial_os_scheme \<Rightarrow> 'f conv \<Rightarrow> (string \<Rightarrow> string list result) \<Rightarrow>
    string \<Rightarrow> (('f, 'w) hst, unit) act" where
  "hm310t_write I F W msg = bind_act (lift_res (W msg)) (\<lambda>v s.
     let ep = s_errpref (h_serial (fst s));
         one = (\<lambda>f. if length v \<noteq> 2 then throw (ep @ ''argument expected: '' @ msg) else f (v ! 1)) in
     if v = [] then (Inr (), s)
     else if v ! 0 = ''out'' then one (\<lambda>a. bind_act (lift_res (p_bool F a))
        (\<lambda>b. modbus_func6 I F 0x01 (if b then 1 else 0))) s
     else if v ! 0 = ''volt'' then one (write_volt I F 0x30) s
     else if v ! 0 = ''curr'' then one (write_curr I F 0x31) s
     else if v ! 0 = ''ovp'' then one (write_volt I F 0x20) s
     else if v ! 0 = ''ocp'' then one (write_curr I F 0x21) s
     else if v ! 0 = ''opp'' then one (write_pwr I F 0x22 0x23) s
     else (Inl (Err (ep @ ''unsupported command: '' @ msg)), s))"

text \<open>The protection status in words.\<close>

definition stat_text :: "16 word \<Rightarrow> string" where
  "stat_text v =
     (if bit v 2 then '' OVP'' else []) @ (if bit v 3 then '' OCP'' else []) @
     (if bit v 4 then '' OPP'' else []) @ (if bit v 5 then '' OTP'' else []) @
     (if bit v 6 then '' SCP'' else [])"

definition raw_reg :: "('w, 'a) serial_os_scheme \<Rightarrow> 'f conv \<Rightarrow> 16 word \<Rightarrow> (('f, 'w) hst, string) act" where
  "raw_reg I F addr = bind_act (modbus_func3 I F addr) (\<lambda>v. ok (dec (unat v)))"

definition hm310t_ask :: "('w, 'a) serial_os_scheme \<Rightarrow> 'f conv \<Rightarrow> (string \<Rightarrow> string list result) \<Rightarrow>
    string \<Rightarrow> (('f, 'w) hst, string) act" where
  "hm310t_ask I F W msg = (\<lambda>s.
     if strcaseeq msg ''*idn?'' then (Inr (s_idn (h_serial (fst s))), s)
     else if 2 < length msg \<and> msg ! 0 = CHR '':'' \<and> msg ! 1 = CHR ''r'' then
       bind_act (lift_res (p_uint F (drop 2 msg))) (\<lambda>reg. raw_reg I F (ucast reg)) s
     else if strcaseeq msg ''out?'' then raw_reg I F 0x01 s
     else if strcaseeq msg ''stat:raw?'' then raw_reg I F 0x02 s
     else if strcaseeq msg ''stat?'' then bind_act (modbus_func3 I F 0x02) (\<lambda>v. ok (stat_text v)) s
     else if strcaseeq msg ''spec:raw?'' then raw_reg I F 0x03 s
     else if strcaseeq msg ''tail:raw?'' then raw_reg I F 0x04 s
     else if strcaseeq msg ''dpt:raw?'' then raw_reg I F 0x05 s
     else if strcaseeq msg ''dpt?'' then bind_act (read_dpt I F) (\<lambda>_ (d, w).
       (Inr (dec_int (h_Ve d) @ '' '' @ dec_int (h_Ie d) @ '' '' @ dec_int (h_Pe d)), (d, w))) s
     else if strcaseeq msg ''volt:meas?'' then read_volt I F 0x10 s
     else if strcaseeq msg ''curr:meas?'' then read_curr I F 0x11 s
     else if strcaseeq msg ''pwr:meas?'' then read_pwr I F 0x12 0x13 s
     else if strcaseeq msg ''volt?'' then read_volt I F 0x30 s
     else if strcaseeq msg ''curr?'' then read_curr I F 0x31 s
     else if strcaseeq msg ''ovp?'' then read_volt I F 0x20 s
     else if strcaseeq msg ''ocp?'' then read_curr I F 0x21 s
     else if strcaseeq msg ''opp?'' then read_pwr I F 0x22 0x23 s
     else if strcaseeq msg ''addr?'' then raw_reg I F 0x9999 s
     else bind_act (hm310t_write I F W msg) (\<lambda>_. ok []) s)"

text \<open>
  The constructor: the serial port first, then the decimal point positions. If reading them
  fails, the port, already constructed, is closed.
\<close>

definition hm310t_create :: "('w, 'a) serial_os_scheme \<Rightarrow> 'f conv \<Rightarrow> opt \<Rightarrow>
    ('w, 'f hm310t_drv) act" where
  "hm310t_create I F opts = bind_act (preset_create hm310t_opts I F opts) (\<lambda>s w.
     case read_dpt I F (\<lparr>h_serial = s, h_Ve = 0, h_Ie = 0, h_Pe = 0, h_dev_addr = 1\<rparr>, w) of
       (Inr (), (d, w1)) \<Rightarrow> (Inr d, w1)
     | (Inl (Err e), (d, w1)) \<Rightarrow> (Inl (Err e), serial_destroy I s w1)
     | (Inl x, (d, w1)) \<Rightarrow> (Inl x, w1))"

section \<open>Properties of the checksum\<close>

lemma crc_bit_alt: "crc_bit c = drop_bit 1 c XOR (if bit c 0 then 0xA001 else 0)"
proof -
  have "c AND 1 = (if bit c 0 then 1 else 0)"
    by (simp add: and_one_eq odd_iff_mod_2_eq_one bit_0 flip: even_iff_mod_2_eq_zero)
  then show ?thesis by (simp add: crc_bit_def crc_table_def)
qed

lemma crc_bits_shift:
  "(\<forall>i < n. \<not> bit c i) \<Longrightarrow> (crc_bit ^^ n) c = drop_bit n c"
proof (induction n arbitrary: c)
  case (Suc n)
  then have "crc_bit c = drop_bit 1 c" by (simp add: crc_bit_alt)
  moreover have "\<forall>i < n. \<not> bit (drop_bit 1 c) i" using Suc.prems by (simp add: bit_drop_bit_eq)
  ultimately show ?case using Suc.IH [of "drop_bit 1 c"] by (simp add: funpow_swap1)
qed simp

lemma byte_lo: "byte (lo_byte x) = x AND 0xFF"
proof -
  have "x AND 0xFF = take_bit 8 x" by (simp add: take_bit_eq_mask mask_numeral)
  then have "unat (x AND 0xFF) < 256"
    using take_bit_nat_less_exp [of 8 "unat x"] by (simp add: unsigned_take_bit_eq)
  then show ?thesis by (simp add: byte_def lo_byte_def)
qed

lemma byte_hi: "byte (hi_byte x) = drop_bit 8 x"
proof -
  have "unat x < 2 ^ 16" using unsigned_less [of x] by simp
  then have "unat x div 2 ^ 8 < 256" by (simp add: less_mult_imp_div_less)
  then have "unat (drop_bit 8 x) < 256" by (metis drop_bit_eq_div unat_drop_bit_eq)
  then show ?thesis by (simp add: byte_def hi_byte_def)
qed

text \<open>
  A message followed by its checksum, low byte first, has checksum zero: the frames the
  driver sends are well formed.
\<close>

theorem crc_residue: "modbus_crc (with_crc m) = 0"
proof -
  let ?x = "modbus_crc m"
  have low: "\<forall>i < 8. \<not> bit (?x XOR (?x AND 0xFF)) i"
    and high: "drop_bit 8 (?x XOR (?x AND 0xFF)) = drop_bit 8 ?x"
  proof -
    have m: "(0xFF :: 16 word) = mask 8" by (simp add: mask_numeral)
    show "\<forall>i < 8. \<not> bit (?x XOR (?x AND 0xFF)) i"
      unfolding m by (simp add: bit_xor_iff bit_and_iff bit_mask_iff)
    show "drop_bit 8 (?x XOR (?x AND 0xFF)) = drop_bit 8 ?x"
      unfolding m by (rule bit_word_eqI) (simp add: bit_drop_bit_eq bit_xor_iff bit_and_iff bit_mask_iff)
  qed
  have "crc_byte ?x (lo_byte ?x) = drop_bit 8 ?x"
    unfolding crc_byte_def byte_lo crc_bits_shift [OF low] by (rule high)
  moreover have "crc_byte (drop_bit 8 ?x) (hi_byte ?x) = 0"
    unfolding crc_byte_def byte_hi by (simp add: crc_bits_shift)
  ultimately show ?thesis by (simp add: with_crc_def modbus_crc_def)
qed

lemma xor_cancel: "c XOR k = d XOR k \<longleftrightarrow> c = d" "k XOR c = k XOR d \<longleftrightarrow> c = d"
  for c d k :: "16 word"
  by (metis xor.assoc xor_self_eq xor.right_neutral, metis xor.assoc xor_self_eq xor.left_neutral)

lemma crc_bit_inject: "crc_bit c = crc_bit d \<longleftrightarrow> c = d"
proof
  assume eq: "crc_bit c = crc_bit d"
  have top: "bit (crc_bit x) 15 = bit x 0" for x
  proof -
    have "\<not> bit (drop_bit 1 x) 15" by (auto simp: bit_drop_bit_eq dest: bit_imp_le_length)
    moreover have "bit (0xA001 :: 16 word) 15" by simp
    ultimately show ?thesis by (simp add: crc_bit_alt bit_xor_iff)
  qed
  have b0: "bit c 0 = bit d 0" using top eq by metis
  have "drop_bit 1 c = drop_bit 1 d"
    using eq b0 unfolding crc_bit_alt by (simp only: xor_cancel)
  then have "bit c (Suc n) = bit d (Suc n)" for n
    by (metis bit_drop_bit_eq comp_apply plus_1_eq_Suc)
  with b0 show "c = d" by (intro bit_word_eqI) (metis not0_implies_Suc)
qed simp

lemma crc_bits_inject: "(crc_bit ^^ n) c = (crc_bit ^^ n) d \<longleftrightarrow> c = d"
  by (induction n) (simp_all add: crc_bit_inject)

lemma crc_fold_inject: "foldl crc_byte c m = foldl crc_byte d m \<longleftrightarrow> c = d"
  by (induction m arbitrary: c d) (auto simp: crc_byte_def crc_bits_inject xor_cancel)

lemma byte_inject: "byte x = byte y \<longleftrightarrow> x = y"
proof
  assume "byte x = byte y"
  moreover have "unat (byte z) = of_char z" for z
  proof -
    have "(of_char z :: nat) < 65536"
      by (rule less_trans [OF nat_of_char_less_256]) simp
    then show ?thesis by (simp add: byte_def unat_of_nat)
  qed
  ultimately have "(of_char x :: nat) = of_char y" by metis
  then show "x = y" by simp
qed simp

text \<open>
  C40. The checksum detects every change of a single byte, wherever it is in the message.
\<close>

theorem crc_detects_byte:
  "modbus_crc (a @ x # b) = modbus_crc (a @ y # b) \<longleftrightarrow> x = y"
  by (auto simp: modbus_crc_def crc_fold_inject crc_byte_def crc_bits_inject xor_cancel byte_inject)

section \<open>Requests and answers\<close>

text \<open>
  Reading a register: when the answer is complete in one piece, with the function code
  and the count the driver expects, the result is the register, high byte first. The address
  and the checksum of the answer may be anything: they are not looked at.
\<close>

theorem modbus_func3_value:
  assumes "os_write I (s_fd (h_serial d))
      (with_crc [char_of (nat (h_dev_addr d mod 256)), CHR 0x03, hi_byte addr, lo_byte addr,
         CHR 0x00, CHR 0x01]) w = (Inr n, w1)"
    and "os_read I (s_fd (h_serial d)) 4096 (snd (delay_after I F (s_delay (h_serial d)) w1)) =
      (Inr [a, CHR 0x03, CHR 0x02, h, l, c1, c2], w2)"
    and "s_add (h_serial d) = []" and "s_ack (h_serial d) = []" and "s_trim (h_serial d) = []"
  shows "modbus_func3 I F addr (d, w) = (Inr (256 * byte h + byte l), (d, w2))"
proof -
  have "serial_loop I (h_serial d) [] (snd (delay_after I F (s_delay (h_serial d)) w1)) =
      Some (Inr (False, [a, CHR 0x03, CHR 0x02, h, l, c1, c2]), w2)"
    using assms(2,4) by (simp add: serial_loop.simps [of I "h_serial d" "[]"])
  then have "serial_read I (h_serial d) (snd (delay_after I F (s_delay (h_serial d)) w1)) =
      (Inr [a, CHR 0x03, CHR 0x02, h, l, c1, c2], w2)"
    using assms(5) by (simp add: serial_read_def)
  moreover have "push_bit 8 (byte h) = 256 * byte h"
    by (simp add: push_bit_eq_mult mult.commute)
  ultimately show ?thesis
    using assms(1,3)
    by (simp add: modbus_func3_def on_serial_def serial_write_def delay_after_def bind_act_def Let_def)
qed

text \<open>
  The power the driver computes from its two registers is right exactly when the low
  register is zero.
\<close>

theorem pwr_word_right_iff:
  "pwr_word h l = Inr (push_bit 16 (ucast h) + ucast l) \<longleftrightarrow> l = 0"
proof
  assume eq: "pwr_word h l = Inr (push_bit 16 (ucast h) + ucast l)"
  then have *: "push_bit (16 + unat l) (ucast h) = (push_bit 16 (ucast h) + ucast l :: 32 word)"
    by (auto simp: pwr_word_def split: if_splits)
  have low: "uint (push_bit 16 c + e :: 32 word) mod 65536 = uint e mod 65536" for c e :: "32 word"
    by (simp add: push_bit_eq_mult uint_word_ariths mod_mod_cancel mod_simps)
  have "push_bit (16 + unat l) (ucast h) = (push_bit 16 (push_bit (unat l) (ucast h)) + 0 :: 32 word)"
    by simp
  with * have "uint (0 :: 32 word) mod 65536 = uint (ucast l :: 32 word) mod 65536"
    using low by metis
  moreover have "uint l < 65536" using uint_lt2p [of l] by simp
  ultimately have "uint l = uint (0 :: 16 word)" by (simp add: uint_up_ucast is_up)
  then show "l = 0" by (rule word_uint_eq_iff [THEN iffD2])
next
  assume "l = 0"
  then show "pwr_word h l = Inr (push_bit 16 (ucast h) + ucast l)" by (simp add: pwr_word_def)
qed

definition list_hm310t :: "nat hm310t_drv" where
  "list_hm310t = \<lparr>h_serial = list_serial\<lparr>s_ack := [], s_trim := []\<rparr>, h_Ve = 2, h_Ie = 3, h_Pe = 3,
     h_dev_addr = 1\<rparr>"

theorem modbus_func3_value_witness:
  "\<exists>w2. modbus_func3 list_port bool_conv 0x05
      (list_hm310t, ([[CHR 0x01, CHR 0x03, CHR 0x02, CHR 0x02, CHR 0x33, CHR 0x00, CHR 0x00]], [])) =
     (Inr 0x233, (list_hm310t, w2))"
proof -
  let ?ans = "[CHR 0x01, CHR 0x03, CHR 0x02, CHR 0x02, CHR 0x33, CHR 0x00, CHR 0x00]"
  let ?frame = "with_crc [char_of (nat (h_dev_addr list_hm310t mod 256)), CHR 0x03, hi_byte 0x05,
      lo_byte 0x05, CHR 0x00, CHR 0x01]"
  have "modbus_func3 list_port bool_conv 0x05 (list_hm310t, ([?ans], [])) =
      (Inr (256 * byte CHR 0x02 + byte CHR 0x33), (list_hm310t, ([], ?frame)))"
    by (rule modbus_func3_value [where n = 8 and ?w1.0 = "([?ans], ?frame)"])
      (simp_all add: list_hm310t_def list_serial_def list_port_def with_crc_def delay_after_def
        usleep_s_def bool_conv_def)
  moreover have "256 * byte CHR 0x02 + byte CHR 0x33 = 0x233" by (simp add: byte_def)
  ultimately show ?thesis by auto
qed

end
