(* ===== verification/Drv_Net.thy ===== *)
theory Drv_Net
  imports Os
begin

text \<open>
  \<^verbatim>\<open>server/drv_net.h\<close>, \<^verbatim>\<open>server/drv_net.cpp\<close> and \<^verbatim>\<open>server/drv_net_gpib_prologix.h\<close>: the driver
  for network devices and the one for GPIB devices behind a Prologix converter, derived from
  it. The socket calls extend the parameter \<open>os\<close>; an address \<^verbatim>\<open>getaddrinfo\<close> finds is a number.
\<close>

record 'w net_os = "'w os" +
  getaddrinfo :: "string \<Rightarrow> string \<Rightarrow> ('w, nat list) sys"
  gai_strerror :: "nat \<Rightarrow> string"
  sys_socket :: "nat \<Rightarrow> ('w, nat) sys"
  sys_connect :: "nat \<Rightarrow> nat \<Rightarrow> ('w, unit) sys"
  sys_pselect :: "nat \<Rightarrow> int \<Rightarrow> int \<Rightarrow> ('w, nat) sys"   \<comment> \<open>seconds and nanoseconds; how many are ready\<close>
  sys_recv :: "nat \<Rightarrow> nat \<Rightarrow> ('w, string) sys"
  sys_send :: "nat \<Rightarrow> string \<Rightarrow> ('w, nat) sys"

record 'f net_drv =
  n_sockfd :: nat
  n_bufsize :: int
  n_timeout :: 'f
  n_errpref :: string
  n_idn :: string
  n_add :: string
  n_trim :: string
  n_cond :: read_cond_t
  n_delay :: 'f

section \<open>The driver\<close>

text \<open>
  The loop over the addresses: \<open>e\<close> is the last \<^verbatim>\<open>errno\<close>, not initialised at first. A socket
  that does not connect is not closed.
\<close>

fun net_connect :: "('w, 'a) net_os_scheme \<Rightarrow> nat list \<Rightarrow> nat option \<Rightarrow> 'w \<Rightarrow> (nat option + nat) \<times> 'w" where
  "net_connect I [] e w = (Inl e, w)"
| "net_connect I (p # ps) e w =
     (case sys_socket I p w of
        (Inl en, w1) \<Rightarrow> net_connect I ps (Some en) w1
      | (Inr fd, w1) \<Rightarrow>
          (case sys_connect I fd p w1 of
             (Inl en, w2) \<Rightarrow> net_connect I ps (Some en) w2
           | (Inr u, w2) \<Rightarrow> (Inr fd, w2)))"

definition net_create :: "('w, 'a) net_os_scheme \<Rightarrow> 'f conv \<Rightarrow> opt \<Rightarrow> ('w, 'f net_drv) act" where
  "net_create I F opts =
     bind_act (lift_res (opt_check_unknown [''addr'', ''port'', ''timeout'', ''bufsize'', ''delay'',
       ''open_delay'', ''errpref'', ''idn'', ''read_cond'', ''add_str'', ''trim_str''] opts)) (\<lambda>_.
     let ep0 = opt_get opts ''errpref'' ''Driver_net: ''; addr = opt_get opts ''addr'' [];
         port = opt_get opts ''port'' ''5025''; ep = ep0 @ addr @ '':'' @ port @ '': '' in
     if addr = [] then throw (ep0 @ ''Parameter -addr is empty or missing'')
     else
       bind_act (\<lambda>w. case getaddrinfo I (c_str addr) (c_str port) w of
           (Inl res, w1) \<Rightarrow> (Inl (Err (ep @ ''getaddrinfo: '' @ gai_strerror I res)), w1)
         | (Inr ps, w1) \<Rightarrow> (Inr ps, w1)) (\<lambda>ps.
       bind_act (lift_res (opt_get_as (p_double F) opts ''open_delay'' (f_lit F ''0.0''))) (\<lambda>od.
       bind_act (delay_after I F od) (\<lambda>_.
       bind_act (\<lambda>w. case net_connect I ps None w of
           (Inl (Some en), w1) \<Rightarrow> (Inl (Err (ep @ ''can't connect: '' @ strerror I en)), w1)
         | (Inl None, w1) \<Rightarrow> (Inl UB, w1)
         | (Inr fd, w1) \<Rightarrow> (Inr fd, w1)) (\<lambda>fd.
       bind_act (lift_res (opt_get_as (p_int F) opts ''bufsize'' 4096)) (\<lambda>bufsize.
       bind_act (lift_res (opt_get_as (p_double F) opts ''timeout'' (f_lit F ''5.0''))) (\<lambda>timeout.
       bind_act (lift_res (opt_get_as (p_double F) opts ''delay'' (f_lit F ''0.0''))) (\<lambda>delay.
       bind_act (lift_res (str_to_read_cond (opt_get opts ''read_cond'' ''qmark1w''))) (\<lambda>cond.
       ok \<lparr>n_sockfd = fd, n_bufsize = bufsize, n_timeout = timeout, n_errpref = ep,
           n_idn = opt_get opts ''idn'' [], n_add = opt_get opts ''add_str'' nl,
           n_trim = opt_get opts ''trim_str'' nl, n_cond = cond, n_delay = delay\<rparr>)))))))))"

definition net_destroy :: "('w, 'a) net_os_scheme \<Rightarrow> 'f net_drv \<Rightarrow> 'w \<Rightarrow> 'w" where
  "net_destroy I d = os_close I (n_sockfd d)"

text \<open>Waiting for data; \<^verbatim>\<open>int(timeout)\<close> drops the fraction.\<close>

definition net_wait :: "('w, 'a) net_os_scheme \<Rightarrow> 'f conv \<Rightarrow> 'f net_drv \<Rightarrow> ('w, unit) act" where
  "net_wait I F d =
     (if f_less F (f_lit F ''0'') (n_timeout d) then
        (\<lambda>w. let t = n_timeout d; s = f_trunc F t;
                  ns = f_trunc F (f_mul F (f_sub F t (f_of_int F s)) (f_lit F ''1e9'')) in
           case sys_pselect I (n_sockfd d) s ns w of
             (Inl en, w1) \<Rightarrow> (Inl (Err (n_errpref d @ ''select error: '' @ strerror I en)), w1)
           | (Inr k, w1) \<Rightarrow> (if k = 0 then Inl (Err (n_errpref d @ ''read timeout'')) else Inr (), w1))
      else ok ())"

text \<open>An array with no elements or a negative number of them has no meaning.\<close>

definition net_read :: "('w, 'a) net_os_scheme \<Rightarrow> 'f conv \<Rightarrow> 'f net_drv \<Rightarrow> ('w, string) act" where
  "net_read I F d =
     (if n_bufsize d \<le> 0 then (\<lambda>w. (Inl UB, w))
      else bind_act (net_wait I F d) (\<lambda>_.
        bind_act (sys_check I (n_errpref d @ ''read error: '')
          (sys_recv I (n_sockfd d) (nat (n_bufsize d)))) (\<lambda>buf.
          ok (snd (trim_str buf (n_trim d))))))"

definition net_write :: "('w, 'a) net_os_scheme \<Rightarrow> 'f conv \<Rightarrow> 'f net_drv \<Rightarrow> string \<Rightarrow> ('w, unit) act" where
  "net_write I F d msg =
     (let m = (if 0 < length (n_add d) then msg @ n_add d else msg) in
      bind_act (sys_check I (n_errpref d @ ''write error: '') (sys_send I (n_sockfd d) m))
        (\<lambda>_. delay_after I F (n_delay d)))"

definition net_ask :: "('w, 'a) net_os_scheme \<Rightarrow> 'f conv \<Rightarrow> 'f net_drv \<Rightarrow> string \<Rightarrow> ('w, string) act" where
  "net_ask I F d msg =
     (if n_idn d \<noteq> [] \<and> strcaseeq msg ''*idn?'' then ok (n_idn d)
      else bind_act (net_write I F d msg) (\<lambda>_.
        bind_act (lift_res (check_read_cond msg (cond_int (n_cond d)))) (\<lambda>b.
          if b then net_read I F d else ok [])))"

interpretation net: message_driver "net_write I F d" "net_read I F d" "net_ask I F d"
    "n_idn d" "n_cond d" for I F d
  by unfold_locales (auto simp: net_ask_def)

section \<open>The Prologix converter\<close>

record 'f prologix_drv =
  p_net :: "'f net_drv"
  p_addr :: string

text \<open>
  \<^verbatim>\<open>set_opt\<close> runs before the base class is constructed. It erases the address from the
  options it hands on; the comparison of two string literals that should guard against an
  empty one is never true.
\<close>

definition prologix_set_opt :: "opt \<Rightarrow> (string \<times> opt) result" where
  "prologix_set_opt opts =
     bind_res (opt_check_unknown [''addr'', ''port'', ''timeout'', ''bufsize'', ''errpref'', ''idn''] opts)
       (\<lambda>_. Inr (opt_get opts ''addr'' [], sm_erase ''addr'' (opt_put_missing ''port'' ''1234'' opts)))"

text \<open>The address stored by \<^verbatim>\<open>set_opt\<close> is lost when the members are initialised.\<close>

definition prologix_create :: "('w, 'a) net_os_scheme \<Rightarrow> 'f conv \<Rightarrow> opt \<Rightarrow>
    ('w, 'f prologix_drv) act" where
  "prologix_create I F opts = bind_act (lift_res (prologix_set_opt opts)) (\<lambda>(addr, o').
     bind_act (net_create I F o') (\<lambda>d. ok \<lparr>p_net = d, p_addr = []\<rparr>))"

definition sel_device :: "('w, 'a) net_os_scheme \<Rightarrow> 'f conv \<Rightarrow> 'f prologix_drv \<Rightarrow> ('w, unit) act" where
  "sel_device I F d =
     bind_act (net_write I F (p_net d) ''++addr'') (\<lambda>_.
     bind_act (net_read I F (p_net d)) (\<lambda>a.
       if a \<noteq> p_addr d then net_write I F (p_net d) (''++addr '' @ p_addr d) else ok ()))"

definition prologix_read :: "('w, 'a) net_os_scheme \<Rightarrow> 'f conv \<Rightarrow> 'f prologix_drv \<Rightarrow> ('w, string) act" where
  "prologix_read I F d = bind_act (sel_device I F d) (\<lambda>_. net_read I F (p_net d))"

definition prologix_write :: "('w, 'a) net_os_scheme \<Rightarrow> 'f conv \<Rightarrow> 'f prologix_drv \<Rightarrow> string \<Rightarrow>
    ('w, unit) act" where
  "prologix_write I F d msg = bind_act (sel_device I F d) (\<lambda>_. net_write I F (p_net d) msg)"

text \<open>\<^verbatim>\<open>Driver_net::ask\<close> is inherited and calls the two through the virtual table.\<close>

definition prologix_ask :: "('w, 'a) net_os_scheme \<Rightarrow> 'f conv \<Rightarrow> 'f prologix_drv \<Rightarrow> string \<Rightarrow>
    ('w, string) act" where
  "prologix_ask I F d msg =
     (if n_idn (p_net d) \<noteq> [] \<and> strcaseeq msg ''*idn?'' then ok (n_idn (p_net d))
      else bind_act (prologix_write I F d msg) (\<lambda>_.
        bind_act (lift_res (check_read_cond msg (cond_int (n_cond (p_net d))))) (\<lambda>b.
          if b then prologix_read I F d else ok [])))"

interpretation prologix: message_driver "prologix_write I F d" "prologix_read I F d"
    "prologix_ask I F d" "n_idn (p_net d)" "n_cond (p_net d)" for I F d
  by unfold_locales (auto simp: prologix_ask_def)

section \<open>Properties\<close>

text \<open>
  A Prologix device can never be opened: whatever the options, the constructor throws,
  because of an unknown option or because the address is missing from the options the base
  class sees.
\<close>

theorem prologix_never_opens:
  "(\<exists>e. opt_check_unknown [''addr'', ''port'', ''timeout'', ''bufsize'', ''errpref'', ''idn''] opts = Inl e \<and>
      prologix_create I F opts w = (Inl e, w)) \<or>
   prologix_create I F opts w =
     (Inl (Err (opt_get opts ''errpref'' ''Driver_net: '' @ ''Parameter -addr is empty or missing'')), w)"
proof (cases "opt_check_unknown [''addr'', ''port'', ''timeout'', ''bufsize'', ''errpref'', ''idn''] opts")
  case (Inl e)
  then show ?thesis by (simp add: prologix_create_def prologix_set_opt_def)
next
  case (Inr u)
  let ?o = "sm_erase ''addr'' (opt_put_missing ''port'' ''1234'' opts)"
  have keys: "fst ` set ?o \<subseteq> insert ''port'' (fst ` set opts)"
    by (auto simp: set_sm_erase opt_put_missing_def opt_put_def) (metis fst_conv image_eqI insert_iff sm_put_keys)
  have "fst ` set opts \<subseteq> set [''addr'', ''port'', ''timeout'', ''bufsize'', ''errpref'', ''idn'']"
    using Inr opt_check_unknown_ok by (metis (full_types) unit.exhaust)
  with keys have "fst ` set ?o \<subseteq> insert ''port'' (set [''addr'', ''port'', ''timeout'', ''bufsize'',
      ''errpref'', ''idn''])" by (meson insert_mono subset_trans)
  then have "opt_check_unknown [''addr'', ''port'', ''timeout'', ''bufsize'', ''delay'',
      ''open_delay'', ''errpref'', ''idn'', ''read_cond'', ''add_str'', ''trim_str''] ?o = Inr ()"
    unfolding opt_check_unknown_ok by (rule subset_trans) simp
  moreover have "sm_find ?o ''addr'' = None" by (simp add: sm_find_erase)
  moreover have "opt_get ?o ''errpref'' x = opt_get opts ''errpref'' x" for x
    by (simp add: opt_get_def sm_find_erase opt_put_missing_def opt_put_def sm_find_put_other)
  ultimately show ?thesis using Inr
    by (simp add: prologix_create_def prologix_set_opt_def net_create_def Let_def opt_get_def)
qed

end
