(* ===== verification/Tmc.thy ===== *)
theory Tmc
  imports Prelude
begin

text \<open>
  \<^verbatim>\<open>server/tmc.h\<close>, the header of the \<^verbatim>\<open>usbtmc\<close> kernel module: status values, control requests, the
  structures handed to the module and the numbers of its \<^verbatim>\<open>ioctl\<close> requests. The macros \<^verbatim>\<open>_IO\<close>,
  \<^verbatim>\<open>_IOR\<close>, \<^verbatim>\<open>_IOW\<close> and \<^verbatim>\<open>_IOWR\<close> are of the system; a request is kept as what they are given: the
  direction of the transfer, the number and the size of the argument.
\<close>

section \<open>Values\<close>

definition usbtmc_status :: "(string \<times> 8 word) list" where
  "usbtmc_status =
     [(''SUCCESS'', 0x01), (''PENDING'', 0x02), (''FAILED'', 0x80),
      (''TRANSFER_NOT_IN_PROGRESS'', 0x81), (''SPLIT_NOT_IN_PROGRESS'', 0x82),
      (''SPLIT_IN_PROGRESS'', 0x83)]"

definition usbtmc_requests :: "(string \<times> 8 word) list" where
  "usbtmc_requests =
     [(''INITIATE_ABORT_BULK_OUT'', 1), (''CHECK_ABORT_BULK_OUT_STATUS'', 2),
      (''INITIATE_ABORT_BULK_IN'', 3), (''CHECK_ABORT_BULK_IN_STATUS'', 4),
      (''INITIATE_CLEAR'', 5), (''CHECK_CLEAR_STATUS'', 6), (''GET_CAPABILITIES'', 7),
      (''INDICATOR_PULSE'', 64), (''READ_STATUS_BYTE'', 128), (''REN_CONTROL'', 160),
      (''GOTO_LOCAL'', 161), (''LOCAL_LOCKOUT'', 162)]"

definition usbtmc_flags :: "(string \<times> 32 word) list" where
  "usbtmc_flags = [(''ASYNC'', 0x0001), (''APPEND'', 0x0002), (''IGNORE_TRAILER'', 0x0004)]"

definition usb488_capabilities :: "(string \<times> 8 word) list" where
  "usb488_capabilities =
     [(''TRIGGER'', 1), (''SIMPLE'', 2), (''REN_CONTROL'', 2), (''GOTO_LOCAL'', 2),
      (''LOCAL_LOCKOUT'', 2), (''488_DOT_2'', 4), (''DT1'', 16), (''RL1'', 32), (''SR1'', 64),
      (''FULL_SCPI'', 128)]"

section \<open>Structures\<close>

text \<open>A pointer to user space is a \<open>'p\<close>.\<close>

record usbtmc_request =
  bRequestType :: "8 word"
  bRequest :: "8 word"
  wValue :: "16 word"
  wIndex :: "16 word"
  wLength :: "16 word"

record 'p usbtmc_ctrlrequest =
  ctrl_req :: usbtmc_request
  ctrl_data :: 'p

record usbtmc_termchar =
  term_char :: "8 word"
  term_char_enabled :: "8 word"

record 'p usbtmc_message =
  transfer_size :: "32 word"
  transferred :: "32 word"
  msg_flags :: "32 word"
  message :: 'p

text \<open>Their sizes: they are packed, so a structure is as large as its fields; \<open>p\<close> is the size of a pointer.\<close>

definition sizeof_ctrlrequest :: "nat \<Rightarrow> nat" where
  "sizeof_ctrlrequest p = (1 + 1 + 2 + 2 + 2) + p"

definition sizeof_termchar :: nat where
  "sizeof_termchar = 1 + 1"

definition sizeof_message :: "nat \<Rightarrow> nat" where
  "sizeof_message p = 4 + 4 + 4 + p"

section \<open>Requests to the kernel module\<close>

datatype ioc_dir = IO | IOR | IOW | IOWR

definition USBTMC_IOC_NR :: nat where
  "USBTMC_IOC_NR = 91"

definition usbtmc_ioctls :: "nat \<Rightarrow> (string \<times> ioc_dir \<times> nat \<times> nat) list" where
  "usbtmc_ioctls p =
     [(''USBTMC_IOCTL_INDICATOR_PULSE'', IO, 1, 0),
      (''USBTMC_IOCTL_CLEAR'', IO, 2, 0),
      (''USBTMC_IOCTL_ABORT_BULK_OUT'', IO, 3, 0),
      (''USBTMC_IOCTL_ABORT_BULK_IN'', IO, 4, 0),
      (''USBTMC_IOCTL_CLEAR_OUT_HALT'', IO, 6, 0),
      (''USBTMC_IOCTL_CLEAR_IN_HALT'', IO, 7, 0),
      (''USBTMC_IOCTL_CTRL_REQUEST'', IOWR, 8, sizeof_ctrlrequest p),
      (''USBTMC_IOCTL_GET_TIMEOUT'', IOR, 9, 4),
      (''USBTMC_IOCTL_SET_TIMEOUT'', IOW, 10, 4),
      (''USBTMC_IOCTL_EOM_ENABLE'', IOW, 11, 1),
      (''USBTMC_IOCTL_CONFIG_TERMCHAR'', IOW, 12, sizeof_termchar),
      (''USBTMC_IOCTL_WRITE'', IOWR, 13, sizeof_message p),
      (''USBTMC_IOCTL_READ'', IOWR, 14, sizeof_message p),
      (''USBTMC_IOCTL_WRITE_RESULT'', IOWR, 15, 4),
      (''USBTMC_IOCTL_API_VERSION'', IOR, 16, 4),
      (''USBTMC488_IOCTL_GET_CAPS'', IOR, 17, 1),
      (''USBTMC488_IOCTL_READ_STB'', IOR, 18, 1),
      (''USBTMC488_IOCTL_REN_CONTROL'', IOW, 19, 1),
      (''USBTMC488_IOCTL_GOTO_LOCAL'', IO, 20, 0),
      (''USBTMC488_IOCTL_LOCAL_LOCKOUT'', IO, 21, 0),
      (''USBTMC488_IOCTL_TRIGGER'', IO, 22, 0),
      (''USBTMC488_IOCTL_WAIT_SRQ'', IOW, 23, 4),
      (''USBTMC_IOCTL_MSG_IN_ATTR'', IOR, 24, 1),
      (''USBTMC_IOCTL_AUTO_ABORT'', IOW, 25, 1),
      (''USBTMC_IOCTL_CANCEL_IO'', IO, 35, 0),
      (''USBTMC_IOCTL_CLEANUP_IO'', IO, 36, 0)]"

text \<open>
  The system puts direction, type, number and size into different bits of a request, so that two
  requests of the table never have the same code, and the four the driver uses are among them.
\<close>

lemma distinct_map_coarser:
  assumes fg: "\<And>x y. f x = f y \<Longrightarrow> g x = g y"
  shows "distinct (map g xs) \<Longrightarrow> distinct (map f xs)"
proof (induction xs)
  case (Cons a xs)
  have "f a \<notin> f ` set xs"
  proof
    assume "f a \<in> f ` set xs"
    then obtain x where "x \<in> set xs" "f a = f x" by blast
    then have "g a \<in> g ` set xs" using fg [of a x] by simp
    then show False using Cons.prems by simp
  qed
  then show ?case using Cons by simp
qed simp

lemma usbtmc_ioctls_distinct:
  assumes ioc: "\<And>d t n s d' t' n' s'. ioc d t n s = ioc d' t' n' s' \<Longrightarrow> n = n'"
  shows "distinct (map (\<lambda>(name, d, n, s). ioc d USBTMC_IOC_NR n s) (usbtmc_ioctls p))"
proof (rule distinct_map_coarser)
  show "distinct (map (\<lambda>(name, d, n, s). n) (usbtmc_ioctls p))"
    by (simp add: usbtmc_ioctls_def)
next
  fix x y :: "string \<times> ioc_dir \<times> nat \<times> nat"
  assume "(\<lambda>(name, d, n, s). ioc d USBTMC_IOC_NR n s) x = (\<lambda>(name, d, n, s). ioc d USBTMC_IOC_NR n s) y"
  then show "(\<lambda>(name, d, n, s). n) x = (\<lambda>(name, d, n, s). n) y"
    by (cases x, cases y) (auto dest: ioc)
qed

end
