(* ===== verification/Drv_Usbtmc.thy ===== *)
theory Drv_Usbtmc
  imports Os Tmc
begin

text \<open>
  \<^verbatim>\<open>server/drv_usbtmc.h\<close> and \<^verbatim>\<open>server/drv_usbtmc.cpp\<close>: the driver for devices of the \<^verbatim>\<open>usbtmc\<close>
  kernel module. The four \<^verbatim>\<open>ioctl\<close> requests it makes (\<open>Tmc\<close> numbers them) extend the
  parameter \<open>os\<close>.
\<close>

record 'w usbtmc_os = "'w os" +
  ioctl_clear :: "nat \<Rightarrow> ('w, unit) sys"
  ioctl_set_timeout :: "nat \<Rightarrow> 32 word \<Rightarrow> ('w, unit) sys"
  ioctl_auto_abort :: "nat \<Rightarrow> 8 word \<Rightarrow> ('w, unit) sys"
  ioctl_read_stb :: "nat \<Rightarrow> ('w, 8 word) sys"

record 'f usbtmc_drv =
  u_fd :: nat
  u_errpref :: string
  u_idn :: string
  u_add :: string
  u_trim :: string
  u_auto_abort :: bool
  u_cond :: read_cond_t
  u_delay :: 'f

text \<open>
  The constructor. A timeout the unsigned type does not hold has no meaning; an exception
  after \<^verbatim>\<open>open\<close> leaves the file open.
\<close>

definition usbtmc_create :: "('w, 'a) usbtmc_os_scheme \<Rightarrow> 'f conv \<Rightarrow> opt \<Rightarrow> ('w, 'f usbtmc_drv) act" where
  "usbtmc_create I F opts =
     bind_act (lift_res (opt_check_unknown [''dev'', ''timeout'', ''errpref'', ''idn'', ''read_cond'',
       ''add_str'', ''trim_str'', ''delay''] opts)) (\<lambda>_.
     let ep0 = opt_get opts ''errpref'' ''usbtmc: ''; dev = opt_get opts ''dev'' [];
         ep = ep0 @ dev @ '': '' in
     if dev = [] then throw (ep0 @ ''parameter -dev is empty or missing'')
     else
       bind_act (sys_check I (ep @ ''can't open device: '') (os_open I (c_str dev) O_RDWR)) (\<lambda>fd.
       bind_act (sys_check I (ep @ ''can't clear device state: '') (ioctl_clear I fd)) (\<lambda>_.
       bind_act (lift_res (opt_get_as (p_double F) opts ''timeout'' (f_lit F ''5.0''))) (\<lambda>t.
       let v = f_trunc F (f_mul F t (f_lit F ''1000'')) in
       bind_act (if 0 \<le> v \<and> v < 2 ^ 32
         then sys_check I (ep @ ''can't set timeout: '') (ioctl_set_timeout I fd (word_of_int v))
         else (\<lambda>w. (Inl UB, w))) (\<lambda>_.
       bind_act (\<lambda>w. case ioctl_auto_abort I fd 1 w of (r, w1) \<Rightarrow> (Inr (\<not> isl r), w1)) (\<lambda>aa.
       bind_act (lift_res (opt_get_as (p_double F) opts ''delay'' (f_lit F ''0.01''))) (\<lambda>delay.
       bind_act (lift_res (str_to_read_cond (opt_get opts ''read_cond'' ''qmark1w''))) (\<lambda>cond.
       ok \<lparr>u_fd = fd, u_errpref = ep, u_idn = opt_get opts ''idn'' [],
           u_add = opt_get opts ''add_str'' nl, u_trim = opt_get opts ''trim_str'' nl,
           u_auto_abort = aa, u_cond = cond, u_delay = delay\<rparr>))))))))"

definition usbtmc_destroy :: "('w, 'a) usbtmc_os_scheme \<Rightarrow> 'f usbtmc_drv \<Rightarrow> 'w \<Rightarrow> 'w" where
  "usbtmc_destroy I d = os_close I (u_fd d)"

text \<open>Recovering from a failed transfer when the kernel does not.\<close>

definition recover :: "('w, 'a) usbtmc_os_scheme \<Rightarrow> 'f usbtmc_drv \<Rightarrow> 'w \<Rightarrow> 'w" where
  "recover I d w = (if \<not> u_auto_abort d then snd (ioctl_clear I (u_fd d) w) else w)"

partial_function (option) usbtmc_loop :: "('w, 'a) usbtmc_os_scheme \<Rightarrow> 'f usbtmc_drv \<Rightarrow> string \<Rightarrow>
    'w \<Rightarrow> (string result \<times> 'w) option" where
  "usbtmc_loop I d ret w =
     (case os_read I (u_fd d) 4096 w of
        (Inl en, w1) \<Rightarrow>
          Some (Inl (Err (u_errpref d @ ''read error: '' @ strerror I en)), recover I d w1)
      | (Inr buf, w1) \<Rightarrow>
          (case ioctl_read_stb I (u_fd d) (os_usleep I 10000 w1) of
             (Inl en, w2) \<Rightarrow>
               Some (Inl (Err (u_errpref d @ ''can't get status byte: '' @ strerror I en)), w2)
           | (Inr stb, w2) \<Rightarrow>
               if \<not> bit stb 4 then Some (Inr (ret @ buf), w2)
               else usbtmc_loop I d (ret @ buf) w2))"

declare usbtmc_loop.simps [code]

definition usbtmc_read :: "('w, 'a) usbtmc_os_scheme \<Rightarrow> 'f usbtmc_drv \<Rightarrow> ('w, string) act" where
  "usbtmc_read I d = bind_act (or_hang (usbtmc_loop I d [])) (\<lambda>ret. ok (snd (trim_str ret (u_trim d))))"

definition usbtmc_write :: "('w, 'a) usbtmc_os_scheme \<Rightarrow> 'f conv \<Rightarrow> 'f usbtmc_drv \<Rightarrow> string \<Rightarrow>
    ('w, unit) act" where
  "usbtmc_write I F d msg = (\<lambda>w.
     let m = (if 0 < length (u_add d) then msg @ u_add d else msg) in
     case os_write I (u_fd d) m w of
       (Inl en, w1) \<Rightarrow> (Inl (Err (u_errpref d @ ''read error: '' @ strerror I en)), recover I d w1)
     | (Inr n, w1) \<Rightarrow> delay_after I F (u_delay d) w1)"

definition usbtmc_ask :: "('w, 'a) usbtmc_os_scheme \<Rightarrow> 'f conv \<Rightarrow> 'f usbtmc_drv \<Rightarrow> string \<Rightarrow>
    ('w, string) act" where
  "usbtmc_ask I F d msg =
     (if u_idn d \<noteq> [] \<and> strcaseeq msg ''*idn?'' then ok (u_idn d)
      else bind_act (usbtmc_write I F d msg) (\<lambda>_.
        bind_act (lift_res (check_read_cond msg (cond_int (u_cond d)))) (\<lambda>b.
          if b then usbtmc_read I d else ok [])))"

interpretation usbtmc: message_driver "usbtmc_write I F d" "usbtmc_read I d" "usbtmc_ask I F d"
    "u_idn d" "u_cond d" for I F d
  by unfold_locales (auto simp: usbtmc_ask_def)

text \<open>
  A transfer in several pieces: after every piece but the last the status byte announces
  more.
\<close>

fun transfers :: "('w, 'a) usbtmc_os_scheme \<Rightarrow> nat \<Rightarrow> string list \<Rightarrow> 'w \<Rightarrow> 'w \<Rightarrow> bool" where
  "transfers I fd [] w w' = False"
| "transfers I fd (c # cs) w w' =
     (\<exists>w1 stb w2. os_read I fd 4096 w = (Inr c, w1) \<and>
        ioctl_read_stb I fd (os_usleep I 10000 w1) = (Inr stb, w2) \<and>
        (if cs = [] then \<not> bit stb 4 \<and> w' = w2 else bit stb 4 \<and> transfers I fd cs w2 w'))"

lemma usbtmc_loop_transfers:
  "transfers I (u_fd d) cs w w' \<Longrightarrow> usbtmc_loop I d ret w = Some (Inr (ret @ concat cs), w')"
proof (induction cs arbitrary: ret w)
  case (Cons c cs)
  then obtain w1 stb w2 where rd: "os_read I (u_fd d) 4096 w = (Inr c, w1)"
    "ioctl_read_stb I (u_fd d) (os_usleep I 10000 w1) = (Inr stb, w2)"
    and rest: "if cs = [] then \<not> bit stb 4 \<and> w' = w2 else bit stb 4 \<and> transfers I (u_fd d) cs w2 w'"
    by auto
  show ?case
    using rd rest Cons.IH [of w2 "ret @ c"]
    by (cases "cs = []") (simp_all add: usbtmc_loop.simps [of I d ret w])
qed simp

text \<open>
  A long answer of a USB device is put together from all its pieces, until the status
  byte says that there are no more, and trimmed once at the end.
\<close>

theorem usbtmc_read_all:
  assumes "transfers I (u_fd d) cs w w'"
  shows "usbtmc_read I d w = (Inr (snd (trim_str (concat cs) (u_trim d))), w')"
  using usbtmc_loop_transfers [OF assms, of "[]"] by (simp add: usbtmc_read_def)

text \<open>A device with a list of pieces to send, for the witness.\<close>

definition list_usb :: "(string list) usbtmc_os" where
  "list_usb = \<lparr>os_open = (\<lambda>p fl w. (Inr 3, w)), os_close = (\<lambda>fd w. w),
     os_read = (\<lambda>fd n cs. case cs of [] \<Rightarrow> (Inr [], []) | c # r \<Rightarrow> (Inr c, r)),
     os_write = (\<lambda>fd s w. (Inr (length s), w)), os_usleep = (\<lambda>t w. w), strerror = dec,
     ioctl_clear = (\<lambda>fd w. (Inr (), w)), ioctl_set_timeout = (\<lambda>fd v w. (Inr (), w)),
     ioctl_auto_abort = (\<lambda>fd v w. (Inr (), w)),
     ioctl_read_stb = (\<lambda>fd cs. (Inr (if cs = [] then 0 else 16), cs))\<rparr>"

theorem usbtmc_read_all_witness:
  "usbtmc_read list_usb (\<lparr>u_fd = 3, u_errpref = [], u_idn = [], u_add = nl, u_trim = nl,
      u_auto_abort = True, u_cond = READCOND_QMARK1W, u_delay = 0\<rparr> :: nat usbtmc_drv)
     [''1.5'' @ nl, ''2.5'' @ nl] = (Inr (''1.5'' @ nl @ ''2.5''), [])"
  by (subst usbtmc_read_all [where cs = "[''1.5'' @ nl, ''2.5'' @ nl]" and w' = "[]"])
    (simp_all add: list_usb_def nl_def trim_str_def)

end
