(* ===== verification/Drv_Gpib.thy ===== *)
theory Drv_Gpib
  imports Os
begin

text \<open>
  \<^verbatim>\<open>server/drv_gpib.h\<close> and \<^verbatim>\<open>server/drv_gpib.cpp\<close>: the driver for GPIB devices. The \<^verbatim>\<open>linux-gpib\<close>
  library is the parameter \<open>gpib_lib\<close>: a call answers a value or sets the error bit of
  \<^verbatim>\<open>ibsta\<close>, and then \<^verbatim>\<open>iberr\<close> and \<^verbatim>\<open>ibcnt\<close>. The constants are those of its documentation.
\<close>

unbundle bit_operations_syntax

type_synonym ('w, 'a) ib = "'w \<Rightarrow> ((nat \<times> nat) + 'a) \<times> 'w"

record 'w gpib_lib = "'w os" +
  ibdev :: "int \<Rightarrow> int \<Rightarrow> nat \<Rightarrow> ('w, nat) ib"
  ibclr :: "nat \<Rightarrow> ('w, unit) ib"
  ibtmo :: "nat \<Rightarrow> nat \<Rightarrow> ('w, unit) ib"
  ibeot :: "nat \<Rightarrow> bool \<Rightarrow> ('w, unit) ib"
  ibeos :: "nat \<Rightarrow> 32 word \<Rightarrow> ('w, unit) ib"
  ibsad :: "nat \<Rightarrow> int \<Rightarrow> ('w, unit) ib"
  ibrd :: "nat \<Rightarrow> nat \<Rightarrow> ('w, string) ib"
  ibwrt :: "nat \<Rightarrow> string \<Rightarrow> ('w, unit) ib"
  ibonl :: "nat \<Rightarrow> 'w \<Rightarrow> 'w"

record 'f gpib_drv =
  g_dh :: nat
  g_bufsize :: int
  g_errpref :: string
  g_idn :: string
  g_add :: string
  g_trim :: string
  g_cond :: read_cond_t
  g_delay :: 'f

definition error_text :: "('w, 'a) gpib_lib_scheme \<Rightarrow> nat \<Rightarrow> nat \<Rightarrow> string" where
  "error_text I iberr ibcnt =
     (if iberr = 0 \<or> iberr = 12 then strerror I ibcnt
      else case map_of
        [(1, ''board is not a CIC''), (2, ''no listeners''), (3, ''board is not addressed correctly''),
         (4, ''invalid argument''), (5, ''board is not a system controller''),
         (6, ''I/O operation aborted (timeout)''), (7, ''board does not exists''), (8, ''DMA error''),
         (10, ''asynchronous I/O in progress''), (11, ''no capability for operation''),
         (14, ''bus error''), (15, ''serial poll queue overflow''), (16, ''SRQ stuck in ON position''),
         (20, ''table problem'')] iberr of
        Some m \<Rightarrow> m | None \<Rightarrow> ''unknown error'')"

definition ib_check :: "('w, 'a) gpib_lib_scheme \<Rightarrow> string \<Rightarrow> ('w, 'b) ib \<Rightarrow> ('w, 'b) act" where
  "ib_check I pref f = (\<lambda>w. case f w of
      (Inl (e, n), w1) \<Rightarrow> (Inl (Err (pref @ error_text I e n)), w1)
    | (Inr x, w1) \<Rightarrow> (Inr x, w1))"

definition get_timeout :: "string \<Rightarrow> string \<Rightarrow> nat result" where
  "get_timeout ep s = (case map_of
       [(''none'', 0), (''10us'', 1), (''30us'', 2), (''100us'', 3), (''300us'', 4), (''1ms'', 5), (''3ms'', 6),
        (''10ms'', 7), (''30ms'', 8), (''100ms'', 9), (''300ms'', 10), (''1s'', 11), (''3s'', 12),
        (''10s'', 13), (''30s'', 14), (''100s'', 15), (''300s'', 16), (''1000s'', 17)] s of
     Some t \<Rightarrow> Inr t | None \<Rightarrow> Inl (Err (ep @ ''bad gpib timeout: '' @ s)))"

fun eos_modes :: "string \<Rightarrow> string \<Rightarrow> string \<Rightarrow> 32 word \<Rightarrow> 32 word result" where
  "eos_modes ep mode [] ch = Inr ch"
| "eos_modes ep mode (c # r) ch =
     (if c = CHR ''B'' then eos_modes ep mode r (ch OR 0x1000)
      else if c = CHR ''X'' then eos_modes ep mode r (ch OR 0x800)
      else if c = CHR ''R'' then eos_modes ep mode r (ch OR 0x400)
      else Inl (Err (ep @ ''unknown -eos_mode value (only B X R characters are allowed): '' @ mode)))"

text \<open>The part of the constructor inside \<^verbatim>\<open>try\<close>.\<close>

definition gpib_setup :: "('w, 'a) gpib_lib_scheme \<Rightarrow> 'f conv \<Rightarrow> opt \<Rightarrow> string \<Rightarrow> nat \<Rightarrow> nat \<Rightarrow>
    ('w, 'f gpib_drv) act" where
  "gpib_setup I F opts ep timeout dh =
     bind_act (ib_check I (ep @ ''device clear: '') (ibclr I dh)) (\<lambda>_.
     bind_act (ib_check I (ep @ ''setting timeout: '') (ibtmo I dh timeout)) (\<lambda>_.
     bind_act (if opt_exists opts ''eot''
       then bind_act (lift_res (opt_get_as (p_bool F) opts ''eot'' False))
              (\<lambda>b. ib_check I (ep @ ''setting EOT: '') (ibeot I dh b))
       else ok ()) (\<lambda>_.
     bind_act (if opt_exists opts ''eos''
       then bind_act (lift_res (opt_get_as (p_int F) opts ''eos'' 0)) (\<lambda>v.
            let mode = opt_get opts ''eos_mode'' [] in
            bind_act (lift_res (eos_modes ep mode mode (word_of_int v AND 0xFF)))
              (\<lambda>ch. ib_check I (ep @ ''setting EOS: '') (ibeos I dh ch)))
       else ok ()) (\<lambda>_.
     bind_act (if opt_exists opts ''secondary''
       then bind_act (lift_res (opt_get_as (p_int F) opts ''secondary'' 0))
              (\<lambda>v. ib_check I (ep @ ''setting secondary addess: '') (ibsad I dh v))
       else ok ()) (\<lambda>_.
     bind_act (lift_res (opt_get_as (p_int F) opts ''bufsize'' 4096)) (\<lambda>bufsize.
     bind_act (lift_res (opt_get_as (p_double F) opts ''delay'' (f_lit F ''0.0''))) (\<lambda>delay.
     bind_act (lift_res (str_to_read_cond (opt_get opts ''read_cond'' ''qmark1w''))) (\<lambda>cond.
     ok \<lparr>g_dh = dh, g_bufsize = bufsize, g_errpref = ep, g_idn = opt_get opts ''idn'' [],
         g_add = opt_get opts ''add_str'' nl, g_trim = opt_get opts ''trim_str'' nl,
         g_cond = cond, g_delay = delay\<rparr>))))))))"

definition gpib_create :: "('w, 'a) gpib_lib_scheme \<Rightarrow> 'f conv \<Rightarrow> opt \<Rightarrow> ('w, 'f gpib_drv) act" where
  "gpib_create I F opts =
     bind_act (lift_res (opt_check_unknown [''addr'', ''board'', ''timeout'', ''open_timeout'',
       ''eot'', ''eos'', ''eos_mode'', ''secondary'', ''bufsize'', ''errpref'', ''idn'', ''read_cond'',
       ''add_str'', ''trim_str'', ''delay''] opts)) (\<lambda>_.
     let ep0 = opt_get opts ''errpref'' ''gpib: '' in
     bind_act (lift_res (opt_get_as (p_int F) opts ''addr'' (-1))) (\<lambda>addr.
     if addr < 0 then throw (ep0 @ ''Parameter -addr is empty or missing'')
     else
       bind_act (lift_res (opt_get_as (p_int F) opts ''board'' 0)) (\<lambda>board.
       let ep = ep0 @ ''dev:'' @ dec_int board @ ''.'' @ dec_int addr @ '': '' in
       bind_act (lift_res (get_timeout ep (opt_get opts ''open_timeout'' ''10s''))) (\<lambda>open_timeout.
       bind_act (lift_res (get_timeout ep (opt_get opts ''timeout'' ''3s''))) (\<lambda>timeout.
       bind_act (lift_res (opt_get_as (p_bool F) opts ''eot'' False)) (\<lambda>_.
       bind_act (lift_res (opt_get_as (p_int F) opts ''eos'' (-1))) (\<lambda>_.
       bind_act (lift_res (opt_get_as (p_bool F) opts ''secondary'' False)) (\<lambda>_.
       bind_act (ib_check I (ep @ ''opening the device: '') (ibdev I board addr open_timeout)) (\<lambda>dh w.
         case gpib_setup I F opts ep timeout dh w of
           (Inl (Err e), w1) \<Rightarrow> (Inl (Err e), ibonl I dh w1)
         | (r, w1) \<Rightarrow> (r, w1))))))))))"

definition gpib_destroy :: "('w, 'a) gpib_lib_scheme \<Rightarrow> 'f gpib_drv \<Rightarrow> 'w \<Rightarrow> 'w" where
  "gpib_destroy I d = ibonl I (g_dh d)"

definition gpib_read :: "('w, 'a) gpib_lib_scheme \<Rightarrow> 'f gpib_drv \<Rightarrow> ('w, string) act" where
  "gpib_read I d =
     (if g_bufsize d \<le> 0 then (\<lambda>w. (Inl UB, w))
      else bind_act (ib_check I (g_errpref d @ ''read error: '') (ibrd I (g_dh d) (nat (g_bufsize d))))
        (\<lambda>buf. ok (snd (trim_str buf (g_trim d)))))"

definition gpib_write :: "('w, 'a) gpib_lib_scheme \<Rightarrow> 'f conv \<Rightarrow> 'f gpib_drv \<Rightarrow> string \<Rightarrow> ('w, unit) act" where
  "gpib_write I F d msg =
     (let m = (if 0 < length (g_add d) then msg @ g_add d else msg) in
      bind_act (ib_check I (g_errpref d @ ''write error: '') (ibwrt I (g_dh d) m))
        (\<lambda>_. delay_after I F (g_delay d)))"

definition gpib_ask :: "('w, 'a) gpib_lib_scheme \<Rightarrow> 'f conv \<Rightarrow> 'f gpib_drv \<Rightarrow> string \<Rightarrow> ('w, string) act" where
  "gpib_ask I F d msg =
     (if g_idn d \<noteq> [] \<and> strcaseeq msg ''*idn?'' then ok (g_idn d)
      else bind_act (gpib_write I F d msg) (\<lambda>_.
        bind_act (lift_res (check_read_cond msg (cond_int (g_cond d)))) (\<lambda>b.
          if b then gpib_read I d else ok [])))"

interpretation gpib: message_driver "gpib_write I F d" "gpib_read I d" "gpib_ask I F d"
    "g_idn d" "g_cond d" for I F d
  by unfold_locales (auto simp: gpib_ask_def)

section \<open>Properties\<close>

text \<open>
  A secondary address can only be one that also reads as a truth value: when it does not,
  the constructor throws before it opens the device, although the address is valid.
\<close>

theorem gpib_secondary_must_be_bool:
  assumes "sm_find opts ''secondary'' = Some a" and "p_bool F a = Inl e"
  shows "isl (fst (gpib_create I F opts w)) \<and> snd (gpib_create I F opts w) = w"
  using assms
  by (auto simp: gpib_create_def Let_def bind_act_def opt_get_as_def split: sum.splits)

text \<open>A board with one device that does whatever it is asked; only digits 0 and 1 are truth values.\<close>

definition quiet_board :: "nat gpib_lib" where
  "quiet_board = \<lparr>os_open = (\<lambda>p fl w. (Inl 0, w)), os_close = (\<lambda>fd w. w), os_read = (\<lambda>fd n w. (Inl 0, w)),
     os_write = (\<lambda>fd s w. (Inl 0, w)), os_usleep = (\<lambda>t w. w), strerror = dec,
     ibdev = (\<lambda>b a t w. (Inr 0, Suc w)), ibclr = (\<lambda>d w. (Inr (), w)), ibtmo = (\<lambda>d t w. (Inr (), w)),
     ibeot = (\<lambda>d b w. (Inr (), w)), ibeos = (\<lambda>d c w. (Inr (), w)), ibsad = (\<lambda>d v w. (Inr (), w)),
     ibrd = (\<lambda>d n w. (Inr [], w)), ibwrt = (\<lambda>d s w. (Inr (), w)), ibonl = (\<lambda>d w. w)\<rparr>"

definition digit_conv :: "nat conv" where
  "digit_conv = \<lparr>p_bool = (\<lambda>s. if s = ''0'' then Inr False else if s = ''1'' then Inr True
       else Inl (Err (''can't parse value: '' @ s))),
     p_int = (\<lambda>s. Inr (int (length s))), p_uint = (\<lambda>s. Inr 0), p_double = (\<lambda>s. Inr 0),
     f_lit = (\<lambda>s. 0), f_less = (<), f_mul = (*), f_sub = (-), f_pow = (\<lambda>x y. x ^ y),
     f_trunc = int, f_of_int = nat, f_str = dec\<rparr>"

theorem gpib_secondary_must_be_bool_witness:
  "isl (fst (gpib_create quiet_board digit_conv [(''addr'', ''6''), (''secondary'', ''96'')] 0)) \<and>
   snd (gpib_create quiet_board digit_conv [(''addr'', ''6''), (''secondary'', ''96'')] 0) = 0"
  by (rule gpib_secondary_must_be_bool [where a = "''96''" and e = "Err ''can't parse value: 96''"])
    (simp_all add: sm_find_def digit_conv_def)

end
