(* ===== verification/Drv_Vxi.thy ===== *)
theory Drv_Vxi
  imports Os
begin

text \<open>
  \<^verbatim>\<open>server/drv_vxi.h\<close> and \<^verbatim>\<open>server/drv_vxi.cpp\<close>: the driver for VXI-11 devices. The class
  \<^verbatim>\<open>VXI\<close> belongs to the \<^verbatim>\<open>mapsoft2-libs\<close> submodule and is the parameter \<open>vxi_lib\<close>; \<open>'v\<close> is
  the type of its objects, and any of its functions may throw.
\<close>

record ('v, 'f, 'w) vxi_lib = "'w os" +
  vxi_new :: "string \<Rightarrow> string \<Rightarrow> 'f \<Rightarrow> ('w, 'v) act"
  vxi_io_timeout :: "'v \<Rightarrow> 'f \<Rightarrow> ('w, unit) act"
  vxi_lock_timeout :: "'v \<Rightarrow> 'f \<Rightarrow> ('w, unit) act"
  vxi_clear :: "'v \<Rightarrow> ('w, unit) act"
  vxi_lread :: "'v \<Rightarrow> ('w, string) act"
  vxi_lwrite :: "'v \<Rightarrow> string \<Rightarrow> ('w, unit) act"
  vxi_delete :: "'v \<Rightarrow> 'w \<Rightarrow> 'w"

record ('v, 'f) vxi_drv =
  v_dev :: 'v
  v_idn :: string
  v_add :: string
  v_trim :: string
  v_cond :: read_cond_t
  v_delay :: 'f

text \<open>
  The names the constructor knows: for want of a comma two of them have become one.
\<close>

definition vxi_known :: "string list" where
  "vxi_known = [''addr'', ''name'', ''rpc_timeout'', ''io_timeout'', ''lock_timeout'' @ ''errpref'',
     ''idn'', ''read_cond'', ''add_str'', ''trim_str'', ''delay'']"

text \<open>An exception after the object is made drops the object with the member that holds it.\<close>

definition vxi_setup :: "('v, 'f, 'w, 'a) vxi_lib_scheme \<Rightarrow> 'f conv \<Rightarrow> opt \<Rightarrow> 'f \<Rightarrow> 'f \<Rightarrow> 'v \<Rightarrow>
    ('w, ('v, 'f) vxi_drv) act" where
  "vxi_setup I F opts io lk v =
     bind_act (vxi_io_timeout I v io) (\<lambda>_.
     bind_act (vxi_lock_timeout I v lk) (\<lambda>_.
     bind_act (vxi_clear I v) (\<lambda>_.
     bind_act (lift_res (opt_get_as (p_double F) opts ''delay'' (f_lit F ''0.0''))) (\<lambda>delay.
     bind_act (lift_res (str_to_read_cond (opt_get opts ''read_cond'' ''qmark1w''))) (\<lambda>cond.
     ok \<lparr>v_dev = v, v_idn = opt_get opts ''idn'' [], v_add = opt_get opts ''add_str'' nl,
         v_trim = opt_get opts ''trim_str'' nl, v_cond = cond, v_delay = delay\<rparr>)))))"

definition vxi_create :: "('v, 'f, 'w, 'a) vxi_lib_scheme \<Rightarrow> 'f conv \<Rightarrow> opt \<Rightarrow>
    ('w, ('v, 'f) vxi_drv) act" where
  "vxi_create I F opts =
     bind_act (lift_res (opt_check_unknown vxi_known opts)) (\<lambda>_.
     let ep = opt_get opts ''errpref'' ''vxi: ''; addr = opt_get opts ''addr'' [];
         name = opt_get opts ''name'' [] in
     if addr = [] then throw (ep @ ''Parameter -addr is empty or missing'')
     else if name = [] then throw (ep @ ''Parameter -name is empty or missing'')
     else
       bind_act (lift_res (opt_get_as (p_double F) opts ''rpc_timeout'' (f_lit F ''2.0''))) (\<lambda>rpc.
       bind_act (lift_res (opt_get_as (p_double F) opts ''io_timeout'' (f_lit F ''2.0''))) (\<lambda>io.
       bind_act (lift_res (opt_get_as (p_double F) opts ''lock_timeout'' (f_lit F ''10.0''))) (\<lambda>lk.
       bind_act (vxi_new I (c_str addr) (c_str name) rpc) (\<lambda>v w.
         case vxi_setup I F opts io lk v w of
           (Inl (Err e), w1) \<Rightarrow> (Inl (Err e), vxi_delete I v w1)
         | (r, w1) \<Rightarrow> (r, w1))))))"

definition vxi_read :: "('v, 'f, 'w, 'a) vxi_lib_scheme \<Rightarrow> ('v, 'f) vxi_drv \<Rightarrow> ('w, string) act" where
  "vxi_read I d = bind_act (vxi_lread I (v_dev d)) (\<lambda>r. ok (snd (trim_str r (v_trim d))))"

definition vxi_write :: "('v, 'f, 'w, 'a) vxi_lib_scheme \<Rightarrow> 'f conv \<Rightarrow> ('v, 'f) vxi_drv \<Rightarrow> string \<Rightarrow>
    ('w, unit) act" where
  "vxi_write I F d msg =
     (let m = (if 0 < length (v_add d) then msg @ v_add d else msg) in
      bind_act (vxi_lwrite I (v_dev d) (c_str m)) (\<lambda>_. delay_after I F (v_delay d)))"

definition vxi_ask :: "('v, 'f, 'w, 'a) vxi_lib_scheme \<Rightarrow> 'f conv \<Rightarrow> ('v, 'f) vxi_drv \<Rightarrow> string \<Rightarrow>
    ('w, string) act" where
  "vxi_ask I F d msg =
     (if v_idn d \<noteq> [] \<and> strcaseeq msg ''*idn?'' then ok (v_idn d)
      else bind_act (vxi_write I F d msg) (\<lambda>_.
        bind_act (lift_res (check_read_cond msg (cond_int (v_cond d)))) (\<lambda>b.
          if b then vxi_read I d else ok [])))"

interpretation vxi: message_driver "vxi_write I F d" "vxi_read I d" "vxi_ask I F d"
    "v_idn d" "v_cond d" for I F d
  by unfold_locales (auto simp: vxi_ask_def)

section \<open>Properties\<close>

text \<open>
  The two documented options of the VXI driver whose names have run together, the lock
  timeout and the prefix of error messages, are both refused as unknown.
\<close>

theorem vxi_refuses_documented_options:
  assumes "k \<in> {''lock_timeout'', ''errpref''}" and "sm_find opts k \<noteq> None"
  shows "\<exists>e. vxi_create I F opts w = (Inl (Err e), w)"
proof -
  have "k \<notin> set vxi_known" using assms(1) by (auto simp: vxi_known_def)
  with assms(2) have "opt_check_unknown vxi_known opts \<noteq> Inr ()"
    by (auto simp: opt_check_unknown_find)
  with opt_check_unknown_cases [of vxi_known opts] show ?thesis by (auto simp: vxi_create_def)
qed

definition no_vxi :: "(unit, nat, unit) vxi_lib" where
  "no_vxi = \<lparr>os_open = (\<lambda>p fl w. (Inl 0, w)), os_close = (\<lambda>fd w. w), os_read = (\<lambda>fd n w. (Inl 0, w)),
     os_write = (\<lambda>fd s w. (Inl 0, w)), os_usleep = (\<lambda>t w. w), strerror = dec,
     vxi_new = (\<lambda>a n t. ok ()), vxi_io_timeout = (\<lambda>v t. ok ()), vxi_lock_timeout = (\<lambda>v t. ok ()),
     vxi_clear = (\<lambda>v. ok ()), vxi_lread = (\<lambda>v. ok []), vxi_lwrite = (\<lambda>v s. ok ()),
     vxi_delete = (\<lambda>v w. w)\<rparr>"

theorem vxi_refuses_documented_options_witness:
  "\<exists>F e. vxi_create no_vxi F [(''addr'', ''h''), (''errpref'', ''e''), (''name'', ''inst0'')] () =
     (Inl (Err e), ())"
  using vxi_refuses_documented_options [of "''errpref''"
      "[(''addr'', ''h''), (''errpref'', ''e''), (''name'', ''inst0'')]" no_vxi _ "()"]
  by (simp add: sm_find_def)

end
