(* ===== verification/Drv_Create.thy ===== *)
theory Drv_Create
  imports Drv_Spp Drv_Hm310t Drv_Net Drv_Usbtmc Drv_Gpib Drv_Vxi
begin

text \<open>
  \<^verbatim>\<open>server/drv.cpp\<close>: the table of the driver names. The pointer to the abstract class
  \<^verbatim>\<open>Driver\<close> that \<^verbatim>\<open>create\<close> returns is the type \<open>driver\<close>, one constructor for each class;
  calling a virtual function is a case distinction. The result is the \<open>vtable\<close> the device and
  the manager run on, so that the theorems about them hold for the drivers of the program.

  Everything outside the program is collected in the parameter \<open>systems\<close>: the libraries behind
  the drivers, each over the same outside world. \<open>sys_gpib\<close> and \<open>sys_vxi\<close> are \<open>None\<close> in a
  program built without \<^verbatim>\<open>USE_GPIB\<close> or \<^verbatim>\<open>USE_VXI\<close>.
\<close>

record ('p, 'v, 'f, 'w) systems =
  sys_conv :: "'f conv"
  sys_words :: "string \<Rightarrow> string list result"   \<comment> \<open>\<^verbatim>\<open>read_words\<close> of an unquoted message\<close>
  sys_filter :: "('p, 'f, 'w) filter_sys"
  sys_serial :: "'w serial_os"
  sys_net :: "'w net_os"
  sys_usbtmc :: "'w usbtmc_os"
  sys_gpib :: "'w gpib_lib option"
  sys_vxi :: "('v, 'f, 'w) vxi_lib option"

datatype ('p, 'v, 'f) driver =
    Driver_test string
  | Driver_spp "('p, 'f) spp_drv"
  | Driver_usbtmc "'f usbtmc_drv"
  | Driver_serial "'f serial_drv"
  | Driver_net "'f net_drv"
  | Driver_net_gpib_prologix "'f prologix_drv"
  | Driver_serial_hm310t "'f hm310t_drv"
  | Driver_gpib "'f gpib_drv"
  | Driver_vxi "('v, 'f) vxi_drv"

text \<open>\<^verbatim>\<open>std::shared_ptr<Driver>(new T(args))\<close>\<close>

definition new_driver :: "('a \<Rightarrow> 'b) \<Rightarrow> ('w, 'a) act \<Rightarrow> ('w, 'b) act" where
  "new_driver T f = bind_act f (\<lambda>x. ok (T x))"

definition driver_create :: "('p, 'v, 'f, 'w) systems \<Rightarrow> string \<Rightarrow> opt \<Rightarrow>
    ('w, ('p, 'v, 'f) driver) act" where
  "driver_create S name args =
     (let F = sys_conv S; serial = (\<lambda>p. new_driver Driver_serial (preset_create p (sys_serial S) F args)) in
      if name = ''test'' then ok (Driver_test [])
      else if name = ''spp'' then new_driver Driver_spp (spp_create (sys_filter S) F args)
      else if name = ''usbtmc'' then new_driver Driver_usbtmc (usbtmc_create (sys_usbtmc S) F args)
      else if name = ''serial'' then new_driver Driver_serial (serial_create (sys_serial S) F args)
      else if name = ''serial_asm340'' then serial asm340_opts
      else if name = ''serial_l300'' then serial l300_opts
      else if name = ''serial_vs_ld'' then serial vs_ld_opts
      else if name = ''serial_tenma_ps'' then serial tenma_ps_opts
      else if name = ''serial_et'' then serial et_opts
      else if name = ''serial_simple'' then serial simple_opts
      else if name = ''net'' then new_driver Driver_net (net_create (sys_net S) F args)
      else if name = ''net_gpib_prologix''
      then new_driver Driver_net_gpib_prologix (prologix_create (sys_net S) F args)
      else if name = ''serial_hm310t''
      then new_driver Driver_serial_hm310t (hm310t_create (sys_serial S) F args)
      else if name = ''serial_jds6600'' then serial jds6600_opts
      else if name = ''gpib'' \<and> sys_gpib S \<noteq> None
      then new_driver Driver_gpib (gpib_create (the (sys_gpib S)) F args)
      else if name = ''vxi'' \<and> sys_vxi S \<noteq> None
      then new_driver Driver_vxi (vxi_create (the (sys_vxi S)) F args)
      else throw (''unknown driver: '' @ name))"

text \<open>
  The virtual functions. A driver of a library the program was built without does not exist;
  the functions are total and call such an object undefined.
\<close>

definition keep :: "('a \<Rightarrow> 'b) \<Rightarrow> 'a \<Rightarrow> ('w, 'r) act \<Rightarrow> 'w \<Rightarrow> 'r result \<times> ('b \<times> 'w)" where
  "keep T x f w = (case f w of (r, w') \<Rightarrow> (r, (T x, w')))"

definition driver_ask :: "('p, 'v, 'f, 'w) systems \<Rightarrow> string \<Rightarrow>
    (('p, 'v, 'f) driver \<times> 'w, string) act" where
  "driver_ask S msg = (\<lambda>(d, w). let F = sys_conv S in case d of
      Driver_test m \<Rightarrow> (case test_ask msg m of (r, m') \<Rightarrow> (r, (Driver_test m', w)))
    | Driver_spp x \<Rightarrow> keep Driver_spp x (spp_ask (sys_filter S) x msg) w
    | Driver_usbtmc x \<Rightarrow> keep Driver_usbtmc x (usbtmc_ask (sys_usbtmc S) F x msg) w
    | Driver_serial x \<Rightarrow> keep Driver_serial x (serial_ask (sys_serial S) F x msg) w
    | Driver_net x \<Rightarrow> keep Driver_net x (net_ask (sys_net S) F x msg) w
    | Driver_net_gpib_prologix x \<Rightarrow>
        keep Driver_net_gpib_prologix x (prologix_ask (sys_net S) F x msg) w
    | Driver_serial_hm310t x \<Rightarrow>
        (case hm310t_ask (sys_serial S) F (sys_words S) msg (x, w) of
           (r, (x', w')) \<Rightarrow> (r, (Driver_serial_hm310t x', w')))
    | Driver_gpib x \<Rightarrow> (case sys_gpib S of None \<Rightarrow> (Inl UB, (d, w))
        | Some I \<Rightarrow> keep Driver_gpib x (gpib_ask I F x msg) w)
    | Driver_vxi x \<Rightarrow> (case sys_vxi S of None \<Rightarrow> (Inl UB, (d, w))
        | Some I \<Rightarrow> keep Driver_vxi x (vxi_ask I F x msg) w))"

definition driver_destroy :: "('p, 'v, 'f, 'w) systems \<Rightarrow> ('p, 'v, 'f) driver \<Rightarrow> 'w \<Rightarrow> 'w" where
  "driver_destroy S d w = (case d of
      Driver_test m \<Rightarrow> w
    | Driver_spp x \<Rightarrow> spp_destroy (sys_filter S) x w
    | Driver_usbtmc x \<Rightarrow> usbtmc_destroy (sys_usbtmc S) x w
    | Driver_serial x \<Rightarrow> serial_destroy (sys_serial S) x w
    | Driver_net x \<Rightarrow> net_destroy (sys_net S) x w
    | Driver_net_gpib_prologix x \<Rightarrow> net_destroy (sys_net S) (p_net x) w
    | Driver_serial_hm310t x \<Rightarrow> serial_destroy (sys_serial S) (h_serial x) w
    | Driver_gpib x \<Rightarrow> (case sys_gpib S of None \<Rightarrow> w | Some I \<Rightarrow> gpib_destroy I x w)
    | Driver_vxi x \<Rightarrow> (case sys_vxi S of None \<Rightarrow> w | Some I \<Rightarrow> vxi_delete I (v_dev x) w))"

definition driver_vtable :: "('p, 'v, 'f, 'w) systems \<Rightarrow> (('p, 'v, 'f) driver, 'w) vtable" where
  "driver_vtable S =
     \<lparr>vt_create = driver_create S, vt_ask = driver_ask S, vt_destroy = driver_destroy S\<rparr>"

end
