(* ===== verification/Driver_Inv.thy ===== *)
theory Driver_Inv
  imports Manager_Run
begin

text \<open>
  What holds of every driver object a manager owns. The devices only make driver objects with
  \<^verbatim>\<open>Driver::create\<close> and change them with \<^verbatim>\<open>ask\<close>; a property of the objects that the first
  gives and the second keeps is therefore a property of every open device, after any history.
\<close>

locale driver_invariant =
  fixes V :: "('d, 'w) vtable" and P :: "string \<Rightarrow> 'd \<Rightarrow> bool"
  assumes create_gives: "vt_create V n a w = (Inr x, w') \<Longrightarrow> P n x"
    and ask_keeps: "P n x \<Longrightarrow> vt_ask V m (x, w) = (r, (x', w')) \<Longrightarrow> P n x'"
begin

definition dev_ok :: "'d device \<Rightarrow> bool" where
  "dev_ok d \<longleftrightarrow> (\<forall>x. drv d = Some x \<longrightarrow> P (drv_name d) x)"

lemma dev_ok_same: "drv d' = drv d \<Longrightarrow> same_conf d d' \<Longrightarrow> dev_ok d \<Longrightarrow> dev_ok d'"
  by (simp add: dev_ok_def same_conf_def)

lemma use_ok: "dev_use V c (d, w) = (r, (d', w')) \<Longrightarrow> dev_ok d \<Longrightarrow> dev_ok d'"
  by (drule dev_use_cases) (elim disjE conjE exE; auto simp: dev_ok_def dest: create_gives)

lemma use_or_not_ok:
  "if c \<in> users d then d1 = d \<and> w1 = w else dev_use V c (d, w) = (Inr (), (d1, w1)) \<Longrightarrow>
     dev_ok d \<Longrightarrow> dev_ok d1"
  using use_ok by (metis (full_types))

lemma lock_ok:
  assumes "dev_lock V c (d, w) = (r, (d', w'))" and "dev_ok d"
  shows "dev_ok d'"
  using assms(1)
proof (cases rule: dev_lock_cases)
  case (fail e)
  show ?thesis by (rule use_ok [OF fail(2) assms(2)])
next
  case (busy d1)
  have "dev_ok d1" by (rule use_or_not_ok [OF busy(1) assms(2)])
  then show ?thesis using busy(3) by simp
next
  case (acquired d1)
  have "dev_ok d1" by (rule use_or_not_ok [OF acquired(1) assms(2)])
  then show ?thesis using acquired(3) by (simp add: dev_ok_def)
qed

lemma call_ok: "drv_call V m (d, w) = (r, (d', w')) \<Longrightarrow> dev_ok d \<Longrightarrow> dev_ok d'"
  by (drule drv_call_cases) (auto simp: dev_ok_def intro: ask_keeps)

lemma log_ok: "dev_ok d \<Longrightarrow> dev_ok (log_message p m d)"
  by (simp add: dev_ok_def)

lemma logged_ok:
  assumes "ask_logged V m (d, w) = (r, (d', w'))" and "dev_ok d"
  shows "dev_ok d'"
  using assms(1)
proof (cases rule: ask_logged_split)
  case plain
  show ?thesis by (rule call_ok [OF plain(2) assms(2)])
next
  case (logged d1)
  have "dev_ok d1" by (rule call_ok [OF logged(2)]) (rule log_ok [OF assms(2)])
  then show ?thesis using logged(3) log_ok by (auto split: sum.splits exn.splits)
qed

lemma ask_ok:
  assumes "dev_ask V c m (d, w) = (r, (d', w'))" and "dev_ok d"
  shows "dev_ok d'"
  using assms(1)
proof (cases rule: dev_ask_split)
  case (refused e)
  show ?thesis by (rule use_ok [OF refused(2) assms(2)])
next
  case (asked d1 w1)
  show ?thesis by (rule logged_ok [OF asked(2)]) (rule use_or_not_ok [OF asked(1) assms(2)])
qed

lemma release_ok: "dev_ok d \<Longrightarrow> dev_ok (dev_release c d)"
  by (rule dev_ok_same [of "dev_release c d" d]) (simp_all add: dev_release_conf)

lemma exec_ok:
  assumes "dev_exec V a c (d, w) = (r, (d', w'))" and "dev_ok d"
  shows "dev_ok d'"
proof (cases a)
  case Use
  with assms(1) obtain q where "dev_use V c (d, w) = (q, (d', w'))"
    by (auto simp: dev_exec_def dest: void_state)
  then show ?thesis using assms(2) by (rule use_ok)
next
  case Lock
  with assms(1) obtain q where "dev_lock V c (d, w) = (q, (d', w'))"
    by (auto simp: dev_exec_def dest: void_state)
  then show ?thesis using assms(2) by (rule lock_ok)
next
  case (Ask m)
  with assms(1) have "dev_ask V c m (d, w) = (r, (d', w'))" by (simp add: dev_exec_def)
  then show ?thesis using assms(2) by (rule ask_ok)
next
  case Unlock
  with assms(1) obtain q where "dev_unlock c d = (q, d')"
    by (auto simp: dev_exec_def local_def split: prod.splits dest: void_state)
  then show ?thesis using assms(2) dev_unlock_conf dev_ok_same by metis
next
  case Release
  with assms show ?thesis by (auto simp: dev_exec_def quiet_def intro: release_ok)
next
  case Close
  with assms(1) show ?thesis by (auto simp: dev_exec_def dev_close_def dev_ok_def)
next
  case LogGet
  with assms(1) obtain q where "dev_log_get c d = (q, d')"
    by (auto simp: dev_exec_def local_def split: prod.splits)
  with assms(2) show ?thesis by (auto simp: dev_log_get_def dev_ok_def split: option.splits prod.splits)
qed (use assms in \<open>auto simp: dev_exec_def quiet_def dev_log_start_def dev_log_finish_def dev_ok_def\<close>)

definition dm_ok :: "('d, 'w) manager \<Rightarrow> bool" where
  "dm_ok dm \<longleftrightarrow> (\<forall>k d. sm_find (devices dm) k = Some d \<longrightarrow> dev_ok d)"

lemma release_each_ok: "dm_ok dm \<Longrightarrow> dm_ok (release_each c dm)"
  by (auto simp: dm_ok_def release_each_def intro: release_ok)

lemma conf_ok:
  assumes "read_conf E dm = (r, dm')" and "dm_ok dm"
  shows "dm_ok dm'"
  using assms(1)
proof (cases rule: read_conf_cases)
  case (loaded ret)
  have "dev_ok d" if "sm_find ret k = Some d" for k d
    using fresh_device [OF loaded(2) that, of "{}"] by (simp add: dev_ok_def)
  then show ?thesis using loaded(3) by (simp add: dm_ok_def)
qed (use assms(2) in simp)

lemma run_ok:
  assumes "dm_run E url c dm = (r, dm')" and "drivers E = V" and "smap_ok (devices dm)" and "dm_ok dm"
  shows "dm_ok dm'"
proof (cases "device_action (parse_url url ! 0) (parse_url url ! 2)")
  case (Some a)
  from assms(1,2) have "with_device url (parse_url url ! 1) (dev_exec V a c) dm = (r, dm')"
    by (simp add: dm_run_device [OF Some])
  then show ?thesis
  proof (cases rule: with_device_cases)
    case (run d d' w')
    have "dev_ok d" using assms(4) run(2) by (simp add: dm_ok_def)
    with exec_ok [OF run(3)] have "dev_ok d'" .
    with assms(3,4) run(4) show ?thesis by (simp add: dm_ok_def smap.look_put)
  qed (use assms(4) in simp_all)
next
  case None
  show ?thesis
  proof (cases "parse_url url ! 0 = ''reload''")
    case True
    obtain q dm1 where q: "read_conf E dm = (q, dm1)" by fastforce
    have "dm_run E url c dm = bind_act (read_conf E) (\<lambda>_ dm. (Inr (''Device configuration reloaded: '' @
        dec (length (devices dm)) @ '' devices''), dm)) dm"
      using True by (simp add: dm_run_defs Let_def)
    with assms(1) q have "dm' = dm1" by (auto simp: bind_act_def split: sum.splits)
    with conf_ok [OF q assms(4)] show ?thesis by simp
  next
    case False
    from dm_run_find [OF None False assms(1)] release_each_ok [OF assms(4), of c] assms(4)
    show ?thesis by (auto simp: dm_ok_def)
  qed
qed

lemma event_ok:
  assumes "drivers E = V" and "dm_inv dm" and "dm_ok dm"
  shows "dm_ok (event_step E ev dm)"
proof (cases ev)
  case (Connect c)
  with assms(3) show ?thesis by (simp add: event_step_def conn_open_def dm_ok_def)
next
  case (Request c url)
  obtain r dm' where "dm_run E url c dm = (r, dm')" by fastforce
  with Request run_ok [OF this assms(1) _ assms(3)] assms(2) show ?thesis
    by (simp add: event_step_def dm_inv_def)
next
  case (Disconnect c)
  with release_each_ok [OF assms(3), of c] show ?thesis
    by (simp add: event_step_def conn_close_def Let_def dm_ok_def)
qed

lemma history_ok:
  assumes "drivers E = V" and "valid_history (open_conns dm) evs" and "dm_inv dm" and "dm_ok dm"
  shows "dm_ok (fold (event_step E) evs dm)"
  using assms(2-4)
proof (induction evs arbitrary: dm)
  case (Cons ev evs)
  have one: "valid_history (open_conns dm) [ev]" using Cons.prems(1) by (cases ev) auto
  note step = event_step_inv [OF Cons.prems(2) one, of E]
  have "valid_history (open_conns (event_step E ev dm)) evs"
    using step Cons.prems(1) by (cases ev) auto
  with Cons.IH [of "event_step E ev dm"] step event_ok [OF assms(1) Cons.prems(2,3)]
  show ?case by simp
qed simp

lemma start_ok: "dm_ok (new_manager E f w)"
  unfolding new_manager_def
  by (rule conf_ok [OF prod.collapse [symmetric]]) (simp add: dm_ok_def)

end

end
