(* ===== verification/Drv_Types.thy ===== *)
theory Drv_Types
  imports Drv_Create Driver_Inv
begin

text \<open>
  \<^verbatim>\<open>Driver::create\<close> below the device manager: the object behind the pointer of a device is
  always of the class its configured name stands for, so that no virtual call is made on an
  object of a library the program was built without.
\<close>

text \<open>The names in the table, class by class.\<close>

fun names_of :: "('p, 'v, 'f) driver \<Rightarrow> string list" where
  "names_of (Driver_test m) = [''test'']"
| "names_of (Driver_spp x) = [''spp'']"
| "names_of (Driver_usbtmc x) = [''usbtmc'']"
| "names_of (Driver_serial x) = [''serial'', ''serial_asm340'', ''serial_l300'', ''serial_vs_ld'',
     ''serial_tenma_ps'', ''serial_et'', ''serial_simple'', ''serial_jds6600'']"
| "names_of (Driver_net x) = [''net'']"
| "names_of (Driver_net_gpib_prologix x) = [''net_gpib_prologix'']"
| "names_of (Driver_serial_hm310t x) = [''serial_hm310t'']"
| "names_of (Driver_gpib x) = [''gpib'']"
| "names_of (Driver_vxi x) = [''vxi'']"

fun built :: "('p, 'v, 'f, 'w) systems \<Rightarrow> ('p, 'v, 'f) driver \<Rightarrow> bool" where
  "built S (Driver_gpib x) = (sys_gpib S \<noteq> None)"
| "built S (Driver_vxi x) = (sys_vxi S \<noteq> None)"
| "built S d = True"

definition typed :: "('p, 'v, 'f, 'w) systems \<Rightarrow> string \<Rightarrow> ('p, 'v, 'f) driver \<Rightarrow> bool" where
  "typed S n d \<longleftrightarrow> n \<in> set (names_of d) \<and> built S d"

lemma new_driver_Inr:
  "new_driver T f w = (Inr d, w') \<longleftrightarrow> (\<exists>x. f w = (Inr x, w') \<and> d = T x)"
  by (auto simp: new_driver_def bind_act_def split: prod.splits sum.splits)

lemma driver_create_typed: "driver_create S n args w = (Inr d, w') \<Longrightarrow> typed S n d"
  unfolding driver_create_def Let_def typed_def
  by (elim HOL.if_split_asm [THEN iffD1, elim_format]) (auto simp: new_driver_Inr split: if_splits)

lemma driver_ask_class:
  assumes "driver_ask S m (d, w) = (r, (d', w'))"
  shows "names_of d' = names_of d \<and> built S d' = built S d"
  using assms
  by (cases d) (auto simp: driver_ask_def keep_def Let_def split: prod.splits option.splits)

interpretation types: driver_invariant "driver_vtable S" "typed S" for S
proof unfold_locales
  show "vt_create (driver_vtable S) n a w = (Inr x, w') \<Longrightarrow> typed S n x" for n a w x w'
    by (simp add: driver_vtable_def driver_create_typed)
  show "typed S n x \<Longrightarrow> vt_ask (driver_vtable S) m (x, w) = (r, (x', w')) \<Longrightarrow> typed S n x'"
    for n x m w r x' w'
    by (auto simp: driver_vtable_def typed_def dest: driver_ask_class)
qed


text \<open>An outside world that counts its events, for the witnesses.\<close>

definition quiet_os :: "nat os" where
  "quiet_os = \<lparr>os_open = (\<lambda>p fl w. (Inr 3, Suc w)), os_close = (\<lambda>fd w. Suc w),
     os_read = (\<lambda>fd n w. (Inr [], w)), os_write = (\<lambda>fd s w. (Inr (length s), Suc w)),
     os_usleep = (\<lambda>t w. w), strerror = dec\<rparr>"

definition quiet_systems :: "(nat, unit, nat, nat) systems" where
  "quiet_systems =
     \<lparr>sys_conv = digit_conv, sys_words = (\<lambda>s. Inr []),
      sys_filter = \<lparr>flt_new = (\<lambda>p w. (Inr 0, w)), flt_getline = (\<lambda>p t w. (Inr (-1, []), w)),
        flt_put = (\<lambda>p s w. w), flt_close_input = (\<lambda>p w. w), flt_term = (\<lambda>p t w. w)\<rparr>,
      sys_serial = os.extend quiet_os (serial_os.fields (\<lambda>fd fl w. (Inr (), w))
        (\<lambda>fd w. (Inl 1, w)) (\<lambda>fd t w. (Inr (), w)) (\<lambda>fd w. w) (\<lambda>b t. t) (\<lambda>b t. t) (\<lambda>b t. t)),
      sys_net = os.extend quiet_os (net_os.fields (\<lambda>a p w. (Inr [], w)) dec (\<lambda>p w. (Inl 1, w))
        (\<lambda>s p w. (Inl 1, w)) (\<lambda>fd s n w. (Inr 0, w)) (\<lambda>fd n w. (Inr [], w)) (\<lambda>fd s w. (Inr 0, w))),
      sys_usbtmc = os.extend quiet_os (usbtmc_os.fields (\<lambda>fd w. (Inr (), w)) (\<lambda>fd t w. (Inr (), w))
        (\<lambda>fd c w. (Inr (), w)) (\<lambda>fd w. (Inr 0, w))),
      sys_gpib = None, sys_vxi = None\<rparr>"

definition quiet_env :: "((nat, unit, nat) driver, nat) env" where
  "quiet_env = \<lparr>drivers = driver_vtable quiet_systems,
     conf_file = (\<lambda>f w. Some [Words 1 [''a'', ''test''], Words 2 []]), clock = (\<lambda>w. (w, 0))\<rparr>"

lemma quiet_device:
  "sm_find (devices (fold (event_step quiet_env) [Connect 1, Request 1 ''/use/a''] (new_manager quiet_env f w))) ''a'' =
     Some ((new_device ''a'' ''test'' [])\<lparr>drv := Some (Driver_test []), users := {1}\<rparr>)"
proof -
  have url: "parse_url ''/use/a'' = [''use'', ''a'', []]"
    using parse_url_parts2 [of "''use''" "''a''"] by (simp add: npos_def)
  have m: "new_manager quiet_env f w = \<lparr>devices = [(''a'', new_device ''a'' ''test'' [])],
      conn_names = [], devfile = f, world = w\<rparr>"
    by (simp add: new_manager_def read_conf_def quiet_env_def conf_line_def bad_dev_name_def c_str_def
        sm_has_def sm_each_def Let_def cong: sum.case_cong)
  show ?thesis unfolding m
    by (simp add: event_step_def conn_open_def set_conn_name_def Let_def dm_run_defs url with_device_def
        sm_find_def void_def bind_act_def dev_use_def new_device_def quiet_env_def driver_vtable_def
        driver_create_def)
qed


end
