(* ===== verification/Device_Ping.thy ===== *)
theory Device_Ping
  imports Drv_Types
begin

text \<open>
  \<^verbatim>\<open>server/device_ping.cpp\<close>: a program that opens one device without a server and asks it one
  message. \<^verbatim>\<open>unquote_words\<close> of the submodule and the two output streams are parameters.
\<close>

record 'w console =
  con_out :: "string \<Rightarrow> 'w \<Rightarrow> 'w"
  con_err :: "string \<Rightarrow> 'w \<Rightarrow> 'w"

text \<open>The help message, after which an exception with an empty message is thrown.\<close>

definition ping_help :: string where
  "ping_help = ''device_ping -- '' @
     ''directly open a device (bypassing server), send message and get answer.'' @ nl @
     ''Usage: device_ping <driver> [<driver options>] -- <msg>'' @ nl @ nl @
     ''This program should be used for test/autodetect scripts (e.g. in udev rules).'' @ nl @
     ''Homepage, documentation: https://github.com/slazav/device2'' @ nl @
     ''V.Zavjalov, 2025, vl dot zavjalov at gmail dot com'' @ nl"

definition ping_usage :: "'w console \<Rightarrow> ('w, 'a) act" where
  "ping_usage K = (\<lambda>w. (Inl (Err []), con_out K ping_help w))"

text \<open>The options: what is left of the arguments is where the loop stopped.\<close>

fun ping_opts :: "(string \<Rightarrow> string result) \<Rightarrow> string list \<Rightarrow> opt \<Rightarrow> (opt \<times> string list) result" where
  "ping_opts U (a # v # b # r) opts =
     (if a = ''--'' then Inr (opts, a # v # b # r)
      else if length a < 2 \<or> a ! 0 \<noteq> CHR ''-''
      then Inl (Err (''parameter name should be prefixed with \"-\" and contain at least one character: '' @ a))
      else bind_res (U v) (\<lambda>u. ping_opts U (b # r) (opt_put (drop 1 a) u opts)))"
| "ping_opts U args opts = Inr (opts, args)"

definition join_space :: "string list \<Rightarrow> string" where
  "join_space ws = foldl (\<lambda>m w. m @ '' '' @ w) (hd ws) (tl ws)"

definition ping_args :: "(string \<Rightarrow> string result) \<Rightarrow> string list \<Rightarrow> (string \<times> opt \<times> string) result" where
  "ping_args U args =
     bind_res (ping_opts U (tl args) []) (\<lambda>(opts, rest).
        if rest = [] \<or> hd rest \<noteq> ''--''
        then Inl (Err ''driver options should contain -<name> <value> pairs followed by -- and '')
        else if length rest < 2 then Inl (Err ''empty message'')
        else Inr (hd args, opts, join_space (tl rest)))"

text \<open>The device lives until its block is left, also by an exception.\<close>

definition ping_device :: "('d, 'w) vtable \<Rightarrow> 'w console \<Rightarrow> string \<times> opt \<times> string \<Rightarrow> ('w, unit) act" where
  "ping_device V K = (\<lambda>(name, opts, msg) w. case dev_ask V 0 msg (new_device [] name opts, w) of
      (Inr a, (d, w1)) \<Rightarrow> (Inr (), drop_device V (con_out K (a @ nl) w1) d)
    | (Inl e, (d, w1)) \<Rightarrow> (Inl e, drop_device V w1 d))"

definition ping_main :: "('d, 'w) vtable \<Rightarrow> (string \<Rightarrow> string result) \<Rightarrow> 'w console \<Rightarrow> string list \<Rightarrow>
    ('w, nat) act" where
  "ping_main V U K args = (\<lambda>w.
     case (if args = [] then ping_usage K else bind_act (lift_res (ping_args U args)) (ping_device V K)) w of
      (Inr u, w1) \<Rightarrow> (Inr 0, w1)
    | (Inl (Err e), w1) \<Rightarrow> (Inr 1, if e \<noteq> [] then con_err K (''Error: '' @ e @ nl) w1 else w1)
    | (Inl x, w1) \<Rightarrow> (Inl x, w1))"

section \<open>What the program does\<close>

text \<open>A command line is a driver, options with their values as written and as meant, and words.\<close>

definition ping_line :: "string \<Rightarrow> (string \<times> string \<times> string) list \<Rightarrow> string list \<Rightarrow> string list" where
  "ping_line name ps ws = name # concat (map (\<lambda>(k, raw, u). [''-'' @ k, raw]) ps) @ ''--'' # ws"

definition options_of :: "(string \<times> string \<times> string) list \<Rightarrow> opt \<Rightarrow> opt" where
  "options_of ps opts = foldl (\<lambda>m (k, raw, u). opt_put k u m) opts ps"

lemma ping_opts_line:
  assumes "\<forall>(k, raw, u) \<in> set ps. k \<noteq> [] \<and> k \<noteq> ''-'' \<and> U raw = Inr u"
  shows "ping_opts U (concat (map (\<lambda>(k, raw, u). [''-'' @ k, raw]) ps) @ ''--'' # ws) opts =
    Inr (options_of ps opts, ''--'' # ws)"
  using assms
proof (induction ps arbitrary: opts)
  case Nil
  then show ?case by (cases ws; cases "tl ws") (auto simp: options_of_def neq_Nil_conv)
next
  case (Cons p ps)
  obtain k raw u where p: "p = (k, raw, u)" by (metis prod.exhaust)
  let ?rest = "concat (map (\<lambda>(k, raw, u). [''-'' @ k, raw]) ps) @ ''--'' # ws"
  obtain b r where rest: "?rest = b # r" by (cases ?rest) simp_all
  have "k \<noteq> []" "k \<noteq> ''-''" "U raw = Inr u" using Cons.prems p by simp_all
  then have "ping_opts U ((''-'' @ k) # raw # b # r) opts = ping_opts U ?rest (opt_put k u opts)"
    unfolding rest by simp
  with Cons p rest show ?case by (simp add: options_of_def)
qed

text \<open>
  C39. \<^verbatim>\<open>device_ping\<close> is the driver without the server: for a well-formed command line it creates
  the driver with exactly the given options, sends the words joined by spaces, prints the answer,
  and destroys the driver, also when the driver throws; the exit status says which.
\<close>

theorem ping_asks_driver:
  assumes "\<forall>(k, raw, u) \<in> set ps. k \<noteq> [] \<and> k \<noteq> ''-'' \<and> U raw = Inr u" and "ws \<noteq> []"
    and "vt_create V name (options_of ps []) w = (Inr x, w1)"
    and "vt_ask V (join_space ws) (x, w1) = (r, (x', w2))" and "r \<notin> {Inl UB, Inl Hang, Inl (Err [])}"
  shows "ping_main V U K (ping_line name ps ws) w =
    (case r of Inr a \<Rightarrow> (Inr 0, vt_destroy V x' (con_out K (a @ nl) w2))
     | Inl e \<Rightarrow> (Inr 1, con_err K (''Error: '' @ err_str e @ nl) (vt_destroy V x' w2)))"
proof -
  have args: "ping_args U (ping_line name ps ws) = Inr (name, options_of ps [], join_space ws)"
    using ping_opts_line [OF assms(1)] assms(2) by (simp add: ping_args_def ping_line_def Suc_le_eq)
  have ne: "ping_line name ps ws \<noteq> []" by (simp add: ping_line_def)
  let ?d = "new_device [] name (options_of ps []) :: 'a device"
  obtain d where ask: "dev_ask V 0 (join_space ws) (?d, w) = (r, (d, w2))" "drv d = Some x'"
    using assms(3,4) by (simp add: dev_ask_def dev_use_def new_device_def ask_logged_def drv_call_def)
  then show ?thesis
    using assms(5) ne by (cases r; simp add: ping_main_def args ping_device_def drop_device_def)
      (rename_tac e, case_tac e; simp)
qed

theorem ping_asks_driver_witness:
  "ping_main test_vtable (\<lambda>s. Inr s) \<lparr>con_out = (\<lambda>s w. w + length s), con_err = (\<lambda>s w. w)\<rparr>
     (ping_line ''test'' [(''addr'', ''7'', ''7'')] [''*idn?'', ''x'']) 3 = (Inr 0, 11)"
  by (subst ping_asks_driver [where x = "[]" and r = "Inr ''*idn? x''" and x' = "''*idn? x''" and ?w1.0 = 4 and ?w2.0 = 4])
    (simp_all add: test_vtable_def join_space_def nl_def)

end
