(* ===== verification/Client.thy ===== *)
theory Client
  imports Os Getopt
begin

text \<open>
  \<^verbatim>\<open>server/device_c.cpp\<close> and \<^verbatim>\<open>server/tun.cpp\<close>: the client program. libcurl, the standard
  streams, the tunnel command and the functions of the \<^verbatim>\<open>mapsoft2-libs\<close> submodule
  (\<^verbatim>\<open>read_words\<close>, \<^verbatim>\<open>join_words\<close>, \<^verbatim>\<open>read_conf\<close>, the option parser, the help printer) are the
  parameter \<open>client_sys\<close>; the table of options and the help text are in \<open>Getopt\<close>.
\<close>

record 'w client_sys = "'w os" +
  url_escape :: "string \<Rightarrow> string option"             \<comment> \<open>\<^verbatim>\<open>curl_easy_escape\<close>; \<open>None\<close> is a null pointer\<close>
  http_get :: "string \<Rightarrow> 'w \<Rightarrow> (string + nat \<times> string list) \<times> 'w"
      \<comment> \<open>\<^verbatim>\<open>curl_easy_perform\<close>: an error, or the status and the blocks given to the callback\<close>
  in_good :: "'w \<Rightarrow> bool"                              \<comment> \<open>the state of the input stream\<close>
  in_words :: "('w, string list) act"                  \<comment> \<open>\<^verbatim>\<open>read_words\<close>\<close>
  join_words :: "string list \<Rightarrow> string"
  out :: "string \<Rightarrow> 'w \<Rightarrow> 'w"
  err_out :: "string \<Rightarrow> 'w \<Rightarrow> 'w"
  client_conf :: "string \<Rightarrow> string list \<Rightarrow> ('w, opt) act"  \<comment> \<open>\<^verbatim>\<open>read_conf\<close>\<close>
  client_parse :: "getopt_el list \<Rightarrow> string list \<Rightarrow> (opt \<times> string list) result"  \<comment> \<open>\<^verbatim>\<open>parse_options\<close>\<close>
  client_print :: "bool \<Rightarrow> getopt_el list \<Rightarrow> string \<Rightarrow> help_item list \<Rightarrow> 'w \<Rightarrow> 'w"  \<comment> \<open>\<^verbatim>\<open>HelpPrinter\<close>\<close>
  get_pid :: "'w \<Rightarrow> nat"
  inet_socket :: "('w, nat) sys"
  inet_bind :: "nat \<Rightarrow> 16 word \<Rightarrow> ('w, unit) sys"
  getsockname :: "nat \<Rightarrow> ('w, 16 word) sys"            \<comment> \<open>the port, in network order\<close>
  setenv :: "string \<Rightarrow> string \<Rightarrow> 'w \<Rightarrow> 'w"
  system_cmd :: "string \<Rightarrow> ('w, int) sys"

section \<open>Requests\<close>

text \<open>The callback libcurl hands the blocks of a body to, in their order.\<close>

definition write_cb :: "string \<Rightarrow> string \<Rightarrow> string" where
  "write_cb buffer data = data @ buffer"

lemma write_cb_concat: "fold write_cb bs data = data @ concat bs"
  by (induction bs arbitrary: data) (simp_all add: write_cb_def)

definition dl_get :: "'w client_sys \<Rightarrow> string \<Rightarrow> string \<Rightarrow> string \<Rightarrow> string \<Rightarrow> ('w, string) act" where
  "dl_get C server act dev cmd = (\<lambda>w.
     case url_escape C act of None \<Rightarrow> (Inl UB, w)
     | Some eact \<Rightarrow>
       let url1 = server @ ''/'' @ eact;
           url2 = (if dev = [] then Some url1 else map_option (\<lambda>edev. url1 @ ''/'' @ edev) (url_escape C dev));
           url3 = (if cmd = [] then url2
                   else case url2 of None \<Rightarrow> None
                     | Some u \<Rightarrow> map_option (\<lambda>ecmd. u @ ''/'' @ ecmd) (url_escape C cmd))
       in case url3 of None \<Rightarrow> (Inl UB, w)
          | Some url \<Rightarrow>
              (case http_get C (c_str url) w of
                 (Inl e, w1) \<Rightarrow> (Inl (Err e), w1)
               | (Inr (code, blocks), w1) \<Rightarrow> let data = fold write_cb blocks [] in
                   if code \<noteq> 200 then (Inl (Err data), w1) else (Inr data, w1)))"

definition puts :: "'w client_sys \<Rightarrow> string \<Rightarrow> ('w, unit) act" where
  "puts C s = (\<lambda>w. (Inr (), out C s w))"

definition report :: "'w client_sys \<Rightarrow> string \<Rightarrow> 'w \<Rightarrow> 'w" where
  "report C e w = (if e \<noteq> [] then out C (''#Error: '' @ e @ nl) w else w)"

section \<open>The two SPP sessions\<close>

text \<open>What an answer looks like on the output.\<close>

definition answer_block :: "string \<Rightarrow> string" where
  "answer_block a = a @ nl @ ''#OK'' @ nl"

text \<open>
  The loop of both: \<open>body\<close> answers the words of one command. It ends with the input, and it
  goes on for ever if the input does.
\<close>

partial_function (option) cmd_loop :: "'w client_sys \<Rightarrow> (string list \<Rightarrow> ('w, string) act) \<Rightarrow> 'w \<Rightarrow>
    (unit result \<times> 'w) option" where
  "cmd_loop C body w =
     (if \<not> in_good C w then Some (Inr (), w)
      else case bind_act (in_words C) (\<lambda>pars. if pars = [] then ok None
                   else bind_act (body pars) (\<lambda>a. ok (Some a))) w of
        (Inr None, w1) \<Rightarrow> Some (Inr (), w1)
      | (Inr (Some a), w1) \<Rightarrow> cmd_loop C body (out C (answer_block a) w1)
      | (Inl e, w1) \<Rightarrow> (case e of Err m \<Rightarrow> cmd_loop C body (report C m w1)
          | UB \<Rightarrow> Some (Inl UB, w1) | Hang \<Rightarrow> Some (Inl Hang, w1)))"

text \<open>What is common around the loop: the header is out, \<open>opening\<close> prepares the session.\<close>

definition spp_session :: "'w client_sys \<Rightarrow> string \<Rightarrow> ('w, unit) act \<Rightarrow>
    (string list \<Rightarrow> ('w, string) act) \<Rightarrow> ('w, unit) act" where
  "spp_session C server opening body = (\<lambda>w.
     case bind_act opening (\<lambda>_. bind_act (puts C (''#OK'' @ nl)) (\<lambda>_. or_hang (cmd_loop C body))) w of
       (Inl (Err e), w1) \<Rightarrow> (Inr (), report C e w1)
     | (Inl x, w1) \<Rightarrow> (Inl x, w1)
     | (Inr (), w1) \<Rightarrow> bind_act (dl_get C server ''release_all'' [] []) (\<lambda>_. ok ()) w1)"

definition use_dev :: "'w client_sys \<Rightarrow> string \<Rightarrow> string \<Rightarrow> bool \<Rightarrow> string \<Rightarrow> ('w, unit) act" where
  "use_dev C server dev lk name =
     bind_act (puts C (''#SPP001'' @ nl @ ''Server: '' @ server @ nl @ ''Device: '' @ dev @ nl)) (\<lambda>_.
     spp_session C server
       (bind_act (dl_get C server ''use'' dev []) (\<lambda>_.
        bind_act (if name \<noteq> [] then dl_get C server ''set_conn_name'' name [] else ok []) (\<lambda>_.
        bind_act (if lk then dl_get C server ''lock'' dev [] else ok []) (\<lambda>_. ok ()))))
       (\<lambda>pars. dl_get C server ''ask'' dev (join_words C pars)))"

text \<open>\<^verbatim>\<open>pars.resize(3)\<close> fills up with empty words.\<close>

definition use_srv :: "'w client_sys \<Rightarrow> string \<Rightarrow> ('w, unit) act" where
  "use_srv C server =
     bind_act (puts C (''#SPP001'' @ nl @ ''Server: '' @ server @ nl)) (\<lambda>_.
     spp_session C server (bind_act (dl_get C server ''ping'' [] []) (\<lambda>_. ok ()))
       (\<lambda>pars. if 3 < length pars then throw ''too many arguments''
          else let ps = pars @ replicate (3 - length pars) [] in
            dl_get C server (ps ! 0) (ps ! 1) (ps ! 2)))"

text \<open>The monitor runs until a request fails.\<close>

partial_function (option) monitor_loop :: "'w client_sys \<Rightarrow> string \<Rightarrow> string \<Rightarrow> 'w \<Rightarrow>
    (unit result \<times> 'w) option" where
  "monitor_loop C server dev w =
     (case dl_get C server ''log_get'' dev [] w of
        (Inl e, w1) \<Rightarrow> Some (Inl e, w1)
      | (Inr a, w1) \<Rightarrow> monitor_loop C server dev (os_usleep C 100000 (out C a w1)))"

definition monitor :: "'w client_sys \<Rightarrow> string \<Rightarrow> string \<Rightarrow> ('w, unit) act" where
  "monitor C server dev =
     bind_act (dl_get C server ''log_start'' dev []) (\<lambda>_. or_hang (monitor_loop C server dev))"

section \<open>The tunnel\<close>

text \<open>From network order to the order of the host, which is the other one.\<close>

definition ntohs :: "16 word \<Rightarrow> 16 word" where
  "ntohs x = or (push_bit 8 x) (drop_bit 8 x)"

definition find_free_port :: "'w client_sys \<Rightarrow> ('w, nat) act" where
  "find_free_port C =
     bind_act (sys_check C ''FindFreePort: unable to create socket: '' (inet_socket C)) (\<lambda>sock.
     bind_act (sys_check C ''FindFreePort: unable find free port: '' (inet_bind C sock 0)) (\<lambda>_.
     bind_act (sys_check C ''FindFreePort: unable to get port number: '' (getsockname C sock)) (\<lambda>p w.
       (Inr (unat (ntohs p)), os_close C sock w))))"

definition create_tunnel :: "'w client_sys \<Rightarrow> 'f conv \<Rightarrow> opt \<Rightarrow> ('w, string) act" where
  "create_tunnel C F opts =
     (let cmd = opt_get opts ''via_cmd''
            ''/usr/bin/ssh -f -L \"$L\":\"$H\":\"$R\" \"$G\" sleep 20'';
          via = opt_get opts ''via'' []; srv = opt_get opts ''server'' ''localhost''
      in bind_act (lift_res (opt_get_as (p_int F) opts ''port'' 8082)) (\<lambda>rport.
         bind_act (find_free_port C) (\<lambda>lport w.
           let env = setenv C ''L'' (dec lport) (setenv C ''R'' (dec_int rport)
                       (setenv C ''H'' (c_str srv) (setenv C ''G'' (c_str via) w)))
           in case system_cmd C (c_str cmd) env of
                (Inl en, w1) \<Rightarrow> (Inl (Err (''can't make -via tunnel: '' @ strerror C en)), w1)
              | (Inr r, w1) \<Rightarrow> if r \<noteq> 0 then (Inl (Err ''can't make -via tunnel''), w1)
                                else (Inr (srv @ '':'' @ dec lport), w1))))"

section \<open>The actions\<close>

definition check_par_count :: "string list \<Rightarrow> nat \<Rightarrow> unit result" where
  "check_par_count pars num =
     (if num < 1 then Inl (Err ''bad usage of check_par_count()'')
      else if num < length pars then Inl (Err (''unexpected parameter for \"'' @ pars ! 0 @
             ''\" action: '' @ pars ! num))
      else if length pars < num then Inl (Err (''not enough parameters for \"'' @ pars ! 0 @ ''\" action''))
      else Inr ())"

text \<open>An action with a fixed number of parameters.\<close>

definition with_pars :: "string list \<Rightarrow> nat \<Rightarrow> ('w, unit) act \<Rightarrow> ('w, unit) act" where
  "with_pars pars n f = bind_act (lift_res (check_par_count pars n)) (\<lambda>_. f)"

text \<open>\<^verbatim>\<open>std::cout << D.get(...) << end\<close>\<close>

definition print_get :: "'w client_sys \<Rightarrow> string \<Rightarrow> string \<Rightarrow> string \<Rightarrow> string \<Rightarrow> ('w, unit) act" where
  "print_get C srv act dev eol = bind_act (dl_get C srv act dev []) (\<lambda>a. puts C (a @ eol))"

definition client_action :: "'w client_sys \<Rightarrow> string \<Rightarrow> bool \<Rightarrow> string \<Rightarrow> string list \<Rightarrow> ('w, unit) act" where
  "client_action C srv lk name pars =
     (let action = pars ! 0; two = with_pars pars 2; one = with_pars pars 1 in
      if action = ''ask'' then
        (if length pars < 3 then throw ''not enough parameters for \"ask\" action''
         else bind_act (dl_get C srv action (pars ! 1) (join_words C (drop 2 pars))) (\<lambda>a.
              bind_act (puts C (a @ nl)) (\<lambda>_.
              bind_act (dl_get C srv ''release'' (pars ! 1) []) (\<lambda>_. ok ()))))
      else if action = ''use_dev'' then two (use_dev C srv (pars ! 1) lk name)
      else if action = ''use_srv'' then one (use_srv C srv)
      else if action = ''list'' \<or> action = ''devices'' then one (print_get C srv action [] [])
      else if action = ''monitor'' then two (monitor C srv (pars ! 1))
      else if action = ''reload'' then one (print_get C srv action [] nl)
      else if action = ''close'' then two (bind_act (dl_get C srv action (pars ! 1) []) (\<lambda>_. ok ()))
      else if action = ''info'' then two (print_get C srv action (pars ! 1) [])
      else if action = ''ping'' then one (bind_act (dl_get C srv action [] []) (\<lambda>ret.
          if ret \<noteq> [] then throw (''wrong response from the server: '' @ ret) else ok ()))
      else if action = ''get_time'' then one (print_get C srv action [] nl)
      else if action = ''get_srv'' then one (puts C (srv @ nl))
      else throw (''unknown action: '' @ action))"

text \<open>The help message goes to the output, then an exception with an empty message is thrown.\<close>

definition client_usage :: "'w client_sys \<Rightarrow> bool \<Rightarrow> ('w, 'a) act" where
  "client_usage C pod = (\<lambda>w. (Inl (Err []), client_print C pod client_options ''device_c'' client_help w))"

text \<open>
  The body of \<^verbatim>\<open>main\<close> after the options are parsed. A server reached through a tunnel has no
  \<^verbatim>\<open>http://\<close> in front.
\<close>

definition client_body :: "'w client_sys \<Rightarrow> 'f conv \<Rightarrow> opt \<Rightarrow> string list \<Rightarrow> ('w, unit) act" where
  "client_body C F opts0 pars =
     (if opt_exists opts0 ''help'' then client_usage C False
      else if opt_exists opts0 ''pod'' then client_usage C True
      else bind_act (client_conf C ''/etc/device2/device_c.cfg'' [''server'', ''port'', ''via'', ''via_cmd'']) (\<lambda>optsf.
        let opts = put_missing_all opts0 optsf; server = opt_get opts ''server'' ''localhost'' in
        bind_act (lift_res (opt_get_as (p_int F) opts ''port'' 8082)) (\<lambda>port w.
          let name = opt_get opts ''name'' (''device_c('' @ dec (get_pid C w) @ '')'') in
          bind_act (if opt_exists opts ''via'' then create_tunnel C F opts
                    else ok (''http://'' @ server @ '':'' @ dec_int port)) (\<lambda>srv.
            if pars = [] then client_usage C False
            else client_action C srv (opt_exists opts ''lock'') name pars) w)))"

definition client_main :: "'w client_sys \<Rightarrow> 'f conv \<Rightarrow> string list \<Rightarrow> ('w, nat) act" where
  "client_main C F argv = (\<lambda>w.
     case bind_act (lift_res (client_parse C client_options argv)) (\<lambda>(opts, pars). client_body C F opts pars) w of
      (Inr (), w1) \<Rightarrow> (Inr 0, w1)
    | (Inl (Err e), w1) \<Rightarrow> (Inr 1, if e \<noteq> [] then err_out C (''Error: '' @ e @ nl) w1 else w1)
    | (Inl x, w1) \<Rightarrow> (Inl x, w1))"

text \<open>
  The option \<^verbatim>\<open>-name\<close> is declared without an argument: a user can choose between the default name
  and \<open>1\<close>, but give no other.
\<close>

lemma client_name_option:
  assumes "getopt_law (client_parse C)" and "client_parse C client_options argv = Inr (opts, pars)"
  shows "opt_get opts ''name'' d \<in> {d, ''1''}"
proof (cases "sm_find opts ''name''")
  case None
  then show ?thesis by (simp add: opt_get_def)
next
  case (Some v)
  with assms obtain o1 where "o1 \<in> set client_options" "go_name o1 = ''name''" "go_args o1 = 0 \<longrightarrow> v = ''1''"
    unfolding getopt_law_def by meson
  then have "v = ''1''" by (auto simp: client_options_def opt_el_def Let_def)
  with Some show ?thesis by (simp add: opt_get_def)
qed

end
