(* ===== verification/Client_Server.thy ===== *)
theory Client_Server
  imports Client Http_Server
begin

text \<open>
  The client and the server together. libcurl carries an escaped URL to the server,
  libmicrohttpd unescapes it and calls \<^verbatim>\<open>ProcessRequest\<close>, and libcurl hands the body of the
  answer to the callback in some blocks; \<open>link\<close> is that way, with the unescaping and the cutting
  as parameters. What the two libraries document is \<open>url_codec\<close>: escaping loses
  nothing, as long as there is no NUL.
\<close>

definition url_codec :: "(string \<Rightarrow> string option) \<Rightarrow> (string \<Rightarrow> string) \<Rightarrow> bool" where
  "url_codec esc unesc \<longleftrightarrow> unesc [] = [] \<and> (\<forall>t. unesc (CHR ''/'' # t) = CHR ''/'' # unesc t) \<and>
     (\<forall>s. CHR 0x00 \<notin> set s \<longrightarrow>
        (\<exists>e. esc s = Some e \<and> CHR 0x00 \<notin> set e \<and> (\<forall>t. unesc (e @ t) = s @ unesc t)))"

definition link :: "('d, 'w) env \<Rightarrow> conn \<Rightarrow> string \<Rightarrow> (string \<Rightarrow> string) \<Rightarrow> (string \<Rightarrow> string list) \<Rightarrow>
    string \<Rightarrow> ('d, 'w) manager \<Rightarrow>
    (string + nat \<times> string list) \<times> ('d, 'w) manager" where
  "link E c srv unesc blk url dm =
     (case serve E c \<lparr>req_method = ''GET'', req_url = unesc (drop (length srv) url), req_args = []\<rparr> [] dm of
        (Response n body h, dm') \<Rightarrow> (Inr (n, blk body), dm')
      | (r, dm') \<Rightarrow> (Inl ''no response'', dm'))"

lemma url_codecE:
  assumes "url_codec esc unesc" and "CHR 0x00 \<notin> set s"
  obtains e where "esc s = Some e" "CHR 0x00 \<notin> set e" "\<And>t. unesc (e @ t) = s @ unesc t"
  using assms unfolding url_codec_def by blast

lemma url_codec_slash:
  "url_codec esc unesc \<Longrightarrow> unesc (CHR ''/'' # t) = CHR ''/'' # unesc t" "url_codec esc unesc \<Longrightarrow> unesc [] = []"
  by (simp_all add: url_codec_def)

lemma c_str_plain: "CHR 0x00 \<notin> set s \<Longrightarrow> c_str s = s"
  by (simp add: c_str_def takeWhile_nosep)

lemma serve_get:
  "serve E c \<lparr>req_method = ''GET'', req_url = url, req_args = []\<rparr> [] m =
    (case dm_run E url c m of
       (Inr msg, m') \<Rightarrow> (Response 200 msg None, m')
     | (Inl (Err e), m') \<Rightarrow> (Response 400 e (Some (c_str e)), m')
     | (Inl x, m') \<Rightarrow> (Crash x, m'))"
  by (simp add: serve_def process_request_def bind_act_def split: sum.splits prod.splits exn.splits)

text \<open>The path the server sees.\<close>

definition request_path :: "string \<Rightarrow> string \<Rightarrow> string \<Rightarrow> string" where
  "request_path act dev cmd = CHR ''/'' # act @ (if dev = [] then [] else CHR ''/'' # dev) @
     (if cmd = [] then [] else CHR ''/'' # cmd)"

lemma request_path_parts:
  assumes "CHR ''/'' \<notin> set act" and "CHR ''/'' \<notin> set dev" and "dev \<noteq> [] \<or> cmd = []"
    and "length act + length dev + length cmd + 3 < npos"
  shows "parse_url (request_path act dev cmd) = [act, dev, cmd]"
  using assms parse_url_parts1 [of act] parse_url_parts2 [of act dev] parse_url_parts3 [of act dev cmd]
  by (auto simp: request_path_def)

lemma dl_get_link:
  assumes codec: "url_codec (url_escape C) unesc" and "http_get C = link E c srv unesc blk" and "\<And>b. concat (blk b) = b"
    and "CHR 0x00 \<notin> set srv" and "CHR 0x00 \<notin> set act" and "CHR 0x00 \<notin> set dev" and "CHR 0x00 \<notin> set cmd"
  shows "dl_get C srv act dev cmd dm = (case dm_run E (request_path act dev cmd) c dm of
       (Inl (Err e), dm') \<Rightarrow> (Inl (Err e), dm')
     | (Inl x, dm') \<Rightarrow> (Inl (Err ''no response''), dm')
     | (Inr msg, dm') \<Rightarrow> (Inr msg, dm'))"
proof -
  obtain a where a: "url_escape C act = Some a" "CHR 0x00 \<notin> set a" "\<And>t. unesc (a @ t) = act @ unesc t"
    using url_codecE [OF codec assms(5)] by blast
  obtain b where b: "url_escape C dev = Some b" "CHR 0x00 \<notin> set b" "\<And>t. unesc (b @ t) = dev @ unesc t"
    using url_codecE [OF codec assms(6)] by blast
  obtain m where m: "url_escape C cmd = Some m" "CHR 0x00 \<notin> set m" "\<And>t. unesc (m @ t) = cmd @ unesc t"
    using url_codecE [OF codec assms(7)] by blast
  let ?tail = "CHR ''/'' # a @ (if dev = [] then [] else CHR ''/'' # b) @ (if cmd = [] then [] else CHR ''/'' # m)"
  have "unesc ?tail = request_path act dev cmd"
    using a(3) b(3) m(3) a(3) [of "[]"] b(3) [of "[]"] m(3) [of "[]"]
    by (simp add: url_codec_slash [OF codec] request_path_def)
  moreover have "c_str (srv @ ?tail) = srv @ ?tail"
    using assms(4) a(2) b(2) m(2) by (intro c_str_plain) auto
  moreover have "dl_get C srv act dev cmd dm = (case http_get C (c_str (srv @ ?tail)) dm of
      (Inl e, w1) \<Rightarrow> (Inl (Err e), w1)
    | (Inr (code, bs), w1) \<Rightarrow> let data = fold write_cb bs [] in
        if code \<noteq> 200 then (Inl (Err data), w1) else (Inr data, w1))"
    by (simp add: dl_get_def a(1) b(1) m(1))
  ultimately show ?thesis
    by (simp add: assms(2,3) link_def serve_get write_cb_concat split: sum.splits prod.splits exn.splits)
qed


text \<open>
  Asking a device through the client program, the server and the manager is
  \<^verbatim>\<open>Device::ask\<close>: for a device of the configuration the client gets the answer or the error
  of the device itself, and nothing but that device and the outside world changes.
\<close>

lemma client_ask_lemma:
  assumes "url_codec (url_escape C) unesc" and "http_get C = link E c srv unesc blk" and "\<And>b. concat (blk b) = b"
    and "CHR 0x00 \<notin> set (srv @ dev @ cmd)" and "CHR ''/'' \<notin> set dev" and "dev \<noteq> []"
    and "length dev + length cmd + 6 < npos"
    and "sm_find (devices dm) dev = Some d"
    and "dev_ask (drivers E) c cmd (d, world dm) = (r, (d', w'))" and "r \<notin> {Inl UB, Inl Hang}"
  shows "dl_get C srv ''ask'' dev cmd dm =
    (r, dm\<lparr>devices := sm_put dev d' (devices dm), world := w'\<rparr>)"
proof -
  let ?url = "request_path ''ask'' dev cmd"
  have p: "parse_url ?url = [''ask'', dev, cmd]"
    by (rule request_path_parts) (use assms(5-7) in simp_all)
  have "dm_run E ?url c dm = (r, dm\<lparr>devices := sm_put dev d' (devices dm), world := w'\<rparr>)"
    using assms(6,8,9) by (simp add: dm_run_defs p Let_def with_device_def)
  moreover have "dl_get C srv ''ask'' dev cmd dm = (case dm_run E ?url c dm of
       (Inl (Err e), dm') \<Rightarrow> (Inl (Err e), dm')
     | (Inl x, dm') \<Rightarrow> (Inl (Err ''no response''), dm')
     | (Inr msg, dm') \<Rightarrow> (Inr msg, dm'))"
    by (rule dl_get_link [OF assms(1-3)]) (use assms(4) in auto)
  ultimately show ?thesis using assms(10) by (cases r) (auto split: exn.splits)
qed

text \<open>The part of the client before and after its requests.\<close>

lemma client_main_ask:
  assumes "client_parse C client_options argv = Inr (opts, ''ask'' # dev # ws)" and "ws \<noteq> []"
    and "\<not> opt_exists opts ''help''" and "\<not> opt_exists opts ''pod''" and "\<not> opt_exists opts ''via''"
    and "\<And>f ns. client_conf C f ns dm = (Inr [], dm)"
    and "opt_get opts ''server'' ''localhost'' = host" and "opt_get_as (p_int F) opts ''port'' 8082 = Inr port"
  shows "client_main C F argv dm =
    (case bind_act (dl_get C (''http://'' @ host @ '':'' @ dec_int port) ''ask'' dev (join_words C ws)) (\<lambda>a.
       bind_act (puts C (a @ nl)) (\<lambda>_.
       bind_act (dl_get C (''http://'' @ host @ '':'' @ dec_int port) ''release'' dev []) (\<lambda>_. ok ()))) dm of
      (Inr (), w1) \<Rightarrow> (Inr 0, w1)
    | (Inl (Err e), w1) \<Rightarrow> (Inr 1, if e \<noteq> [] then err_out C (''Error: '' @ e @ nl) w1 else w1)
    | (Inl x, w1) \<Rightarrow> (Inl x, w1))"
  using assms by (simp add: client_main_def client_body_def client_action_def put_missing_all_def Let_def)

lemma client_release_device:
  assumes "url_codec (url_escape C) unesc" and "http_get C = link E c srv unesc blk" and "\<And>b. concat (blk b) = b"
    and "CHR 0x00 \<notin> set (srv @ dev)" and "CHR ''/'' \<notin> set dev" and "dev \<noteq> []"
    and "length dev + 10 < npos" and "sm_find (devices dm) dev = Some d"
  shows "dl_get C srv ''release'' dev [] dm =
    (Inr [], dm\<lparr>devices := sm_put dev (dev_release c d) (devices dm)\<rparr>)"
proof -
  let ?url = "request_path ''release'' dev []"
  have p: "parse_url ?url = [''release'', dev, []]"
    by (rule request_path_parts) (use assms(5-7) in simp_all)
  have "dm_run E ?url c dm = (Inr [], dm\<lparr>devices := sm_put dev (dev_release c d) (devices dm)\<rparr>)"
    using assms(6,8) by (simp add: dm_run_defs p Let_def with_device_def quiet_def)
  moreover have "dl_get C srv ''release'' dev [] dm = (case dm_run E ?url c dm of
       (Inl (Err e), dm') \<Rightarrow> (Inl (Err e), dm')
     | (Inl x, dm') \<Rightarrow> (Inl (Err ''no response''), dm')
     | (Inr msg, dm') \<Rightarrow> (Inr msg, dm'))"
    by (rule dl_get_link [OF assms(1-3)]) (use assms(4) in auto)
  ultimately show ?thesis by simp
qed


section \<open>A concrete way between them\<close>

text \<open>Percent encoding of every byte, for the witnesses.\<close>

definition hex_digit :: "nat \<Rightarrow> char" where
  "hex_digit n = ''0123456789ABCDEF'' ! n"

definition hex_value :: "char \<Rightarrow> nat" where
  "hex_value c = length (takeWhile (\<lambda>x. x \<noteq> c) ''0123456789ABCDEF'')"

definition percent :: "string \<Rightarrow> string" where
  "percent s = concat (map (\<lambda>c. [CHR ''%'', hex_digit (of_char c div 16), hex_digit (of_char c mod 16)]) s)"

fun unpercent :: "string \<Rightarrow> string" where
  "unpercent [] = []"
| "unpercent [c] = [c]"
| "unpercent [c, x] = [c, x]"
| "unpercent (c # x # y # r) =
     (if c = CHR ''%'' then char_of (16 * hex_value x + hex_value y) # unpercent r
      else c # unpercent (x # y # r))"

lemma hex_digit_value: "n < 16 \<Longrightarrow> hex_value (hex_digit n) = n" "n < 16 \<Longrightarrow> hex_digit n \<noteq> CHR 0x00"
proof -
  have "\<forall>n \<in> set [0..<16]. hex_value (hex_digit n) = n \<and> hex_digit n \<noteq> CHR 0x00" by code_simp
  then show "n < 16 \<Longrightarrow> hex_value (hex_digit n) = n" "n < 16 \<Longrightarrow> hex_digit n \<noteq> CHR 0x00" by auto
qed

lemma byte_div: "of_char (c :: char) div 16 < (16 :: nat)"
  by (rule less_mult_imp_div_less) (simp add: nat_of_char_less_256)

lemma unpercent_slash: "unpercent (CHR ''/'' # t) = CHR ''/'' # unpercent t"
  by (cases t rule: unpercent.cases) simp_all

lemma unpercent_percent: "unpercent (percent s @ t) = s @ unpercent t"
proof (induction s)
  case (Cons c s)
  have "16 * hex_value (hex_digit (of_char c div 16)) + hex_value (hex_digit (of_char c mod 16)) =
      of_char c" by (simp add: hex_digit_value byte_div)
  with Cons show ?case by (simp add: percent_def)
qed (simp add: percent_def)

lemma percent_codec: "url_codec (\<lambda>s. Some (percent s)) unpercent"
proof -
  have "CHR 0x00 \<notin> set (percent s)" for s
    by (auto simp: percent_def hex_digit_value byte_div dest!: sym [of "CHR 0x00"])
  then show ?thesis by (simp add: url_codec_def unpercent_slash unpercent_percent)
qed

text \<open>A client connected to a server by it; it has no input, and its output is dropped.\<close>

definition linked_client :: "('d, 'w) env \<Rightarrow> conn \<Rightarrow> ('d, 'w) manager client_sys" where
  "linked_client E c = \<lparr>os_open = (\<lambda>p fl w. (Inl 0, w)), os_close = (\<lambda>fd w. w), os_read = (\<lambda>fd n w. (Inl 0, w)),
     os_write = (\<lambda>fd s w. (Inl 0, w)), os_usleep = (\<lambda>t w. w), strerror = dec,
     url_escape = (\<lambda>s. Some (percent s)), http_get = link E c ''http://localhost:8082'' unpercent (\<lambda>b. [b]),
     in_good = (\<lambda>w. False), in_words = ok [], join_words = concat, out = (\<lambda>s w. w), err_out = (\<lambda>s w. w),
     client_conf = (\<lambda>f ns. ok []), client_parse = (\<lambda>t args. Inr ([], args)), client_print = (\<lambda>p t n h w. w),
     get_pid = (\<lambda>w. 1), inet_socket = (\<lambda>w. (Inl 0, w)),
     inet_bind = (\<lambda>s p w. (Inl 0, w)), getsockname = (\<lambda>s w. (Inl 0, w)), setenv = (\<lambda>n v w. w),
     system_cmd = (\<lambda>s w. (Inr 0, w))\<rparr>"

lemma linked_client_simps [simp]:
  "url_escape (linked_client E c) = (\<lambda>s. Some (percent s))"
  "http_get (linked_client E c) = link E c ''http://localhost:8082'' unpercent (\<lambda>b. [b])"
  "join_words (linked_client E c) = concat" "out (linked_client E c) t m = m"
  "client_conf (linked_client E c) f ns = ok []" "client_parse (linked_client E c) tab args = Inr ([], args)"
  by (simp_all add: linked_client_def)



end
