(* ===== verification/Client_Spp.thy ===== *)
theory Client_Spp
  imports Client Drv_Spp
begin

text \<open>
  A chain of servers: the SPP driver of one server runs \<^verbatim>\<open>device_c use_dev\<close>, which asks another
  server. What the client writes is read by \<^verbatim>\<open>Driver_spp::read_spp\<close>, line by line.
\<close>

text \<open>The lines of a text, each with a newline at its end.\<close>

fun lines_of :: "string \<Rightarrow> string list" where
  "lines_of [] = []"
| "lines_of (c # s) = (if c = CHR 0x0A then [] # lines_of s
     else case lines_of s of [] \<Rightarrow> [[c]] | l # ls \<Rightarrow> (c # l) # ls)"

lemma lines_of_line: "CHR 0x0A \<notin> set l \<Longrightarrow> lines_of (l @ CHR 0x0A # s) = l # lines_of s"
  by (induction l) auto

lemma lines_of_unlines:
  "\<lbrakk>\<And>l. l \<in> set ls \<Longrightarrow> CHR 0x0A \<notin> set l; ls \<noteq> []\<rbrakk> \<Longrightarrow> lines_of (unlines ls @ CHR 0x0A # s) = ls @ lines_of s"
proof (induction ls rule: unlines.induct)
  case (3 l l' ls)
  then show ?case by (simp add: lines_of_line nl_def)
qed (simp_all add: lines_of_line)

lemma lines_of_Cons:
  assumes "c \<noteq> CHR 0x0A"
  obtains l ls where "lines_of (c # s) = (c # l) # ls"
  using assms by (cases "lines_of s") auto

lemma block_lines:
  assumes "\<And>l. l \<in> set ls \<Longrightarrow> CHR 0x0A \<notin> set l" and "ls \<noteq> []"
  shows "lines_of (answer_block (unlines ls)) = ls @ [''#OK'']"
  using lines_of_unlines [OF assms, of "''#OK'' @ nl"] lines_of_line [of "''#OK''" "[]"]
  by (simp add: answer_block_def nl_def)



text \<open>
  The client does not protect its answers: one that begins with \<^verbatim>\<open>#\<close> and another
  character, as every block of binary data of a SCPI device does, makes the driver throw.
\<close>

theorem spp_client_unprotected:
  assumes "flt d = Some p" and "ch d = CHR ''#''" and "c \<notin> {CHR ''#'', CHR ''O'', CHR ''E'', CHR ''F'', CHR 0x0A}"
    and "delivers I p (read_timeout d) (lines_of (answer_block (CHR ''#'' # c # a))) w w'"
  shows "\<exists>e w1. spp_read I d w = (Inl (Err e), w1)"
proof -
  have "c \<noteq> CHR 0x0A" using assms(3) by simp
  from lines_of_Cons [OF this] obtain l1 ls1 where
    c: "lines_of (c # a @ nl @ ''#OK'' @ nl) = (c # l1) # ls1" by blast
  then have ls: "lines_of (answer_block (CHR ''#'' # c # a)) = (CHR ''#'' # c # l1) # ls1"
    by (simp add: answer_block_def del: lines_of.simps(2)) (simp add: lines_of.simps(2) [of "CHR ''#''"])
  then obtain r w1 where g: "flt_getline I p (read_timeout d) w = (Inr (r, CHR ''#'' # c # l1), w1)" "0 \<le> r"
    using assms(4) by auto
  have "substr (CHR ''#'' # c # l1) 1 7 = c # take 6 l1" by (simp add: substr_def)
  then have "\<exists>m. spp_line (ch d) (prog d) [] (CHR ''#'' # c # l1) = Fail m"
    using assms(2,3) by (simp add: spp_line_def)
  with g assms(1) show ?thesis
    by (auto simp: spp_read_def read_spp_def spp_loop.simps [of I p "read_timeout d" "ch d" "prog d" "[]" w])
qed

theorem spp_client_unprotected_witness:
  "\<exists>e w1. spp_read list_filter list_spp ([''#15hello'', ''#OK''], []) = (Inl (Err e), w1)"
  by (rule spp_client_unprotected [where c = "CHR ''1''" and a = "''5hello''"])
    (simp_all add: list_spp_def list_filter_def answer_block_def nl_def)

end
