(* ===== verification/Client_Text.thy ===== *)
theory Client_Text
  imports Client Read_Words
begin

text \<open>
  \<^verbatim>\<open>device_c use_dev\<close> in front of a user or a program that types any text at all: the client with
  \<^verbatim>\<open>read_words\<close> and \<^verbatim>\<open>join_words\<close> as they are in \<open>Read_Words\<close>. The session ends when the text does, and
  what the server is asked and what is printed follow from the text alone.
\<close>

section \<open>A text as a sequence of commands\<close>

text \<open>What \<^verbatim>\<open>read_words\<close> gives, called until it finds no more words: words, or an error.\<close>

lemma read_words_failed: "read_words junk lc s = (Inl m, t) \<Longrightarrow> length t < length s"
proof -
  assume r: "read_words junk lc s = (Inl m, t)"
  then have "s \<noteq> []" by (auto simp: read_words_def rd_start_def)
  with r show ?thesis
    by (cases s) (auto simp: read_words_def simp del: rd_loop.simps dest!: rd_loop_length split: prod.splits)
qed

function stream_words :: "(nat \<Rightarrow> char) \<Rightarrow> string \<Rightarrow> (string + string list) list" where
  "stream_words junk s = (case read_words junk False s of
     (Inl m, r) \<Rightarrow> Inl m # stream_words junk r
   | (Inr ws, r) \<Rightarrow> if ws = [] then [] else Inr ws # stream_words junk r)"
  by pat_completeness auto

termination
  by (relation "measure (\<lambda>(junk, s). length s)") (auto dest: read_words_shorter [OF sym] read_words_failed [OF sym])

declare stream_words.simps [simp del]

lemma rd_loop_no_words: "rd_loop junk lc st s = (Inr [], st', t) \<Longrightarrow> t = []"
proof (induction junk lc st s rule: rd_loop.induct)
  case (2 junk lc st c s)
  then show ?case
    by (auto simp: rd_step_def rd_escaped_def Let_def split: progress.splits if_splits escape.splits)
qed (simp split: if_splits)

lemma read_words_none: "read_words junk lc s = (Inr [], t) \<Longrightarrow> t = []"
  by (auto simp: read_words_def dest: rd_loop_no_words split: prod.splits)

lemma read_words_Nil [simp]: "read_words junk lc [] = (Inr [], [])"
  by (simp add: read_words_def rd_start_def rd_push_def)

lemma stream_words_Nil [simp]: "stream_words junk [] = []"
  by (simp add: stream_words.simps [of junk "[]"])

text \<open>Lines that \<^verbatim>\<open>join_words\<close> has written come through.\<close>

lemma stream_words_lines:
  "\<forall>ws \<in> set wss. ws \<noteq> [] \<Longrightarrow> stream_words junk (concat (map (\<lambda>ws. words_line ws @ nl) wss)) = map Inr wss"
proof (induction wss)
  case (Cons ws wss)
  let ?t = "concat (map (\<lambda>ws. words_line ws @ nl) wss)"
  have "read_words junk False (words_line ws @ CHR 0x0A # ?t) = (Inr ws, ?t)"
    using rd_loop_words_line [of ws "CHR 0x0A # ?t" junk "(0, 0)"] Cons.prems by (auto simp: read_words_def)
  with Cons show ?case
    unfolding nl_def by (simp add: stream_words.simps [of junk "words_line ws @ CHR 0x0A # _"])
qed simp

section \<open>The session\<close>

lemma case_unit: "(case u of () \<Rightarrow> x) = x"
  by (cases u) (simp only: unit.case)

text \<open>A terminal and a server behind it: what is typed, what has been printed, the state of the server.\<close>

record 's terminal =
  typed :: string
  printed :: string
  behind :: 's

type_synonym 's answers = "string \<Rightarrow> string \<Rightarrow> string \<Rightarrow> 's \<Rightarrow> (string + string) \<times> 's"

definition behind_act :: "('s \<Rightarrow> (string + string) \<times> 's) \<Rightarrow> ('s terminal, string) act" where
  "behind_act f = (\<lambda>w. case f (behind w) of
     (Inl e, s1) \<Rightarrow> (Inl (Err e), w\<lparr>behind := s1\<rparr>)
   | (Inr a, s1) \<Rightarrow> (Inr a, w\<lparr>behind := s1\<rparr>))"

definition ask_behind :: "'s answers \<Rightarrow> string \<Rightarrow> string \<Rightarrow> string \<Rightarrow> ('s terminal, string) act" where
  "ask_behind g act dev cmd = behind_act (g act dev cmd)"

definition typed_words :: "(nat \<Rightarrow> char) \<Rightarrow> ('s terminal, string list) act" where
  "typed_words junk = (\<lambda>w. case read_words junk False (typed w) of
     (Inl m, r) \<Rightarrow> (Inl (Err m), w\<lparr>typed := r\<rparr>)
   | (Inr ws, r) \<Rightarrow> (Inr ws, w\<lparr>typed := r\<rparr>))"

text \<open>What a session prints for the commands of a text, and where it leaves the server.\<close>

definition error_line :: "string \<Rightarrow> string" where
  "error_line e = (if e \<noteq> [] then ''#Error: '' @ e @ nl else [])"

fun talk :: "(string list \<Rightarrow> 's \<Rightarrow> (string + string) \<times> 's) \<Rightarrow> (string + string list) list \<Rightarrow>
    string \<times> 's \<Rightarrow> string \<times> 's" where
  "talk h [] (p, s) = (p, s)"
| "talk h (Inl m # cs) (p, s) = talk h cs (p @ error_line m, s)"
| "talk h (Inr ws # cs) (p, s) = (case h ws s of
     (Inl e, s1) \<Rightarrow> talk h cs (p @ error_line e, s1)
   | (Inr a, s1) \<Rightarrow> talk h cs (p @ answer_block a, s1))"

definition session :: "'s answers \<Rightarrow> string \<Rightarrow> (string + string list) list \<Rightarrow> string \<times> 's \<Rightarrow> string \<times> 's" where
  "session g dev = talk (\<lambda>ws. g ''ask'' dev (words_line ws))"

text \<open>A client at this terminal, with the functions of the submodule as they are.\<close>

definition text_client :: "'s terminal client_sys \<Rightarrow> (nat \<Rightarrow> char) \<Rightarrow> string \<Rightarrow> 's answers \<Rightarrow> bool" where
  "text_client C junk srv g \<longleftrightarrow> (\<forall>w. typed w \<noteq> [] \<longrightarrow> in_good C w) \<and> in_words C = typed_words junk \<and>
     join_words C = words_line \<and> (\<forall>t w. out C t w = w\<lparr>printed := printed w @ t\<rparr>) \<and>
     dl_get C srv = ask_behind g"

text \<open>The loop of a client whose commands are answered by \<open>h\<close> behind the terminal.\<close>

lemma cmd_loop_talk:
  fixes C :: "'s terminal client_sys"
  assumes "text_client C junk srv g" and body: "\<And>pars. body pars = behind_act (h pars)"
  shows "cmd_loop C body w = Some (Inr (), case talk h (stream_words junk (typed w)) (printed w, behind w) of
    (p, s) \<Rightarrow> \<lparr>typed = [], printed = p, behind = s\<rparr>)"
proof (induction "typed w" arbitrary: w rule: length_induct)
  case (1 w)
  note IH = 1 [rule_format]
  have good: "\<And>w. typed w \<noteq> [] \<Longrightarrow> in_good C w" and words: "in_words C = typed_words junk"
    and out: "\<And>t w. out C t w = w\<lparr>printed := printed w @ t\<rparr>"
    using assms(1) by (auto simp: text_client_def)
  note step = cmd_loop.simps [of C _ w]
  obtain r t where read: "read_words junk False (typed w) = (r, t)" by fastforce
  show ?case
  proof (cases "typed w = []")
    case True
    then show ?thesis
      by (simp add: step words typed_words_def bind_act_def)
  next
    case ne: False
    show ?thesis
    proof (cases r)
      case (Inl m)
      with read have "length t < length (typed w)" by (auto dest: read_words_failed)
      with Inl read ne IH show ?thesis
        by (simp add: step good words body typed_words_def bind_act_def report_def out error_line_def
            stream_words.simps [of junk "typed w"])
    next
      case (Inr ws)
      show ?thesis
      proof (cases "ws = []")
        case True
        with Inr read have "t = []" by (auto dest: read_words_none)
        with True Inr read ne show ?thesis
          by (simp add: step good words body typed_words_def bind_act_def stream_words.simps [of junk "typed w"])
      next
        case False
        with Inr read have "length t < length (typed w)" by (auto dest: read_words_shorter)
        with Inr False read ne IH show ?thesis
          by (simp add: step good words body typed_words_def behind_act_def bind_act_def report_def out
              error_line_def stream_words.simps [of junk "typed w"] split: prod.splits sum.splits)
      qed
    qed
  qed
qed

text \<open>
  C22. \<^verbatim>\<open>device_c use_dev\<close> ends whenever the text it reads ends, whatever that text is: after the
  opening the server is asked exactly the commands of the text in their order, each as the line
  \<^verbatim>\<open>join_words\<close> makes of its words, every answer is printed with \<^verbatim>\<open>#OK\<close> and every error, of the
  text or of the server, as one line \<^verbatim>\<open>#Error\<close>; at the end everything is released.
\<close>

theorem use_dev_session:
  assumes "text_client C junk srv g" and "name \<noteq> []"
    and "g ''use'' dev [] s = (Inr a, s1)" and "g ''set_conn_name'' name [] s1 = (Inr b, s2)"
    and "session g dev (stream_words junk text)
      (''#SPP001'' @ nl @ ''Server: '' @ srv @ nl @ ''Device: '' @ dev @ nl @ ''#OK'' @ nl, s2) = (p, s3)"
    and "g ''release_all'' [] [] s3 = (x, s4)"
  shows "use_dev C srv dev False name \<lparr>typed = text, printed = [], behind = s\<rparr> =
    (case x of Inl e \<Rightarrow> Inl (Err e) | Inr c \<Rightarrow> Inr (), \<lparr>typed = [], printed = p, behind = s4\<rparr>)"
proof -
  let ?h = "''#SPP001'' @ nl @ ''Server: '' @ srv @ nl @ ''Device: '' @ dev @ nl @ ''#OK'' @ nl"
  let ?w = "\<lparr>typed = text, printed = ?h, behind = s2\<rparr>"
  have out: "out C t w = w\<lparr>printed := printed w @ t\<rparr>" for t w using assms(1) by (simp add: text_client_def)
  have server: "dl_get C srv = ask_behind g" using assms(1) by (simp add: text_client_def)
  have loop: "or_hang (cmd_loop C (\<lambda>pars. ask_behind g ''ask'' dev (join_words C pars))) ?w =
      (Inr (), \<lparr>typed = [], printed = p, behind = s3\<rparr>)"
    by (rule or_hang_Some, subst cmd_loop_talk [OF assms(1),
        where h = "\<lambda>ws. g ''ask'' dev (words_line ws)"])
      (use assms(1,5) in \<open>simp_all add: ask_behind_def text_client_def session_def\<close>)
  have ask: "ask_behind g act d c w = (map_sum Err id y, w\<lparr>behind := s'\<rparr>)"
    if "g act d c (behind w) = (y, s')" for act d c w y s'
    using that by (simp add: ask_behind_def behind_act_def split: sum.splits)
  show ?thesis
    using loop assms(2) by (cases x) (simp_all add: use_dev_def spp_session_def puts_def bind_act_def
        out server ask assms(3,4,6) case_unit)
qed

text \<open>A server that answers every request with its URL and keeps the URLs.\<close>

definition demo_url :: "string \<Rightarrow> string \<Rightarrow> string \<Rightarrow> string" where
  "demo_url act dev cmd = c_str (''s/'' @ act @ (if dev = [] then [] else ''/'' @ dev) @
     (if cmd = [] then [] else ''/'' @ cmd))"

definition demo_answers :: "string list answers" where
  "demo_answers act dev cmd us = (let u = demo_url act dev cmd in (Inr u, us @ [u]))"

definition demo_client :: "string list terminal client_sys" where
  "demo_client = \<lparr>os_open = (\<lambda>p fl w. (Inl 0, w)), os_close = (\<lambda>fd w. w), os_read = (\<lambda>fd n w. (Inl 0, w)),
     os_write = (\<lambda>fd s w. (Inl 0, w)), os_usleep = (\<lambda>t w. w), strerror = dec,
     url_escape = Some, http_get = (\<lambda>u w. (Inr (200, [u]), w\<lparr>behind := behind w @ [u]\<rparr>)),
     in_good = (\<lambda>w. typed w \<noteq> []), in_words = typed_words (\<lambda>n. CHR ''0''), join_words = words_line,
     out = (\<lambda>t w. w\<lparr>printed := printed w @ t\<rparr>), err_out = (\<lambda>s w. w),
     client_conf = (\<lambda>f ns. ok []), client_parse = (\<lambda>t args. Inr ([], args)), client_print = (\<lambda>p t n h w. w),
     get_pid = (\<lambda>w. 1), inet_socket = (\<lambda>w. (Inl 0, w)), inet_bind = (\<lambda>s p w. (Inl 0, w)),
     getsockname = (\<lambda>s w. (Inl 0, w)), setenv = (\<lambda>n v w. w), system_cmd = (\<lambda>s w. (Inr 0, w))\<rparr>"

lemma demo_text_client: "text_client demo_client (\<lambda>n. CHR ''0'') ''s'' demo_answers"
  by (auto simp: text_client_def demo_client_def dl_get_def ask_behind_def behind_act_def demo_answers_def demo_url_def
      fun_eq_iff Let_def write_cb_def)

text \<open>
  The Readme says that every line is sent as it is. The quotes and the second space of the second
  line do not reach the device.
\<close>

theorem use_dev_session_witness:
  "behind (snd (use_dev demo_client ''s'' ''d'' False ''n''
      \<lparr>typed = ''volt?'' @ nl @ ''DISP  \"on\"'' @ nl, printed = [], behind = []\<rparr>)) =
    [''s/use/d'', ''s/set_conn_name/n'', ''s/ask/d/volt?'', ''s/ask/d/DISP on'', ''s/release_all'']"
proof -
  let ?g = demo_answers
  let ?text = "''volt?'' @ nl @ ''DISP  \"on\"'' @ nl"
  let ?h = "''#SPP001'' @ nl @ ''Server: '' @ ''s'' @ nl @ ''Device: '' @ ''d'' @ nl @ ''#OK'' @ nl"
  have cmds: "stream_words (\<lambda>n. CHR ''0'') ?text = [Inr [''volt?''], Inr [''DISP'', ''on'']]" by code_simp
  obtain p us where run: "session ?g ''d'' (stream_words (\<lambda>n. CHR ''0'') ?text)
      (?h, [''s/use/d'', ''s/set_conn_name/n'']) = (p, us)" by fastforce
  have lines: "words_line [''volt?''] = ''volt?''" "words_line [''DISP'', ''on''] = ''DISP on''" by code_simp+
  then have us: "us = [''s/use/d'', ''s/set_conn_name/n'', ''s/ask/d/volt?'', ''s/ask/d/DISP on'']"
    using run [unfolded cmds] by (simp add: session_def demo_answers_def demo_url_def c_str_def Let_def)
  show ?thesis
    by (subst use_dev_session [OF demo_text_client _ _ _ run])
      (simp_all add: us demo_answers_def demo_url_def c_str_def Let_def)
qed

text \<open>
  \<^verbatim>\<open>device_c ask d "VOLT 5"\<close>: the argument is joined with quotes, which the server hands on to the
  device as a part of the message.
\<close>

lemma ask_quotes_arguments:
  "snd (client_action demo_client ''s'' False ''n'' [''ask'', ''d'', ''VOLT 5'']
      \<lparr>typed = [], printed = [], behind = []\<rparr>) =
    \<lparr>typed = [], printed = ''s/ask/d/\"VOLT 5\"'' @ nl, behind = [''s/ask/d/\"VOLT 5\"'', ''s/release/d'']\<rparr>"
proof -
  have line: "words_line [''VOLT 5''] = ''\"VOLT 5\"''" by code_simp
  have get: "dl_get demo_client ''s'' = ask_behind demo_answers" and out: "out demo_client t w = w\<lparr>printed := printed w @ t\<rparr>"
    for t and w :: "string list terminal"
    using demo_text_client by (simp_all add: text_client_def)
  have join: "join_words demo_client = words_line" by (simp add: demo_client_def)
  show ?thesis
    by (simp add: client_action_def Let_def get out join line bind_act_def puts_def ask_behind_def behind_act_def
        demo_answers_def demo_url_def c_str_def)
qed

end
