(* ===== verification/Modbus_Slave.thy ===== *)
theory Modbus_Slave
  imports Complex_Main Drv_Hm310t
begin

text \<open>
  The power supply driver together with a device that speaks its protocol. The sources contain
  only the driver's side of the line; the other side is a parameter of the driver (the calls of
  the operating system), instantiated here by a reference device: registers behind the Modbus
  functions 3 and 6 as their specification describes them, and a terminal line that keeps its
  settings and translates carriage returns as they say. The locale \<open>modbus_line\<close> states what the
  driver relies on, the interpretation shows that the reference device provides it.
\<close>

unbundle bit_operations_syntax

section \<open>A reference device\<close>

record slave =
  sl_regs :: "16 word \<Rightarrow> 16 word option"
  sl_out :: string     \<comment> \<open>sent by the device, not yet read\<close>
  sl_tty :: termios

definition word_at :: "string \<Rightarrow> nat \<Rightarrow> 16 word" where
  "word_at f i = push_bit 8 (byte (f ! i)) + byte (f ! Suc i)"

definition slave_answer :: "char \<Rightarrow> (16 word \<Rightarrow> 16 word option) \<Rightarrow> string \<Rightarrow>
    string \<times> (16 word \<Rightarrow> 16 word option)" where
  "slave_answer ad R f =
     (let fc = f ! 1; reg = word_at f 2; val = word_at f 4;
          refuse = (\<lambda>code. (with_crc [ad, char_of (0x80 + (of_char fc :: nat)), code], R)) in
      if length f \<noteq> 8 \<or> f ! 0 \<noteq> ad \<or> modbus_crc f \<noteq> 0 then ([], R)
      else if fc = CHR 0x03 then
        (if val \<noteq> 1 then refuse (CHR 0x03)
         else case R reg of None \<Rightarrow> refuse (CHR 0x02)
           | Some v \<Rightarrow> (with_crc [ad, CHR 0x03, CHR 0x02, hi_byte v, lo_byte v], R))
      else if fc = CHR 0x06 then
        (case R reg of None \<Rightarrow> refuse (CHR 0x02) | Some _ \<Rightarrow> (f, R(reg \<mapsto> val)))
      else refuse (CHR 0x01))"

text \<open>What the terminal makes of a received byte.\<close>

definition tty_in :: "termios \<Rightarrow> char \<Rightarrow> char" where
  "tty_in t c = (if c = CHR 0x0D \<and> c_iflag t AND ICRNL \<noteq> 0 then CHR 0x0A else c)"

definition slave_port :: "char \<Rightarrow> slave serial_os" where
  "slave_port ad = \<lparr>os_open = (\<lambda>p fl w. (Inr 3, w)), os_close = (\<lambda>fd w. w),
     os_read = (\<lambda>fd n w. (Inr (map (tty_in (sl_tty w)) (take n (sl_out w))),
        w\<lparr>sl_out := drop n (sl_out w)\<rparr>)),
     os_write = (\<lambda>fd s w. (Inr (length s), case slave_answer ad (sl_regs w) s of
        (a, R) \<Rightarrow> w\<lparr>sl_regs := R, sl_out := sl_out w @ a\<rparr>)),
     os_usleep = (\<lambda>t w. w), strerror = dec, fcntl_setfl = (\<lambda>fd fl w. (Inr (), w)),
     tcgetattr = (\<lambda>fd w. (Inr (sl_tty w), w)), tcsetattr = (\<lambda>fd t w. (Inr (), w\<lparr>sl_tty := t\<rparr>)),
     tcflush = (\<lambda>fd w. w\<lparr>sl_out := []\<rparr>),
     cfsetspeed = (\<lambda>b t. t), cfsetispeed = (\<lambda>b t. t), cfsetospeed = (\<lambda>b t. t)\<rparr>"

section \<open>Frames\<close>

lemma word_of_bytes: "push_bit 8 (byte (hi_byte x)) + byte (lo_byte x) = x"
proof -
  have "push_bit 8 (drop_bit 8 x) + take_bit 8 x = x" by (rule bits_ident)
  moreover have "x AND 0xFF = take_bit 8 x" by (simp add: take_bit_eq_mask mask_numeral)
  ultimately show ?thesis by (simp add: byte_hi byte_lo)
qed

lemma bytes_of_word:
  "hi_byte (push_bit 8 (byte a) + byte b) = a" "lo_byte (push_bit 8 (byte a) + byte b) = b"
proof -
  let ?A = "of_char a :: nat" and ?B = "of_char b :: nat"
  have small: "?A < 256" "?B < 256" by simp_all
  have "push_bit 8 (byte a) + byte b = word_of_nat (256 * ?A + ?B)"
    by (simp add: byte_def push_bit_eq_mult)
  then have "unat (push_bit 8 (byte a) + byte b) = (256 * ?A + ?B) mod 65536"
    by (simp only: unat_of_nat) simp
  then have u: "unat (push_bit 8 (byte a) + byte b) = 256 * ?A + ?B"
    using small by simp
  have "unat (drop_bit 8 (push_bit 8 (byte a) + byte b)) = ?A"
    by (subst unat_drop_bit_eq, subst u) (use small in \<open>simp add: drop_bit_eq_div\<close>)
  then show "hi_byte (push_bit 8 (byte a) + byte b) = a" by (simp add: hi_byte_def)
  have "(push_bit 8 (byte a) + byte b) AND 0xFF = take_bit 8 (push_bit 8 (byte a) + byte b)"
    by (simp add: take_bit_eq_mask mask_numeral)
  moreover have "unat (take_bit 8 (push_bit 8 (byte a) + byte b)) = ?B"
    by (subst unsigned_take_bit_eq, subst u) (use small in \<open>simp add: take_bit_eq_mod\<close>)
  ultimately show "lo_byte (push_bit 8 (byte a) + byte b) = b" by (simp add: lo_byte_def)
qed

lemma with_crc_length [simp]: "length (with_crc m) = length m + 2"
  by (simp add: with_crc_def)

lemma with_crc_nth: "i < length m \<Longrightarrow> with_crc m ! i = m ! i"
  by (simp add: with_crc_def nth_append)

lemma frame_codes:
  "char_of (131 :: nat) = CHR 0x83" "char_of (134 :: nat) = CHR 0x86"
  "char_of (1 :: nat) = CHR 0x01" "char_of (Suc 0) = CHR 0x01"
  "char_of (13 :: nat) = CHR 0x0D"
  "push_bit 8 (byte (CHR 0x00)) + byte (CHR 0x01) = 1"
  by (code_simp, code_simp, code_simp, code_simp, code_simp, simp add: byte_def)

lemma slave_func3:
  "slave_answer ad R (with_crc [ad, CHR 0x03, hi_byte r, lo_byte r, CHR 0x00, CHR 0x01]) =
     (case R r of None \<Rightarrow> with_crc [ad, CHR 0x83, CHR 0x02]
      | Some v \<Rightarrow> with_crc [ad, CHR 0x03, CHR 0x02, hi_byte v, lo_byte v], R)"
  by (simp add: slave_answer_def crc_residue with_crc_nth word_at_def word_of_bytes Let_def
      frame_codes split: option.splits)

lemma slave_func6:
  "slave_answer ad R (with_crc [ad, CHR 0x06, hi_byte r, lo_byte r, hi_byte v, lo_byte v]) =
     (case R r of None \<Rightarrow> (with_crc [ad, CHR 0x86, CHR 0x02], R)
      | Some _ \<Rightarrow> (with_crc [ad, CHR 0x06, hi_byte r, lo_byte r, hi_byte v, lo_byte v], R(r \<mapsto> v)))"
  by (simp add: slave_answer_def crc_residue with_crc_nth word_at_def word_of_bytes Let_def
      frame_codes split: option.splits)

section \<open>An exchange\<close>

definition plain_line :: "char \<Rightarrow> 'f hm310t_drv \<Rightarrow> bool" where
  "plain_line ad d \<longleftrightarrow> char_of (nat (h_dev_addr d mod 256)) = ad \<and> s_add (h_serial d) = [] \<and>
     s_ack (h_serial d) = [] \<and> s_trim (h_serial d) = []"

lemma slave_exchange:
  assumes "plain_line ad d" and "sl_out w = []" and "slave_answer ad (sl_regs w) msg = (ans, R)"
    and "ans \<noteq> []" and "length ans \<le> 4096"
  shows "bind_act (on_serial (\<lambda>s. serial_write (slave_port ad) F s msg)) (\<lambda>_.
      bind_act (on_serial (serial_read (slave_port ad))) k) (d, w) =
    k (map (tty_in (sl_tty w)) ans) (d, w\<lparr>sl_regs := R\<rparr>)"
proof -
  have "serial_write (slave_port ad) F (h_serial d) msg w = (Inr (), w\<lparr>sl_regs := R, sl_out := ans\<rparr>)"
    using assms(1-3) by (simp add: plain_line_def serial_write_def slave_port_def delay_after_def usleep_s_def)
  moreover have "serial_read (slave_port ad) (h_serial d) (w\<lparr>sl_regs := R, sl_out := ans\<rparr>) =
      (Inr (map (tty_in (sl_tty w)) ans), w\<lparr>sl_regs := R, sl_out := []\<rparr>)"
    using assms by (simp add: serial_read_def slave_port_def plain_line_def
        serial_loop.simps [of _ "h_serial d" "[]"])
  moreover have "w\<lparr>sl_regs := R, sl_out := []\<rparr> = w\<lparr>sl_regs := R\<rparr>" using assms(2) by simp
  ultimately show ?thesis by (simp add: on_serial_def bind_act_def)
qed

section \<open>What the driver relies on\<close>

locale modbus_line =
  fixes I :: "('w, 'a) serial_os_scheme" and F :: "'f conv"
    and line :: "'f hm310t_drv \<Rightarrow> 'w \<Rightarrow> bool" and regs :: "'w \<Rightarrow> 16 word \<Rightarrow> 16 word option"
  assumes read_reg: "line d w \<Longrightarrow> regs w r = Some v \<Longrightarrow>
      \<exists>w'. modbus_func3 I F r (d, w) = (Inr v, (d, w')) \<and> regs w' = regs w \<and> line d w'"
    and write_reg: "line d w \<Longrightarrow> regs w r = Some u \<Longrightarrow>
      \<exists>w'. modbus_func6 I F r v (d, w) = (Inr (), (d, w')) \<and> regs w' = (regs w)(r \<mapsto> v) \<and> line d w'"
begin

lemma scaled_query:
  assumes "line d w" and "regs w r = Some v"
  shows "\<exists>w'. bind_act (modbus_func3 I F r) (\<lambda>v. ok (scaled F E (uint v))) (d, w) =
      (Inr (scaled F E (uint v)), (d, w')) \<and> regs w' = regs w \<and> line d w'"
  using read_reg [OF assms] by (force simp: bind_act_def)

lemma scaled_set:
  assumes "line d w" and "regs w r = Some u" and "unscaled F 16 E a = Inr v"
  shows "\<exists>w'. bind_act (lift_res (unscaled F 16 E a)) (\<lambda>v. modbus_func6 I F r (word_of_int v)) (d, w) =
      (Inr (), (d, w')) \<and> regs w' = (regs w)(r \<mapsto> word_of_int v) \<and> line d w'"
  using write_reg [OF assms(1,2), of "word_of_int v"] assms(3) by (auto simp: bind_act_def)

end

text \<open>The settings with a fractional value: command, register, position of the decimal point.\<close>

definition fractions :: "(string \<times> 16 word \<times> ('f hm310t_drv \<Rightarrow> int)) list" where
  "fractions = [(''volt'', 0x30, h_Ve), (''curr'', 0x31, h_Ie), (''ovp'', 0x20, h_Ve), (''ocp'', 0x21, h_Ie)]"

lemma strcaseeq_Cons:
  "c \<noteq> CHR 0x00 \<Longrightarrow> k \<noteq> CHR 0x00 \<Longrightarrow>
     strcaseeq (c # s) (k # t) \<longleftrightarrow> tolower c = tolower k \<and> strcaseeq s t"
  "c \<noteq> CHR 0x00 \<Longrightarrow> \<not> strcaseeq (c # s) []"
  "k \<noteq> CHR 0x00 \<Longrightarrow> \<not> strcaseeq [] (k # t)"
  by (simp_all add: strcaseeq_def c_str_def)

lemma fraction_ask:
  assumes "(c, r, e) \<in> set fractions"
  shows "hm310t_ask I F W (c @ ''?'') (d, w) =
      bind_act (modbus_func3 I F r) (\<lambda>v. ok (scaled F (e d) (uint v))) (d, w)"
proof -
  have "hm310t_ask I F W ''volt?'' = read_volt I F 0x30"
    by (rule ext) (simp add: hm310t_ask_def strcaseeq_Cons tolower_def)
  moreover have "hm310t_ask I F W ''curr?'' = read_curr I F 0x31"
    by (rule ext) (simp add: hm310t_ask_def strcaseeq_Cons tolower_def)
  moreover have "hm310t_ask I F W ''ovp?'' = read_volt I F 0x20"
    by (rule ext) (simp add: hm310t_ask_def strcaseeq_Cons tolower_def)
  moreover have "hm310t_ask I F W ''ocp?'' = read_curr I F 0x21"
    by (rule ext) (simp add: hm310t_ask_def strcaseeq_Cons tolower_def)
  ultimately show ?thesis
    using assms by (auto simp: fractions_def read_volt_def read_curr_def)
qed

lemma fraction_ask_write:
  assumes "(c, r, e) \<in> set fractions"
  shows "hm310t_ask I F W (c @ '' '' @ a) = bind_act (hm310t_write I F W (c @ '' '' @ a)) (\<lambda>_. ok [])"
proof -
  have "hm310t_ask I F W (''volt '' @ a) = bind_act (hm310t_write I F W (''volt '' @ a)) (\<lambda>_. ok [])"
    by (rule ext) (simp add: hm310t_ask_def strcaseeq_Cons tolower_def)
  moreover have "hm310t_ask I F W (''curr '' @ a) = bind_act (hm310t_write I F W (''curr '' @ a)) (\<lambda>_. ok [])"
    by (rule ext) (simp add: hm310t_ask_def strcaseeq_Cons tolower_def)
  moreover have "hm310t_ask I F W (''ovp '' @ a) = bind_act (hm310t_write I F W (''ovp '' @ a)) (\<lambda>_. ok [])"
    by (rule ext) (simp add: hm310t_ask_def strcaseeq_Cons tolower_def)
  moreover have "hm310t_ask I F W (''ocp '' @ a) = bind_act (hm310t_write I F W (''ocp '' @ a)) (\<lambda>_. ok [])"
    by (rule ext) (simp add: hm310t_ask_def strcaseeq_Cons tolower_def)
  ultimately show ?thesis using assms by (auto simp: fractions_def)
qed

lemma fraction_write:
  assumes "(c, r, e) \<in> set fractions" and "W m = Inr [c, a]"
  shows "hm310t_write I F W m (d, w) =
      bind_act (lift_res (unscaled F 16 (e d) a)) (\<lambda>v. modbus_func6 I F r (word_of_int v)) (d, w)"
proof -
  have *: "hm310t_write I F W m s = (if c = ''volt'' then write_volt I F 0x30 a s
      else if c = ''curr'' then write_curr I F 0x31 a s else if c = ''ovp'' then write_volt I F 0x20 a s
      else write_curr I F 0x21 a s)" if "c \<in> {''volt'', ''curr'', ''ovp'', ''ocp''}" for s
    using that assms(2) by (auto simp: hm310t_write_def bind_act_def)
  from assms(1) show ?thesis
    by (subst *) (auto simp: fractions_def write_volt_def write_curr_def)
qed

context modbus_line begin

lemma fraction_set_get:
  assumes "(c, r, e) \<in> set fractions" and "line d w" and "regs w r \<noteq> None"
    and "W (c @ '' '' @ a) = Inr [c, a]" and "unscaled F 16 (e d) a = Inr v"
  shows "\<exists>w1 w2. hm310t_ask I F W (c @ '' '' @ a) (d, w) = (Inr [], (d, w1)) \<and>
    regs w1 = (regs w)(r \<mapsto> word_of_int v) \<and>
    hm310t_ask I F W (c @ ''?'') (d, w1) = (Inr (scaled F (e d) v), (d, w2)) \<and> regs w2 = regs w1"
proof -
  from assms(3) obtain u where "regs w r = Some u" by blast
  from scaled_set [OF assms(2) this assms(5)] obtain w1 where
    "hm310t_write I F W (c @ '' '' @ a) (d, w) = (Inr (), (d, w1))"
    and w1: "regs w1 = (regs w)(r \<mapsto> word_of_int v)" "line d w1"
    unfolding fraction_write [where W = W and m = "c @ '' '' @ a", OF assms(1,4), symmetric] by blast
  then have set: "hm310t_ask I F W (c @ '' '' @ a) (d, w) = (Inr [], (d, w1))"
    by (simp add: fraction_ask_write [OF assms(1)] del: append.simps append_Cons)
  have "0 \<le> v \<and> v < 2 ^ 16"
    using assms(5) by (auto simp: unscaled_def bind_res_Inr_iff Let_def split: if_splits)
  then have "uint (word_of_int v :: 16 word) = v"
    by (simp add: uint_word_of_int)
  with scaled_query [OF w1(2), of r "word_of_int v" "e d"] w1(1)
  have "\<exists>w2. bind_act (modbus_func3 I F r) (\<lambda>v. ok (scaled F (e d) (uint v))) (d, w1) =
      (Inr (scaled F (e d) v), (d, w2)) \<and> regs w2 = regs w1" by auto
  then obtain w2 where "hm310t_ask I F W (c @ ''?'') (d, w1) = (Inr (scaled F (e d) v), (d, w2))" "regs w2 = regs w1"
    unfolding fraction_ask [where c = c and W = W, OF assms(1), symmetric] by blast
  with set w1(1) show ?thesis by blast
qed

end

section \<open>The reference device provides it\<close>

definition slave_line :: "char \<Rightarrow> 'f hm310t_drv \<Rightarrow> slave \<Rightarrow> bool" where
  "slave_line ad d w \<longleftrightarrow> plain_line ad d \<and> sl_out w = [] \<and> c_iflag (sl_tty w) AND ICRNL = 0"

lemma tty_in_id: "c_iflag t AND ICRNL = 0 \<Longrightarrow> tty_in t c = c"
  by (simp add: tty_in_def)

lemma slave_func3_runs:
  assumes "plain_line ad d" and "sl_out w = []" and "sl_regs w r = Some v"
  shows "modbus_func3 (slave_port ad) F r (d, w) =
    (Inr (push_bit 8 (byte (tty_in (sl_tty w) (hi_byte v))) + byte (tty_in (sl_tty w) (lo_byte v))), (d, w))"
proof -
  let ?msg = "with_crc [ad, CHR 0x03, hi_byte r, lo_byte r, CHR 0x00, CHR 0x01]"
  let ?ans = "with_crc [ad, CHR 0x03, CHR 0x02, hi_byte v, lo_byte v]"
  have "slave_answer ad (sl_regs w) ?msg = (?ans, sl_regs w)"
    using assms(3) by (simp add: slave_func3)
  note exchange = slave_exchange [OF assms(1,2) this]
  have frame: "char_of (nat (h_dev_addr d mod 256)) = ad" using assms(1) by (simp add: plain_line_def)
  show ?thesis
    unfolding modbus_func3_def Let_def prod.case frame
    by (subst exchange) (simp_all add: with_crc_def tty_in_def)
qed

lemma slave_func6_runs:
  assumes "slave_line ad d w" and "sl_regs w r = Some u"
  shows "modbus_func6 (slave_port ad) F r v (d, w) = (Inr (), (d, w\<lparr>sl_regs := (sl_regs w)(r \<mapsto> v)\<rparr>))"
proof -
  let ?msg = "with_crc [ad, CHR 0x06, hi_byte r, lo_byte r, hi_byte v, lo_byte v]"
  have "slave_answer ad (sl_regs w) ?msg = (?msg, (sl_regs w)(r \<mapsto> v))"
    using assms(2) by (simp add: slave_func6)
  note exchange = slave_exchange [OF _ _ this]
  have frame: "char_of (nat (h_dev_addr d mod 256)) = ad" and line: "plain_line ad d" "sl_out w = []"
    and raw: "c_iflag (sl_tty w) AND ICRNL = 0"
    using assms(1) by (simp_all add: slave_line_def plain_line_def)
  show ?thesis
    unfolding modbus_func6_def Let_def prod.case frame
    by (subst exchange [OF line]) (simp_all add: with_crc_def tty_in_id [OF raw])
qed

interpretation slave: modbus_line "slave_port ad" F "slave_line ad" sl_regs for ad F
proof unfold_locales
  show "\<exists>w'. modbus_func3 (slave_port ad) F r (d, w) = (Inr v, (d, w')) \<and> sl_regs w' = sl_regs w \<and>
      slave_line ad d w'" if "slave_line ad d w" and "sl_regs w r = Some v" for d :: "'a hm310t_drv" and w r v
    using slave_func3_runs [of ad d w r v F] that
    by (auto simp: slave_line_def tty_in_def word_of_bytes)
  show "\<exists>w'. modbus_func6 (slave_port ad) F r v (d, w) = (Inr (), (d, w')) \<and>
      sl_regs w' = (sl_regs w)(r \<mapsto> v) \<and> slave_line ad d w'"
    if "slave_line ad d w" and "sl_regs w r = Some u" for d :: "'a hm310t_drv" and w r u v
    using slave_func6_runs [OF that, of F v] that by (auto simp: slave_line_def)
qed

lemma slave_func3_refused:
  assumes "plain_line ad d" and "sl_out w = []" and "sl_regs w r = None"
  shows "modbus_func3 (slave_port ad) F r (d, w) =
    (Inl (Err (s_errpref (h_serial d) @ ''modbus error: function code: 131: exception code: 2 (wrong address)'')),
     (d, w))"
proof -
  let ?msg = "with_crc [ad, CHR 0x03, hi_byte r, lo_byte r, CHR 0x00, CHR 0x01]"
  have "slave_answer ad (sl_regs w) ?msg = (with_crc [ad, CHR 0x83, CHR 0x02], sl_regs w)"
    using assms(3) by (simp add: slave_func3)
  note exchange = slave_exchange [OF assms(1,2) this]
  have frame: "char_of (nat (h_dev_addr d mod 256)) = ad" using assms(1) by (simp add: plain_line_def)
  have dec: "dec 131 = ''131''" "dec_int 2 = ''2''" by code_simp+
  show ?thesis
    unfolding modbus_func3_def Let_def prod.case frame
    by (subst exchange) (simp_all add: with_crc_def tty_in_def modbus_exception_def schar_def dec)
qed

text \<open>
  With the translation on, setting a register can be reported as failed although it was set: the
  echo of the request is compared with the request.
\<close>

lemma slave_func6_unseen:
  assumes "plain_line ad d" and "sl_out w = []" and "c_iflag (sl_tty w) AND ICRNL \<noteq> 0"
    and "sl_regs w r = Some u" and "lo_byte v = CHR 0x0D"
  shows "modbus_func6 (slave_port ad) F r v (d, w) =
    (Inl (Err (s_errpref (h_serial d) @ ''modbus error: function code: 6: unexpected response'')),
     (d, w\<lparr>sl_regs := (sl_regs w)(r \<mapsto> v)\<rparr>))"
proof -
  let ?msg = "with_crc [ad, CHR 0x06, hi_byte r, lo_byte r, hi_byte v, lo_byte v]"
  have "slave_answer ad (sl_regs w) ?msg = (?msg, (sl_regs w)(r \<mapsto> v))"
    using assms(4) by (simp add: slave_func6)
  note exchange = slave_exchange [OF assms(1,2) this]
  have frame: "char_of (nat (h_dev_addr d mod 256)) = ad" using assms(1) by (simp add: plain_line_def)
  have dec: "dec 6 = ''6''" by code_simp
  show ?thesis
    unfolding modbus_func6_def Let_def prod.case frame
    by (subst exchange) (simp_all add: with_crc_def tty_in_def assms(3,5) dec)
qed

section \<open>The driver on its port\<close>

lemma hm310t_opts_absent:
  assumes "smap_ok opts" and "hm310t_opts opts = Inr m"
    and "k \<notin> {''dev'', ''timeout'', ''errpref'', ''idn'', ''speed'', ''parity'', ''cread'', ''clocal'', ''vmin'',
      ''ndelay'', ''sfc'', ''raw'', ''delay'', ''opost'', ''read_cond''}"
  shows "sm_find m k = None"
proof -
  have "sm_find opts k = None"
    using assms(2,3) by (auto simp: hm310t_opts_def add_opts_def bind_res_Inr_iff opt_check_unknown_find)
  then show ?thesis
    using assms add_opts_find(2) [OF _ assms(1), of _ _ _ m k] by (simp add: hm310t_opts_def)
qed

lemma icrnl_apart:
  fixes i :: "32 word"
  shows "(i OR (IXON OR IXOFF OR IXANY)) AND ICRNL = i AND ICRNL"
    and "(i AND NOT (IXON OR IXOFF OR IXANY)) AND ICRNL = i AND ICRNL"
proof -
  have *: "(IXON OR IXOFF OR IXANY) AND ICRNL = 0" "NOT (IXON OR IXOFF OR IXANY) AND ICRNL = ICRNL"
    by (simp_all add: termios_bits)
  show "(i OR (IXON OR IXOFF OR IXANY)) AND ICRNL = i AND ICRNL"
    by (subst bit.conj_disj_distrib2, subst *(1), simp)
  show "(i AND NOT (IXON OR IXOFF OR IXANY)) AND ICRNL = i AND ICRNL"
    by (simp only: and.assoc *)
qed

lemma hm310t_keeps_icrnl:
  assumes "smap_ok opts" and "hm310t_opts opts = Inr m" and "serial_options (slave_port ad) F ep m t = Inr t'"
  shows "c_iflag t' AND ICRNL = c_iflag t AND ICRNL"
proof -
  note none = hm310t_opts_absent [OF assms(1,2)]
  have in_none: "input_opts F m i = Inr i" for i
    unfolding input_opts_def by (rule set_opts_absent) (simp add: none opt_exists_find)
  have absent: "set_opt F m ''nlcnv'' b i = Inr i" "set_opt F m ''lcase'' b i = Inr i" for b i
    by (simp_all add: set_opt_def opt_exists_find none)
  have speed: "speed_opt F ep m n (\<lambda>b t. t) t = Inr t1 \<Longrightarrow> t1 = t" for n t1 t
    by (auto simp: speed_opt_def bind_res_Inr_iff split: if_splits)
  have sfc: "set_opt F m ''sfc'' (IXON OR IXOFF OR IXANY) i = Inr i' \<Longrightarrow> i' AND ICRNL = i AND ICRNL" for i i'
    by (auto simp only: set_opt_def bind_res_Inr_iff icrnl_apart sum.inject split: if_splits)
  have par: "parity_opt ep m c = Inr c' \<Longrightarrow> c' AND PARENB = 0" for c c'
    using presets_port [of hm310t_opts, OF _ assms(2,1)]
    by (auto simp: presets_def port_ok_def parity_opt_def opt_exists_find opt_get_def parity_words)
  show ?thesis
    using assms(3) 
    by (auto simp: serial_options_def bind_res_Inr_iff in_none absent Let_def slave_port_def
        dest!: speed par sfc)
qed

lemma bind_act_Inr:
  "bind_act f g s = (Inr y, s2) \<longleftrightarrow> (\<exists>x s1. f s = (Inr x, s1) \<and> g x s1 = (Inr y, s2))"
  by (auto simp: bind_act_def split: prod.splits sum.splits)

lemma sys_check_Inr: "sys_check I p f w = (Inr x, w1) \<longleftrightarrow> f w = (Inr x, w1)"
  by (auto simp: sys_check_def split: prod.splits sum.splits)

lemma slave_port_calls:
  "os_open (slave_port ad) = (\<lambda>p fl w. (Inr 3, w))"
  "fcntl_setfl (slave_port ad) = (\<lambda>fd fl w. (Inr (), w))"
  "tcgetattr (slave_port ad) = (\<lambda>fd w. (Inr (sl_tty w), w))"
  "tcsetattr (slave_port ad) = (\<lambda>fd t w. (Inr (), w\<lparr>sl_tty := t\<rparr>))"
  by (simp_all add: slave_port_def)

lemma serial_create_slave:
  assumes "serial_create (slave_port ad) F m w = (Inr s, w1)"
  obtains ep t' where "serial_options (slave_port ad) F ep m (sl_tty w) = Inr t'" "w1 = w\<lparr>sl_tty := t'\<rparr>"
    "s_add s = opt_get m ''add_str'' []" "s_ack s = opt_get m ''ack_str'' []" "s_trim s = opt_get m ''trim_str'' []"
proof -
  from assms show thesis
    by (auto simp: serial_create_def serial_settings_def bind_act_Inr sys_check_Inr Let_def ok_def
        slave_port_calls split: if_splits intro!: that)
qed

lemma read_dpt_slave:
  assumes "plain_line ad d" and "sl_out w = []" and "sl_regs w 0x05 = Some p"
  shows "\<exists>d'. read_dpt (slave_port ad) F (d, w) = (Inr (), (d', w)) \<and> h_serial d' = h_serial d \<and>
    h_dev_addr d' = h_dev_addr d"
  unfolding read_dpt_def bind_act_def slave_func3_runs [OF assms] by simp

text \<open>The object the constructor makes, and what it leaves of the terminal and the device.\<close>

definition fresh_hm310t :: "'f serial_drv \<Rightarrow> 'f hm310t_drv" where
  "fresh_hm310t s = \<lparr>h_serial = s, h_Ve = 0, h_Ie = 0, h_Pe = 0, h_dev_addr = 1\<rparr>"

lemma preset_opened:
  assumes "smap_ok opts" and "preset_create hm310t_opts (slave_port ad) F opts w = (Inr s, w1)"
  shows "plain_line CHR 0x01 (fresh_hm310t s)" and "\<exists>t. w1 = w\<lparr>sl_tty := t\<rparr>"
    and "c_iflag (sl_tty w1) AND ICRNL = c_iflag (sl_tty w) AND ICRNL"
proof -
  from assms(2) obtain m where m: "hm310t_opts opts = Inr m" "serial_create (slave_port ad) F m w = (Inr s, w1)"
    by (auto simp: preset_create_def bind_act_Inr)
  from m(2) obtain ep t' where t': "serial_options (slave_port ad) F ep m (sl_tty w) = Inr t'"
    and w1: "w1 = w\<lparr>sl_tty := t'\<rparr>" and str: "s_add s = opt_get m ''add_str'' []"
    "s_ack s = opt_get m ''ack_str'' []" "s_trim s = opt_get m ''trim_str'' []"
    by (rule serial_create_slave)
  show "plain_line CHR 0x01 (fresh_hm310t s)"
    using str hm310t_opts_absent [OF assms(1) m(1)]
    by (simp add: plain_line_def fresh_hm310t_def opt_get_def frame_codes)
  show "\<exists>t. w1 = w\<lparr>sl_tty := t\<rparr>" using w1 by blast
  show "c_iflag (sl_tty w1) AND ICRNL = c_iflag (sl_tty w) AND ICRNL"
    using hm310t_keeps_icrnl [OF assms(1) m(1) t'] w1 by simp
qed

lemma hm310t_opens:
  assumes "smap_ok opts" and "preset_create hm310t_opts (slave_port CHR 0x01) F opts w = (Inr s, w1)"
    and "sl_out w = []" and "sl_regs w 0x05 = Some p"
  obtains d where "hm310t_create (slave_port CHR 0x01) F opts w = (Inr d, w1)" "plain_line CHR 0x01 d"
proof -
  note opened = preset_opened [OF assms(1,2)]
  have "sl_out w1 = []" "sl_regs w1 0x05 = Some p" using opened(2) assms(3,4) by auto
  from read_dpt_slave [OF opened(1) this] obtain d where
    rd: "read_dpt (slave_port CHR 0x01) F (fresh_hm310t s, w1) = (Inr (), (d, w1))"
    and d: "h_serial d = h_serial (fresh_hm310t s)" "h_dev_addr d = h_dev_addr (fresh_hm310t s)"
    by auto
  have "hm310t_create (slave_port CHR 0x01) F opts w = (Inr d, w1)"
    unfolding hm310t_create_def fresh_hm310t_def [symmetric] bind_act_def assms(2) prod.case sum.case rd unit.case ..
  moreover have "plain_line CHR 0x01 d" using opened(1) d by (simp add: plain_line_def)
  ultimately show thesis by (rule that)
qed

lemma hm310t_opened:
  assumes "smap_ok opts" and "sl_out w = []" and "sl_regs w 0x05 = Some p"
    and "hm310t_create (slave_port CHR 0x01) F opts w = (Inr d, w1)"
  shows "plain_line CHR 0x01 d" and "\<exists>t. w1 = w\<lparr>sl_tty := t\<rparr>"
    and "c_iflag (sl_tty w1) AND ICRNL = c_iflag (sl_tty w) AND ICRNL"
proof -
  from assms(4) obtain s w2 where s: "preset_create hm310t_opts (slave_port CHR 0x01) F opts w = (Inr s, w2)"
    unfolding hm310t_create_def bind_act_Inr by blast
  from hm310t_opens [OF assms(1) s assms(2,3)] assms(4) have "plain_line CHR 0x01 d \<and> w2 = w1" by auto
  with preset_opened [OF assms(1) s] show "plain_line CHR 0x01 d" "\<exists>t. w1 = w\<lparr>sl_tty := t\<rparr>"
    "c_iflag (sl_tty w1) AND ICRNL = c_iflag (sl_tty w) AND ICRNL" by auto
qed

section \<open>Properties\<close>



section \<open>Witnesses\<close>

text \<open>Conversions for whole numbers, with exact arithmetic.\<close>

definition rat_conv :: "rat conv" where
  "rat_conv = \<lparr>p_bool = (\<lambda>s. Inr (s = ''1'')), p_int = (\<lambda>s. Inr (int (undec s))),
     p_uint = (\<lambda>s. Inr (word_of_nat (undec s))), p_double = (\<lambda>s. Inr (of_nat (undec s))),
     f_lit = (\<lambda>s. if s = ''10'' then 10 else if s = ''0.1'' then 1 / 10 else 0), f_less = (<),
     f_mul = (*), f_sub = (-), f_pow = (\<lambda>x y. x ^ nat (floor y)), f_trunc = floor,
     f_of_int = of_int, f_str = (\<lambda>x. dec (nat (floor x)))\<rparr>"

definition rat_hm310t :: "rat hm310t_drv" where
  "rat_hm310t = \<lparr>h_serial = \<lparr>s_fd = 3, s_errpref = ''HM310T: '', s_idn = ''HM310T'', s_ack = [], s_nack = [],
     s_add = [], s_trim = [], s_cond = READCOND_ALWAYS, s_delay = 0, s_flush_on_err = True\<rparr>,
     h_Ve = 2, h_Ie = 3, h_Pe = 3, h_dev_addr = 1\<rparr>"

definition hm310t_device :: "32 word \<Rightarrow> slave" where
  "hm310t_device i = \<lparr>sl_regs = [0x05 \<mapsto> 0x0233, 0x30 \<mapsto> 0x000D], sl_out = [],
     sl_tty = \<lparr>c_iflag = i, c_oflag = 0, c_cflag = 0, c_lflag = 0, c_cc = replicate 32 0\<rparr>\<rparr>"


lemma slave_options: "serial_options (slave_port ad) = serial_options list_port"
  by (intro ext) (simp add: serial_options_def slave_port_def list_port_def)

lemma serial_create_slave_ok:
  assumes "opt_check_unknown serial_known m = Inr ()" and "opt_get m ''dev'' [] \<noteq> []"
    and "opt_get_as (p_bool F) m ''ndelay'' True = Inr b"
    and "serial_options list_port F (opt_get m ''errpref'' ''serial: '' @ opt_get m ''dev'' [] @ '': '') m
      (sl_tty w) = Inr t"
    and "opt_get_as (p_double F) m ''delay'' (f_lit F ''0.1'') = Inr dl"
    and "str_to_read_cond (opt_get m ''read_cond'' ''always'') = Inr co"
    and "opt_get_as (p_bool F) m ''flush_on_err'' True = Inr fl"
  shows "\<exists>s. serial_create (slave_port ad) F m w = (Inr s, w\<lparr>sl_tty := t\<rparr>)"
proof -
  have ndelay: "(if opt_exists m ''ndelay'' then bind_act (lift_res (opt_get_as (p_bool F) m ''ndelay'' True))
      (\<lambda>b. sys_check (slave_port ad) p (fcntl_setfl (slave_port ad) 3 (k b))) else ok ()) w = (Inr (), w)" for p k
    using assms(3) by (simp add: slave_port_calls sys_check_def ok_def bind_act_def)
  show ?thesis
    unfolding serial_create_def Let_def slave_options
    using assms by (simp add: bind_act_def [of "lift_res _"] bind_act_def [of "sys_check _ _ _"]
        bind_act_def [of "if _ then _ else _"] ndelay sys_check_def slave_port_calls serial_settings_def ok_def)
qed

lemma hm310t_device_opens:
  "\<exists>d w1. hm310t_create (slave_port CHR 0x01) bool_conv [(''dev'', ''/dev/x'')] (hm310t_device ICRNL) = (Inr d, w1)"
proof -
  have opts: "case hm310t_opts [(''dev'', ''/dev/x'')] of Inl e \<Rightarrow> False | Inr m \<Rightarrow>
      opt_check_unknown serial_known m = Inr () \<and> opt_get m ''dev'' [] \<noteq> [] \<and>
      opt_get_as (p_bool bool_conv) m ''ndelay'' True = Inr False \<and>
      \<not> isl (serial_options list_port bool_conv
        (opt_get m ''errpref'' ''serial: '' @ opt_get m ''dev'' [] @ '': '') m (sl_tty (hm310t_device ICRNL))) \<and>
      opt_get_as (p_double bool_conv) m ''delay'' (f_lit bool_conv ''0.1'') = Inr 5 \<and>
      str_to_read_cond (opt_get m ''read_cond'' ''always'') = Inr READCOND_ALWAYS \<and>
      opt_get_as (p_bool bool_conv) m ''flush_on_err'' True = Inr True"
    by code_simp
  then obtain m where m: "hm310t_opts [(''dev'', ''/dev/x'')] = Inr m"
    by (cases "hm310t_opts [(''dev'', ''/dev/x'')]") auto
  from opts m obtain t where "serial_options list_port bool_conv
      (opt_get m ''errpref'' ''serial: '' @ opt_get m ''dev'' [] @ '': '') m (sl_tty (hm310t_device ICRNL)) = Inr t"
    by (auto simp: isl_def) (metis isl_def sum.exhaust)
  with opts m obtain s w1 where "serial_create (slave_port CHR 0x01) bool_conv m (hm310t_device ICRNL) = (Inr s, w1)"
    using serial_create_slave_ok [of m bool_conv False "hm310t_device ICRNL" t 5 READCOND_ALWAYS True] by force
  with m have s: "preset_create hm310t_opts (slave_port CHR 0x01) bool_conv [(''dev'', ''/dev/x'')]
      (hm310t_device ICRNL) = (Inr s, w1)"
    by (simp add: preset_create_def bind_act_def)
  show ?thesis
    by (rule hm310t_opens [OF _ s, where p = "0x0233"]) (auto simp: hm310t_device_def smap_ok_def)
qed


end
