(* ===== verification/Test_Sessions.thy ===== *)
theory Test_Sessions
  imports Log_Scenario Client_Server Client_Text
begin

text \<open>
  The first server of the test \<^verbatim>\<open>server/device_d.test4\<close> from end to end: the runs of \<^verbatim>\<open>device_c\<close>, but for
  the two that print the help text and look for an unknown host, are runs of the model of the
  client, its requests go over the line to the model of the server, and the server writes its log. What each client prints is what the test expects of it, and the
  log is \<^verbatim>\<open>test_data/log2.txt\<close>. The parts of the client that are parameters are instantiated by the
  functions of the submodule (\<open>Read_Words\<close>), percent escapes and a terminal.
\<close>

declare cmd_loop.simps [code] monitor_loop.simps [code]

text \<open>
  There is one connection at a time, with number 1 at libmicrohttpd. A client connects with its
  first request and the connection ends with the client.
\<close>

datatype test_server = At "(string, nat logged) server"

fun test_reply :: "string \<Rightarrow> test_server \<Rightarrow> reply result \<times> test_server" where
  "test_reply url (At s) =
     (let s0 = (if sm_has (socket_context s) 1 then s else snd (conn_started_log 3 (\<lambda>h. 0x7F000001) 1 s)) in
      case conn_request_log (log_env files_env) 1
        \<lparr>req_method = ''GET'', req_url = unpercent url, req_args = []\<rparr> [] s0 of (r, s1) \<Rightarrow> (r, At s1))"

fun test_bye :: "test_server \<Rightarrow> test_server" where
  "test_bye (At s) = At (if sm_has (socket_context s) 1 then snd (conn_closed_log 1 s) else s)"

type_synonym test_world = "test_server terminal"

definition test_srv :: string where
  "test_srv = ''http://localhost:8182''"

definition test_get :: "string \<Rightarrow> test_world \<Rightarrow> (string + nat \<times> string list) \<times> test_world" where
  "test_get url w = (case test_reply (drop (length test_srv) url) (behind w) of
       (Inr (Response n body h), s) \<Rightarrow> (Inr (n, [body]), w\<lparr>behind := s\<rparr>)
     | (r, s) \<Rightarrow> (Inl ''no response'', w\<lparr>behind := s\<rparr>))"

definition test_escape :: "string \<Rightarrow> string option" where
  "test_escape s = Some (percent s)"

definition test_good :: "test_world \<Rightarrow> bool" where
  "test_good w \<longleftrightarrow> typed w \<noteq> []"

definition test_words :: "(test_world, string list) act" where
  "test_words w = typed_words (\<lambda>n. CHR 0x00) w"

definition test_print :: "string \<Rightarrow> test_world \<Rightarrow> test_world" where
  "test_print t w = w\<lparr>printed := printed w @ t\<rparr>"

definition test_parse :: "getopt_el list \<Rightarrow> string list \<Rightarrow> (opt \<times> string list) result" where
  "test_parse els args = Inr ([(''port'', ''8182''), (''server'', ''localhost'')], args)"

definition test_client :: "test_world client_sys" where
  "test_client = \<lparr>os_open = (\<lambda>p fl w. (Inl 0, w)), os_close = (\<lambda>fd w. w), os_read = (\<lambda>fd n w. (Inl 0, w)),
     os_write = (\<lambda>fd s w. (Inl 0, w)), os_usleep = (\<lambda>t w. w), strerror = dec,
     url_escape = test_escape, http_get = test_get, in_good = test_good, in_words = test_words,
     join_words = words_line, out = test_print, err_out = test_print,
     client_conf = (\<lambda>f ns. ok []), client_parse = test_parse, client_print = (\<lambda>p t n h w. w),
     get_pid = (\<lambda>w. 7), inet_socket = (\<lambda>w. (Inl 0, w)), inet_bind = (\<lambda>s p w. (Inl 0, w)),
     getsockname = (\<lambda>s w. (Inl 0, w)), setenv = (\<lambda>n v w. w), system_cmd = (\<lambda>s w. (Inr 0, w))\<rparr>"

lemma test_client_main:
  "client_main test_client test_conv (a # r) w =
     (case client_action test_client test_srv False ''device_c(7)'' (a # r) w of
        (Inr (), w1) \<Rightarrow> (Inr 0, w1)
      | (Inl (Err e), w1) \<Rightarrow> (Inr 1, if e \<noteq> [] then test_print (''Error: '' @ e @ nl) w1 else w1)
      | (Inl x, w1) \<Rightarrow> (Inl x, w1))"
proof -
  let ?opts = "[(''port'', ''8182''), (''server'', ''localhost'')]"
  have opts: "opt_exists ?opts k = (k \<in> {''port'', ''server''})" "opt_get ?opts ''server'' d = ''localhost''"
    "opt_get ?opts ''name'' d = d" "opt_get_as p ?opts ''port'' n = p ''8182''" for k d p n
    by (auto simp: opt_exists_def sm_has_def opt_get_def opt_get_as_def sm_find_def)
  have "digit 8 = CHR ''8''" "digit 1 = CHR ''1''" "digit 2 = CHR ''2''" "digit 7 = CHR ''7''" by code_simp+
  then have port: "undec ''8182'' = 8182" "dec_int 8182 = ''8182''" "dec 7 = ''7''"
    by (simp_all add: undec_def dec_int_def dec.simps)
  have *: "bind_act (lift_res (client_parse test_client client_options (a # r))) (\<lambda>(opts, pars). client_body test_client test_conv opts pars) w =
      client_action test_client test_srv False ''device_c(7)'' (a # r) w"
    by (simp add: client_body_def test_client_def test_parse_def bind_act_def opts test_conv_def port test_srv_def
        put_missing_all_def ok_def Let_def)
  have err: "err_out test_client = test_print" by (simp add: test_client_def)
  show ?thesis unfolding client_main_def * err ..
qed

section \<open>Runs of the client\<close>

text \<open>A client with a command line and something typed: what it prints, how it ends, the server after it.\<close>

definition client_run :: "string list \<Rightarrow> string \<Rightarrow> test_server \<Rightarrow> (string \<times> nat result) \<times> test_server" where
  "client_run argv text s =
     (case client_main test_client test_conv argv \<lparr>typed = text, printed = [], behind = s\<rparr> of
        (r, w) \<Rightarrow> ((printed w, r), test_bye (behind w)))"

fun client_runs :: "(string list \<times> string) list \<Rightarrow> test_server \<Rightarrow>
    (string \<times> nat result) list \<times> test_server" where
  "client_runs [] s = ([], s)"
| "client_runs ((argv, text) # rs) s = (case client_run argv text s of (r, s1) \<Rightarrow>
     case client_runs rs s1 of (outs, s2) \<Rightarrow> (r # outs, s2))"

text \<open>The same for evaluation, without the options.\<close>

lemma client_run_code [code]:
  "client_run argv text s = (case argv of
     [] \<Rightarrow> (case client_main test_client test_conv [] \<lparr>typed = text, printed = [], behind = s\<rparr> of
        (r, w) \<Rightarrow> ((printed w, r), test_bye (behind w)))
   | a # r \<Rightarrow>
     (case (case client_action test_client test_srv False ''device_c(7)'' (a # r)
            \<lparr>typed = text, printed = [], behind = s\<rparr> of
        (Inr (), w1) \<Rightarrow> (Inr 0, w1)
      | (Inl (Err e), w1) \<Rightarrow> (Inr 1, if e \<noteq> [] then test_print (''Error: '' @ e @ nl) w1 else w1)
      | (Inl x, w1) \<Rightarrow> (Inl x, w1)) of
        (r, w) \<Rightarrow> ((printed w, r), test_bye (behind w))))"
proof (cases argv)
  case (Cons a r)
  show ?thesis unfolding Cons client_run_def test_client_main list.case ..
qed (simp add: client_run_def)

section \<open>The test\<close>

definition test_start :: test_server where
  "test_start = At \<lparr>dman = new_manager_log (log_env files_env) ''test_data/n2.txt'' (0, []), cmax = 0, socket_context = []\<rparr>"

fun test_log :: "test_server \<Rightarrow> string list" where
  "test_log (At s) = shown 3 (snd (delete_manager_log (log_env files_env) (dman s)))"

definition test4 :: "(string list \<times> string) list" where
  "test4 = [([''ping'', ''a''], []), ([''ping''], []), ([''get_time''], []), ([''ask'', ''x'', ''text''], []),
     ([''x'', ''b'', ''text''], []), ([''ask'', ''b'', ''text''], []), ([''devices''], []), ([''list''], []),
     ([''info'', ''a''], []), ([''ask'', ''b'', ''text''], []),
     ([''use_dev'', ''b''], ''a'' @ nl @ ''b c'' @ nl @ ''d/e'' @ nl @ ''f&g'' @ nl @ nl @ nl),
     ([''use_srv''], ''list'' @ nl @ ''list 1'' @ nl @ ''err'' @ nl @ ''ping'' @ nl @ ''use b'' @ nl @
        ''ask b 123'' @ nl @ ''info b'' @ nl @ nl)]"

text \<open>What every client of the test prints, its exit status, and the log of the server.\<close>

lemma device_d_test4:
  "case client_runs test4 test_start of (outs, s) \<Rightarrow> outs =
   [(''Error: unexpected parameter for \"ping\" action: a'' @ nl, Inr 1), ([], Inr 0), (''0.000000'' @ nl, Inr 0),
    (''Error: unknown device: x'' @ nl, Inr 1), (''Error: unknown action: x'' @ nl, Inr 1), (''text'' @ nl, Inr 0),
    (''a'' @ nl @ ''b'' @ nl, Inr 0), (''a'' @ nl @ ''b'' @ nl, Inr 0),
    (''Device: a'' @ nl @ ''Driver: test'' @ nl @ ''Device is closed'' @ nl @ ''Number of users: 0'' @ nl, Inr 0),
    (''text'' @ nl, Inr 0),
    (''#SPP001'' @ nl @ ''Server: http://localhost:8182'' @ nl @ ''Device: b'' @ nl @ ''#OK'' @ nl @
     ''a'' @ nl @ ''#OK'' @ nl @ ''b c'' @ nl @ ''#OK'' @ nl @ ''d/e'' @ nl @ ''#OK'' @ nl @ ''f&g'' @ nl @ ''#OK'' @ nl, Inr 0),
    (''#SPP001'' @ nl @ ''Server: http://localhost:8182'' @ nl @ ''#OK'' @ nl @
     ''a'' @ nl @ ''b'' @ nl @ nl @ ''#OK'' @ nl @ ''#Error: unexpected argument: /list/1'' @ nl @
     ''#Error: unknown action: err'' @ nl @ nl @ ''#OK'' @ nl @ nl @ ''#OK'' @ nl @ ''123'' @ nl @ ''#OK'' @ nl @
     ''Device: b'' @ nl @ ''Driver: test'' @ nl @ ''Driver arguments:'' @ nl @ ''  -a: b'' @ nl @ ''  -c: d'' @ nl @
     ''Device is open'' @ nl @ ''Number of users: 1'' @ nl @ ''You are currently using the device'' @ nl @ nl @
     ''#OK'' @ nl, Inr 0)] \<and>
   test_log s = log2_txt"
  by code_simp

end
