(* ===== verification/Spec2Isabelle.thy ===== *)
theory Spec2Isabelle
  imports Log_Scenario Manager_Races Threads_Progress Log_Bounds Device_Ping Client_Server Client_Spp Client_Text Unit_Tests Modbus_Slave Test_Sessions
begin

text \<open>
  A model of \<^verbatim>\<open>device2\<close>, a server that shares laboratory devices between many clients, and the
  theorems about it. Definitions follow the C++ sources under \<^verbatim>\<open>src/server\<close> function by function.

  THE PROGRAM. \<^verbatim>\<open>device_d\<close> (\<^verbatim>\<open>device_d.cpp\<close>) reads its options, looks after its pid file and starts
  a device manager and an HTTP server. The HTTP server (\<^verbatim>\<open>http_server.cpp\<close>) numbers the connections
  and hands the URL of each request to the manager (\<^verbatim>\<open>dev_manager.cpp\<close>), which splits it into an
  action, a device and a command, finds the device of the configuration file and runs the action on
  it. A device (\<^verbatim>\<open>device.cpp\<close>) knows its users, its lock and its log buffers and owns a driver
  object; the drivers (\<^verbatim>\<open>drv_*.cpp\<close>) talk to the hardware. \<^verbatim>\<open>device_c\<close> is the client,
  \<^verbatim>\<open>device_ping\<close> opens one device without a server.

  CONVENTIONS (\<open>Prelude\<close>, \<open>Std_Map\<close>, \<open>Opts\<close>, \<open>Os\<close>). A C++ function that changes a state \<open>'s\<close> is an
  \<open>('s, 'a) act\<close>: from a state it gives an exception or a value, and the new state. \<open>Err m\<close> is the
  project's exception class, \<open>UB\<close> an execution without a meaning (a call through a null pointer, an
  oversized shift), \<open>Hang\<close> a call that does not return. \<^verbatim>\<open>std::map\<close> is a list sorted by key (\<open>smap\<close>),
  options are such a map from strings to strings. Connection numbers are 64-bit words, bytes,
  registers and terminal flags words of their width. Loops over data are structural recursion; loops
  that may run for ever are \<open>partial_function\<close>s whose value is \<open>None\<close> then, so that no fuel is
  needed, and the theorems that they return say so. The outside world is a type \<open>'w\<close>: system calls,
  libraries and the submodule \<^verbatim>\<open>mapsoft2-libs\<close> (the parser of command lines, number
  conversion, the log file) are records of functions over it and parameters of the definitions. What a
  theorem assumes of them is among its hypotheses.

  THEORIES AND WHAT THEY SHOW.
  \<^item> \<open>Drv_Utils\<close>, \<open>Driver_Iface\<close>: \<^verbatim>\<open>trim_str\<close>, read conditions, the abstract class \<^verbatim>\<open>Driver\<close> as a \<open>vtable\<close>;
    the locale \<open>message_driver\<close> is the contract of \<^verbatim>\<open>ask\<close> the drivers share.
  \<^item> \<open>Device\<close>, \<open>Device_Ops\<close>: every operation of \<^verbatim>\<open>Device\<close>; the invariant \<open>dev_inv\<close>; the refinement of
    an abstract session (members, owner, open flag); the log buffers as the last 1024 messages.
  \<^item> \<open>Device_Threads\<close>, \<open>Threads_Progress\<close>, \<open>Log_Bounds\<close>: the same operations as threads that interleave,
    with \<^verbatim>\<open>data_mutex\<close> and \<^verbatim>\<open>cmd_mutex\<close>: an uninterrupted thread computes the sequential operation,
    mutual exclusion, no deadlock, what a lock still guarantees, and the races there are.
  \<^item> \<open>Dev_Manager\<close>, \<open>Manager_Props\<close>, \<open>Conf_Props\<close>, \<open>Manager_Run\<close>: URLs, requests, connection names, the
    configuration file; the invariant of the manager over all histories of events.
  \<^item> \<open>Manager_Threads\<close>, \<open>Manager_Races\<close>: the manager as interleaving threads with its shared lock. A thread
    alone computes the sequential operations; references to devices stay valid; the unlocked loop over
    the devices and the unlocked names are racy.
  \<^item> \<open>Http_Server\<close>: the callbacks of libmicrohttpd and the start of its daemon; a request runs the
    manager exactly once, open connections have different numbers.
  \<^item> \<open>Device_D\<close>, \<open>Daemon_Props\<close>, \<open>Daemon_Run\<close>: the server program; its pid file, stopping and reloading
    it, and its main loop under any sequence of signals and connections. \<open>sat\<close> and \<open>keeps\<close> are the
    rules for reasoning through the long body of \<^verbatim>\<open>main\<close>.
  \<^item> \<open>Server_Log\<close>, \<open>Log_Props\<close>, \<open>Log_Scenario\<close>: the same server with the messages it writes to its log. The
    other theories leave them out; here the world carries the entries written so far and each operation
    that writes one is given with its \<^verbatim>\<open>Log\<close> lines (\<open>dev_use_log\<close> for \<open>dev_use\<close>, and so on). Forgetting
    the log (\<open>seen_as\<close>) gives back the server of the other theories; the log alone tells which devices
    are open and who is connected; the model writes the logs the server tests \<^verbatim>\<open>device_d.test2\<close> and
    \<^verbatim>\<open>device_d.test4\<close> expect.
  \<^item> \<open>Getopt\<close>: the tables of command line options and the help texts of server and client.
  \<^item> \<open>Client\<close>, \<open>Client_Server\<close>, \<open>Client_Spp\<close>: the client from its command line on, with its tunnel; a
    command of a user through client, server, manager, device and back to the screen; a client as the
    program behind the SPP driver of another server.
  \<^item> \<open>Device_Ping\<close>: the program without a server.
  \<^item> \<open>Drv_Spp\<close>, \<open>Drv_Serial\<close>, \<open>Serial_Props\<close>, \<open>Drv_Serial_Presets\<close>, \<open>Drv_Hm310t\<close>, \<open>Drv_Net\<close>, \<open>Drv_Usbtmc\<close>,
    \<open>Drv_Gpib\<close>, \<open>Drv_Vxi\<close>: one theory for each driver family, with its constructor, \<^verbatim>\<open>read\<close>, \<^verbatim>\<open>write\<close>,
    \<^verbatim>\<open>ask\<close> and destructor; \<open>Tmc\<close>: the constants and structures of \<^verbatim>\<open>tmc.h\<close>.
  \<^item> \<open>Modbus_Slave\<close>: the power supply driver with a reference Modbus device behind a terminal, an instance
    of the calls of the operating system. The locale \<open>modbus_line\<close> states what the driver relies on; a
    setting that was made is the one that is reported; what the port settings do to registers.
  \<^item> \<open>Drv_Create\<close>, \<open>Driver_Inv\<close>, \<open>Drv_Types\<close>: \<^verbatim>\<open>Driver::create\<close> as a function to a sum of all drivers; the
    locale \<open>driver_invariant\<close> lifts a fact about driver objects to every history of the manager, and is
    interpreted for the classes of the objects.
  \<^item> \<open>Read_Words\<close>, \<open>Conf_Text\<close>, \<open>Client_Text\<close>: \<^verbatim>\<open>read_words\<close> and \<^verbatim>\<open>join_words\<close> themselves, a support theory
    for those that want to speak of texts: reading what was joined gives the words back; a
    configuration written that way is read as it was meant; a session of \<^verbatim>\<open>device_c use_dev\<close> for any
    text.
  \<^item> \<open>Unit_Tests\<close>: the repository's unit test programs over the model; each ends with status 0.
  \<^item> \<open>Test_Sessions\<close>: client, server and log together on the clients of \<^verbatim>\<open>device_d.test4\<close>; each prints what
    the test expects, and the log is the expected one.

  BOUNDS. A log buffer holds 1024 messages, as in the constructor of \<^verbatim>\<open>Device\<close>. The connection
  counter has 64 bits; theorems about distinct numbers assume fewer than 2^64 connections. Positions
  in strings are natural numbers with \<^verbatim>\<open>npos\<close> for the largest \<^verbatim>\<open>size_t\<close>; theorems about
  searching assume shorter strings. A thread needs at most nine steps for a request.

  ASSUMED ABOUT CONCURRENCY. \<open>Device_Threads\<close> interleaves steps over sequentially consistent memory and
  takes a step that reads or writes one field as atomic; \<open>log_race\<close> and \<open>lock_race\<close> show steps the code
  does not order. \<open>Manager_Threads\<close> does the same for the manager, with an operation of a device as one
  step. \<open>Manager_Run\<close> and the main loop of \<open>Device_D\<close> run one request at a time.

  NOT MODELLED. The functions of the submodule other than those of \<open>Opts\<close> and \<open>Read_Words\<close> (they are
  parameters; \<open>getopt_law\<close> states what is documented of the parser of command lines); the mutex inside the log, that is, what lines of
  threads that interleave look like; the shell tests as scripts (clients of two of them are replayed
  in \<open>Log_Scenario\<close> and \<open>Test_Sessions\<close>), the Tcl client and the packaging, which are not part of the
  programs.
\<close>

end
